(* ===== verification/Prelude.thy ===== *)
theory Prelude
  imports Main "HOL-Library.Word" "HOL-Library.AList" "HOL-Library.List_Lexorder"
begin

text \<open>
  Shared vocabulary of the development: the machine integers of the C++ sources, fixed-size
  byte arrays (\<^verbatim>\<open>std::array<std::uint8_t, N>\<close>), the result type of code that can throw,
  and generic facts on lists, association lists and words that several components use.

  The collections \<open>engine_ops\<close> (unfolding of engine operations), \<open>rec_ops\<close> (record-level
  helpers) and \<open>codec_rt\<close> (read-after-write laws of the binary codec) are filled by the
  component theories.
\<close>

unbundle bit_operations_syntax

named_theorems rec_ops \<open>definitions of the record-level helpers of the engine\<close>
named_theorems engine_ops \<open>definitions of the engine operations\<close>
named_theorems codec_rt \<open>read-after-write laws of the binary codec\<close>

section \<open>Machine integers and fixed-size arrays\<close>

type_synonym u8 = "8 word"
type_synonym u16 = "16 word"
type_synonym u32 = "32 word"
type_synonym u64 = "64 word"

text \<open>
  \<^verbatim>\<open>std::array<std::uint8_t, N>\<close>: exactly \<open>N\<close> bytes. \<open>to_array\<close> builds one from a list,
  cutting or zero-filling to the size; on a list of the right length it keeps every byte.
\<close>

typedef (overloaded) 'n byte_array = "{xs :: u8 list. length xs = LENGTH('n::len)}"
  morphisms array_bytes Abs_byte_array
proof
  show "replicate LENGTH('n) 0 \<in> {xs :: u8 list. length xs = LENGTH('n)}" by simp
qed

definition to_array :: "u8 list \<Rightarrow> ('n::len) byte_array" where
  "to_array xs = Abs_byte_array (take LENGTH('n) (xs @ replicate LENGTH('n) 0))"

lemma byte_array_abstype [code abstype]: "Abs_byte_array (array_bytes a) = a"
  by (rule array_bytes_inverse)

lemma length_array_bytes [simp]: "length (array_bytes (a :: ('n::len) byte_array)) = LENGTH('n)"
  using array_bytes [of a] by simp

lemma array_bytes_to_array_eq [code abstract]:
  "array_bytes (to_array xs :: ('n::len) byte_array) = take LENGTH('n) (xs @ replicate LENGTH('n) 0)"
  by (simp add: to_array_def Abs_byte_array_inverse)

lemma array_bytes_to_array:
  "length xs = LENGTH('n) \<Longrightarrow> array_bytes (to_array xs :: ('n::len) byte_array) = xs"
  by (simp add: array_bytes_to_array_eq)

lemma array_bytes_eq_iff [simp]: "array_bytes a = array_bytes b \<longleftrightarrow> a = b"
  by (rule array_bytes_inject)

lemma to_array_array_bytes [simp]: "to_array (array_bytes a) = a"
  by (simp add: array_bytes_to_array flip: array_bytes_eq_iff)

lemma to_array_eq_iff [simp]:
  "(to_array xs :: ('n::len) byte_array) = to_array ys
   \<longleftrightarrow> take LENGTH('n) (xs @ replicate LENGTH('n) 0) = take LENGTH('n) (ys @ replicate LENGTH('n) 0)"
  by (simp only: array_bytes_to_array_eq flip: array_bytes_eq_iff)

instantiation byte_array :: (len) equal
begin

definition equal_byte_array :: "'a byte_array \<Rightarrow> 'a byte_array \<Rightarrow> bool" where
  "equal_byte_array a b \<longleftrightarrow> array_bytes a = array_bytes b"

instance
  by standard (simp add: equal_byte_array_def)

end

text \<open>\<^verbatim>\<open>operator<\<close> of \<^verbatim>\<open>std::array\<close> is lexicographic.\<close>

instantiation byte_array :: (len) linorder
begin

definition less_eq_byte_array :: "'a byte_array \<Rightarrow> 'a byte_array \<Rightarrow> bool" where
  "less_eq_byte_array a b \<longleftrightarrow> array_bytes a \<le> array_bytes b"

definition less_byte_array :: "'a byte_array \<Rightarrow> 'a byte_array \<Rightarrow> bool" where
  "less_byte_array a b \<longleftrightarrow> array_bytes a < array_bytes b"

instance
  by standard (auto simp: less_eq_byte_array_def less_byte_array_def less_le_not_le)

end

section \<open>Exceptions\<close>

text \<open>
  The engine's \<^verbatim>\<open>records_.at(id)\<close> throws \<^verbatim>\<open>std::out_of_range\<close> for a missing key;
  a call that throws is a left value.
\<close>

datatype exn = OutOfRange

type_synonym 'a result = "exn + 'a"

section \<open>Decimal rendering: std::to_string\<close>

fun decimal :: "nat \<Rightarrow> string" where
  "decimal n = (if n < 10 then [char_of (48 + n)] else decimal (n div 10) @ [char_of (48 + n mod 10)])"

declare decimal.simps [simp del]

definition std_to_string :: "u64 \<Rightarrow> string" where
  "std_to_string v = decimal (unat v)"

section \<open>Lists\<close>

text \<open>
  A C++ range-for over a vector whose body acts on the first match and breaks is
  \<open>update_first\<close>; one that acts on every match is a plain \<open>map\<close>.
\<close>

fun update_first :: "('a \<Rightarrow> bool) \<Rightarrow> ('a \<Rightarrow> 'a) \<Rightarrow> 'a list \<Rightarrow> 'a list" where
  "update_first P f [] = []"
| "update_first P f (x # xs) = (if P x then f x # xs else x # update_first P f xs)"

lemma length_update_first [simp]: "length (update_first P f xs) = length xs"
  by (induction xs) auto

lemma update_first_eq_Nil [simp]: "update_first P f xs = [] \<longleftrightarrow> xs = []"
  by (cases xs) auto

lemma map_update_first:
  "(\<And>x. g (f x) = g x) \<Longrightarrow> map g (update_first P f xs) = map g xs"
  by (induction xs) auto

lemma update_first_no_match: "(\<And>x. x \<in> set xs \<Longrightarrow> \<not> P x) \<Longrightarrow> update_first P f xs = xs"
  by (induction xs) auto

lemma update_first_append:
  "update_first P f (xs @ ys) =
     (if \<exists>x \<in> set xs. P x then update_first P f xs @ ys else xs @ update_first P f ys)"
  by (induction xs) auto

lemma set_update_first: "x \<in> set (update_first P f xs) \<Longrightarrow> x \<in> set xs \<or> (\<exists>y \<in> set xs. P y \<and> x = f y)"
  by (induction xs) (auto split: if_splits)

lemma last_map_nonempty: "xs \<noteq> [] \<Longrightarrow> last (map f xs) = f (last xs)"
  by (rule last_map)

section \<open>Association lists\<close>

text \<open>The engine's hash map is an association list with distinct keys.\<close>

lemma map_of_update [simp]: "map_of (AList.update k v al) = (map_of al)(k \<mapsto> v)"
  by (rule update_conv')

lemma distinct_keys_update [simp]: "distinct (map fst (AList.update k v al)) \<longleftrightarrow> distinct (map fst al)"
  by (induction al) (auto simp: update_keys)

lemma update_same: "map_of al k = Some v \<Longrightarrow> AList.update k v al = al"
  by (induction al) (auto split: if_splits)

section \<open>Runs of a step relation\<close>

text \<open>
  \<open>steps step s es s'\<close>: the events \<open>es\<close>, in order, take \<open>s\<close> to \<open>s'\<close>. The two locales
  are the contracts that the properties of whole runs rest on: an invariant that every step keeps,
  and, where the invariant holds, a preorder that every step climbs.
\<close>

inductive steps :: "('s \<Rightarrow> 'e \<Rightarrow> 's \<Rightarrow> bool) \<Rightarrow> 's \<Rightarrow> 'e list \<Rightarrow> 's \<Rightarrow> bool" for step where
  steps_Nil [intro, simp]: "steps step s [] s"
| steps_Cons [intro]: "step s e s' \<Longrightarrow> steps step s' es s'' \<Longrightarrow> steps step s (e # es) s''"

inductive_cases steps_NilE [elim!]: "steps step s [] s'"
inductive_cases steps_ConsE [elim!]: "steps step s (e # es) s'"

lemma steps_append: "steps step s es s' \<Longrightarrow> steps step s' fs s'' \<Longrightarrow> steps step s (es @ fs) s''"
  by (induction rule: steps.induct) auto

lemma steps_appendE:
  assumes "steps step s (es @ fs) s''"
  obtains s' where "steps step s es s'" and "steps step s' fs s''"
  using assms by (induction es arbitrary: s thesis) auto

locale step_invariant =
  fixes step :: "'s \<Rightarrow> 'e \<Rightarrow> 's \<Rightarrow> bool"
    and inv :: "'s \<Rightarrow> bool"
  assumes inv_step: "inv s \<Longrightarrow> step s e s' \<Longrightarrow> inv s'"
begin

lemma inv_steps: "steps step s es s' \<Longrightarrow> inv s \<Longrightarrow> inv s'"
  by (induction rule: steps.induct) (auto intro: inv_step)

end

locale step_preorder = step_invariant +
  fixes advances :: "'a \<Rightarrow> 'a \<Rightarrow> bool"
  assumes advances_refl: "advances s s"
    and advances_trans: "advances s s' \<Longrightarrow> advances s' s'' \<Longrightarrow> advances s s''"
    and advances_step: "inv s \<Longrightarrow> step s e s' \<Longrightarrow> advances s s'"
begin

lemma advances_steps: "steps step s es s' \<Longrightarrow> inv s \<Longrightarrow> advances s s'"
  by (induction rule: steps.induct) (blast intro: advances_refl advances_trans advances_step inv_step)+

end

end
