(* ===== verification/Identity.thy ===== *)
theory Identity
  imports Prelude
begin

text \<open>
  \<^verbatim>\<open>include/execution_fabric/identity.hpp\<close>, \<^verbatim>\<open>src/identity.cpp\<close> and
  \<^verbatim>\<open>include/execution_fabric/generation.hpp\<close>: UUIDs, the strongly typed identities
  \<^verbatim>\<open>Id<Tag>\<close>, and the saturating generation counters \<^verbatim>\<open>Gen<Tag>\<close>. The tag of a
  template is a phantom type parameter, so an \<open>AttemptId\<close> cannot stand where a \<open>WorkerId\<close> is
  required, exactly as in the C++.
\<close>

section \<open>Uuid\<close>

datatype uuid = Uuid (uuid_bytes: "16 byte_array")

definition uuid_nil :: uuid where
  "uuid_nil = Uuid (to_array [])"

definition uuid_from_bytes :: "16 byte_array \<Rightarrow> uuid" where
  "uuid_from_bytes b = Uuid b"

definition uuid_is_zero :: "uuid \<Rightarrow> bool" where
  "uuid_is_zero u \<longleftrightarrow> list_all (\<lambda>b. b = 0) (array_bytes (uuid_bytes u))"

text \<open>\<^verbatim>\<open>operator<\<close>: lexicographic on the bytes.\<close>

instantiation uuid :: linorder
begin

definition less_eq_uuid :: "uuid \<Rightarrow> uuid \<Rightarrow> bool" where
  "less_eq_uuid u v \<longleftrightarrow> uuid_bytes u \<le> uuid_bytes v"

definition less_uuid :: "uuid \<Rightarrow> uuid \<Rightarrow> bool" where
  "less_uuid u v \<longleftrightarrow> uuid_bytes u < uuid_bytes v"

instance
  by standard (auto simp: less_eq_uuid_def less_uuid_def uuid.expand less_le_not_le)

end

text \<open>
  \<^verbatim>\<open>Uuid::random\<close>: two draws of the thread-local \<^verbatim>\<open>std::mt19937_64\<close> fill the sixteen
  bytes little-endian, then the version and variant bits are forced. The draws are the argument:
  the generator is seeded from \<^verbatim>\<open>std::random_device\<close>, so any pair of words can come.
\<close>

type_synonym draws = "u64 \<times> u64"

definition le_bytes :: "u64 \<Rightarrow> u8 list" where
  "le_bytes v = map (\<lambda>i. ucast (drop_bit (8 * i) v)) [0..<8]"

definition uuid_random :: "draws \<Rightarrow> uuid" where
  "uuid_random d =
     (let b = le_bytes (fst d) @ le_bytes (snd d);
          b = b[6 := (b ! 6 AND 0x0F) OR 0x40];
          b = b[8 := (b ! 8 AND 0x3F) OR 0x80]
      in uuid_from_bytes (to_array b))"

subsection \<open>Printing and parsing\<close>

definition hex_digits :: string where
  "hex_digits = ''0123456789abcdef''"

definition hex_pair :: "u8 \<Rightarrow> string" where
  "hex_pair b = [hex_digits ! unat (drop_bit 4 b), hex_digits ! unat (b AND 0x0F)]"

definition uuid_to_string :: "uuid \<Rightarrow> string" where
  "uuid_to_string u =
     concat (map (\<lambda>i. (if i = 4 \<or> i = 6 \<or> i = 8 \<or> i = 10 then ''-'' else [])
                      @ hex_pair (array_bytes (uuid_bytes u) ! i)) [0..<16])"

text \<open>
  The value of a hexadecimal digit as the parser computes it; \<open>None\<close> where it returns
  \<^verbatim>\<open>std::nullopt\<close>.
\<close>

definition hex_value :: "char \<Rightarrow> nat option" where
  "hex_value c =
     (let v = (of_char c :: nat) in
      if 48 \<le> v \<and> v \<le> 57 then Some (v - 48)
      else if 97 \<le> v \<and> v \<le> 102 then Some (v - 97 + 10)
      else if 65 \<le> v \<and> v \<le> 70 then Some (v - 65 + 10)
      else None)"

text \<open>The loop of \<^verbatim>\<open>Uuid::parse\<close>: \<open>b\<close> is the byte array so far, \<open>n\<close> the digits consumed.\<close>

fun uuid_parse_loop :: "u8 list \<Rightarrow> nat \<Rightarrow> string \<Rightarrow> uuid option" where
  "uuid_parse_loop b n [] = (if n \<noteq> 32 then None else Some (uuid_from_bytes (to_array b)))"
| "uuid_parse_loop b n (c # s) =
     (if c = CHR ''-'' then uuid_parse_loop b n s
      else case hex_value c of
        None \<Rightarrow> None
      | Some v \<Rightarrow>
          (if n \<ge> 32 then None
           else if even n then uuid_parse_loop (b[n div 2 := push_bit 4 (of_nat v)]) (Suc n) s
           else uuid_parse_loop (b[n div 2 := (b ! (n div 2)) OR (of_nat v AND 0x0F)]) (Suc n) s))"

definition uuid_parse :: "string \<Rightarrow> uuid option" where
  "uuid_parse s = uuid_parse_loop (replicate 16 0) 0 s"

section \<open>Typed identities\<close>

datatype 'tag ident = Id (id_value: uuid)

datatype ExecutionIdTag = ExecutionIdTag
datatype AttemptIdTag = AttemptIdTag
datatype WorkerIdTag = WorkerIdTag
datatype WorkerBootIdTag = WorkerBootIdTag
datatype DispatchIdTag = DispatchIdTag

type_synonym ExecutionId = "ExecutionIdTag ident"
type_synonym AttemptId = "AttemptIdTag ident"
type_synonym WorkerId = "WorkerIdTag ident"
type_synonym WorkerBootId = "WorkerBootIdTag ident"
type_synonym DispatchId = "DispatchIdTag ident"

definition id_nil :: "'tag ident" where
  "id_nil = Id uuid_nil"

definition id_is_nil :: "'tag ident \<Rightarrow> bool" where
  "id_is_nil i \<longleftrightarrow> uuid_is_zero (id_value i)"

definition id_random :: "draws \<Rightarrow> 'tag ident" where
  "id_random d = Id (uuid_random d)"

definition id_to_string :: "'tag ident \<Rightarrow> string" where
  "id_to_string i = uuid_to_string (id_value i)"

instantiation ident :: (type) linorder
begin

definition less_eq_ident :: "'a ident \<Rightarrow> 'a ident \<Rightarrow> bool" where
  "less_eq_ident a b \<longleftrightarrow> id_value a \<le> id_value b"

definition less_ident :: "'a ident \<Rightarrow> 'a ident \<Rightarrow> bool" where
  "less_ident a b \<longleftrightarrow> id_value a < id_value b"

instance
  by standard (auto simp: less_eq_ident_def less_ident_def ident.expand less_le_not_le)

end

section \<open>Generations\<close>

datatype 'tag gen = Gen (gen_value: u64)

datatype ExecutionGenTag = ExecutionGenTag
datatype AttemptGenTag = AttemptGenTag
datatype DispatchGenTag = DispatchGenTag
datatype OwnershipGenTag = OwnershipGenTag
datatype FenceGenTag = FenceGenTag
datatype CancellationGenTag = CancellationGenTag
datatype PreemptionGenTag = PreemptionGenTag
datatype ResumeGenTag = ResumeGenTag
datatype CompletionGenTag = CompletionGenTag
datatype CommitGenTag = CommitGenTag
datatype CoordinatorEpochTag = CoordinatorEpochTag

type_synonym ExecutionGeneration = "ExecutionGenTag gen"
type_synonym AttemptGeneration = "AttemptGenTag gen"
type_synonym DispatchGeneration = "DispatchGenTag gen"
type_synonym OwnershipGeneration = "OwnershipGenTag gen"
type_synonym FenceGeneration = "FenceGenTag gen"
type_synonym CancellationGeneration = "CancellationGenTag gen"
type_synonym PreemptionGeneration = "PreemptionGenTag gen"
type_synonym ResumeGeneration = "ResumeGenTag gen"
type_synonym CompletionGeneration = "CompletionGenTag gen"
type_synonym CommitGeneration = "CommitGenTag gen"
type_synonym CoordinatorEpoch = "CoordinatorEpochTag gen"

definition gen_is_set :: "'tag gen \<Rightarrow> bool" where
  "gen_is_set g \<longleftrightarrow> gen_value g \<noteq> 0"

definition gen_max :: "'tag gen" where
  "gen_max = Gen (- 1)"

definition gen_next :: "'tag gen \<Rightarrow> 'tag gen" where
  "gen_next g = (if gen_value g = - 1 then g else Gen (gen_value g + 1))"

text \<open>\<^verbatim>\<open>while (n-- != 0) { g = g.next(); }\<close>; the counter is read as its unsigned value.\<close>

definition gen_advance :: "u64 \<Rightarrow> 'tag gen \<Rightarrow> 'tag gen" where
  "gen_advance n g = (gen_next ^^ unat n) g"

instantiation gen :: (type) linorder
begin

definition less_eq_gen :: "'a gen \<Rightarrow> 'a gen \<Rightarrow> bool" where
  "less_eq_gen a b \<longleftrightarrow> gen_value a \<le> gen_value b"

definition less_gen :: "'a gen \<Rightarrow> 'a gen \<Rightarrow> bool" where
  "less_gen a b \<longleftrightarrow> gen_value a < gen_value b"

instance
  by standard (auto simp: less_eq_gen_def less_gen_def gen.expand less_le_not_le)

end

section \<open>Facts on generations\<close>

lemma unat_max_u64 [simp]: "unat (- 1 :: u64) = 18446744073709551615"
  by (simp add: unsigned_minus_1_eq_mask mask_eq_exp_minus_1)

lemma unat_u64_le: "unat (v :: u64) \<le> 18446744073709551615"
proof -
  have "unat v < 2 ^ LENGTH(64)" by (rule unsigned_less)
  then show ?thesis by simp
qed

lemma unat_gen_next: "unat (gen_value (gen_next g)) = min (Suc (unat (gen_value g))) 18446744073709551615"
proof (cases "gen_value g = - 1")
  case True
  then show ?thesis by (simp add: gen_next_def)
next
  case False
  then have "unat (gen_value g) \<noteq> unat (- 1 :: u64)"
    by (simp only: word_unat_eq_iff not_False_eq_True)
  then have "unat (gen_value g) < 18446744073709551615"
    using unat_u64_le [of "gen_value g"] by simp
  then show ?thesis using False
    by (simp add: gen_next_def unat_word_ariths)
qed

lemma gen_eq_iff_unat: "g = h \<longleftrightarrow> unat (gen_value g) = unat (gen_value h)"
  by (auto simp: gen.expand intro: gen.expand dest: word_unat_eq_iff [THEN iffD2])

lemma gen_le_iff_unat: "g \<le> h \<longleftrightarrow> unat (gen_value g) \<le> unat (gen_value h)"
  by (simp add: less_eq_gen_def word_le_nat_alt)

lemma gen_less_iff_unat: "g < h \<longleftrightarrow> unat (gen_value g) < unat (gen_value h)"
  by (simp add: less_gen_def word_less_nat_alt)

lemma gen_le_next [simp]: "g \<le> gen_next g"
  using unat_u64_le [of "gen_value g"] by (auto simp: gen_le_iff_unat unat_gen_next min_def)

lemma gen_next_strict: "g \<noteq> gen_max \<Longrightarrow> g < gen_next g"
  using unat_u64_le [of "gen_value g"]
  by (auto simp: gen_less_iff_unat unat_gen_next gen_max_def gen_eq_iff_unat min_def)

lemma gen_next_set [simp]: "gen_is_set (gen_next g)"
  using unat_gen_next [of g] by (auto simp: gen_is_set_def unat_eq_zero)

lemma unat_gen_advance:
  "unat (gen_value (gen_advance n g)) = min (unat (gen_value g) + unat n) 18446744073709551615"
proof -
  have "unat (gen_value ((gen_next ^^ k) g)) = min (unat (gen_value g) + k) 18446744073709551615" for k
    using unat_u64_le [of "gen_value g"] by (induction k) (auto simp: unat_gen_next min_def)
  then show ?thesis by (simp add: gen_advance_def)
qed

section \<open>Facts on identifiers\<close>

lemma hex_value_digit: "n < 16 \<Longrightarrow> hex_value (hex_digits ! n) = Some n"
proof -
  have "list_all (\<lambda>n. hex_value (hex_digits ! n) = Some n) [0..<16]" by code_simp
  then show "n < 16 \<Longrightarrow> hex_value (hex_digits ! n) = Some n" by (simp add: list_all_iff)
qed

lemma hex_value_dash: "hex_value (CHR ''-'') = None"
  by code_simp

lemma hex_digit_not_dash: "n < 16 \<Longrightarrow> hex_digits ! n \<noteq> CHR ''-''"
  using hex_value_digit [of n] hex_value_dash by auto

lemma low_nibble_take_bit: "(b :: u8) AND 0x0F = take_bit 4 b"
  by (simp add: take_bit_eq_mask mask_eq_exp_minus_1)

lemma unat_nibble: "unat (drop_bit 4 (b :: u8)) < 16" "unat (b AND 0x0F) < 16"
proof -
  have b: "unat b < 2 ^ LENGTH(8)" by (rule unsigned_less)
  then have "take_bit 8 (unat b) = unat b" by (simp add: take_bit_nat_eq_self_iff)
  then show "unat (drop_bit 4 b) < 16" using b
    by (simp add: unsigned_drop_bit_eq drop_bit_eq_div [of 4 "unat b"])
  show "unat (b AND 0x0F) < 16"
    by (simp add: low_nibble_take_bit unsigned_take_bit_eq take_bit_eq_mod [of 4 "unat b"])
qed

lemma nibbles_join: "push_bit 4 (drop_bit 4 (b :: u8)) OR (b AND 0x0F) = b"
  unfolding low_nibble_take_bit by (rule bit_word_eqI) (auto simp: bit_simps)

lemma parse_hex_pair:
  assumes "i < 16" "length bs = 16"
  shows "uuid_parse_loop bs (2 * i) (hex_pair b @ s) = uuid_parse_loop (bs[i := b]) (2 * Suc i) s"
proof -
  have [simp]: "i < length bs" "\<not> 32 \<le> 2 * i" "\<not> 31 \<le> 2 * i" using assms by simp_all
  show ?thesis
    using nibbles_join [of b] unat_nibble [of b]
    by (simp add: hex_pair_def hex_value_digit hex_digit_not_dash)
qed

lemma parse_bytes_from:
  assumes "length xs = 16" and "k \<le> 16" and "length bs = 16" and "take k bs = take k xs"
  shows "uuid_parse_loop bs (2 * k)
           (concat (map (\<lambda>i. (if i = 4 \<or> i = 6 \<or> i = 8 \<or> i = 10 then ''-'' else []) @ hex_pair (xs ! i)) [k..<16]))
         = Some (Uuid (to_array xs))"
  using assms(2-)
proof (induction "16 - k" arbitrary: k bs)
  case 0
  then have "k = 16" and "bs = xs" using assms(1) by simp_all
  then show ?case by (simp add: uuid_from_bytes_def)
next
  case (Suc d)
  then have k: "k < 16" by simp
  let ?bs = "bs[k := xs ! k]"
  have "take (Suc k) ?bs = take (Suc k) xs"
    using k Suc.prems assms(1) by (simp add: take_Suc_conv_app_nth)
  then have "uuid_parse_loop ?bs (2 * Suc k)
      (concat (map (\<lambda>i. (if i = 4 \<or> i = 6 \<or> i = 8 \<or> i = 10 then ''-'' else []) @ hex_pair (xs ! i)) [Suc k..<16]))
      = Some (Uuid (to_array xs))"
    using Suc.hyps(1) [of "Suc k" ?bs] Suc.hyps(2) Suc.prems k by simp
  then show ?case
    using k Suc.prems by (simp add: upt_conv_Cons parse_hex_pair)
qed

lemma uuid_parse_to_string [simp]: "uuid_parse (uuid_to_string u) = Some u"
  using parse_bytes_from [of "array_bytes (uuid_bytes u)" 0 "replicate 16 0"]
  by (simp add: uuid_parse_def uuid_to_string_def)

lemma length_le_bytes [simp]: "length (le_bytes v) = 8"
  by (simp add: le_bytes_def)

lemma or_nonzero: "(c :: u8) \<noteq> 0 \<Longrightarrow> b OR c \<noteq> 0"
  by (simp add: or_eq_0_iff)

lemma uuid_random_not_nil [simp]: "\<not> id_is_nil (id_random d)"
proof -
  let ?b = "le_bytes (fst d) @ le_bytes (snd d)"
  let ?b1 = "?b[6 := (?b ! 6 AND 0x0F) OR 0x40]"
  let ?b2 = "?b1[8 := (?b1 ! 8 AND 0x3F) OR 0x80]"
  have "?b2 ! 6 = (?b ! 6 AND 0x0F) OR 0x40" by simp
  then have "?b2 ! 6 \<noteq> 0" using or_nonzero [of "0x40" "?b ! 6 AND 0x0F"] by simp
  moreover have "?b2 ! 6 \<in> set ?b2" by (rule nth_mem) simp
  ultimately have "\<not> list_all (\<lambda>b. b = 0) ?b2" by (auto simp: list_all_iff)
  then show ?thesis
    by (simp add: id_is_nil_def id_random_def uuid_random_def uuid_is_zero_def uuid_from_bytes_def
        Let_def array_bytes_to_array)
qed

end
