(* ===== verification/States.thy ===== *)
theory States
  imports Prelude "HOL-Library.Transitive_Closure_Table"
begin

text \<open>
  \<^verbatim>\<open>include/execution_fabric/state.hpp\<close>, \<^verbatim>\<open>include/execution_fabric/state_machine.hpp\<close>
  and \<^verbatim>\<open>src/state.cpp\<close>: the lifecycle states of a logical execution and of a physical
  attempt, their wire codes and names, and the guarded transition tables. The constructors keep
  the C++ names and are written with their type in front, as \<^verbatim>\<open>ExecutionState::READY\<close> is.
\<close>

section \<open>States\<close>

datatype ExecutionState =
    CREATED | READY | DISPATCHED | RUNNING | CANCELLATION_REQUESTED | PREEMPTION_REQUESTED
  | PREEMPTED | RESUMABLE | RESUMING | COMPLETION_PENDING | COMPLETED | COMMITTED | FAILED
  | CANCELLED | AMBIGUOUS | SUPERSEDED | TERMINAL

datatype AttemptState =
    CREATED | DISPATCHED | RUNNING | PREEMPTED | COMPLETE_PENDING | COMPLETED | FAILED
  | CANCELLED | LOST | SUPERSEDED | TERMINAL

text \<open>The enumerators in declaration order; the underlying value is the position.\<close>

definition ExecutionState_list :: "ExecutionState list" where
  "ExecutionState_list =
     [ExecutionState.CREATED, READY, ExecutionState.DISPATCHED, ExecutionState.RUNNING,
      CANCELLATION_REQUESTED, PREEMPTION_REQUESTED, ExecutionState.PREEMPTED, RESUMABLE, RESUMING,
      COMPLETION_PENDING, ExecutionState.COMPLETED, COMMITTED, ExecutionState.FAILED,
      ExecutionState.CANCELLED, AMBIGUOUS, ExecutionState.SUPERSEDED, ExecutionState.TERMINAL]"

fun ExecutionState_value :: "ExecutionState \<Rightarrow> u8" where
  "ExecutionState_value ExecutionState.CREATED = 0"
| "ExecutionState_value READY = 1"
| "ExecutionState_value ExecutionState.DISPATCHED = 2"
| "ExecutionState_value ExecutionState.RUNNING = 3"
| "ExecutionState_value CANCELLATION_REQUESTED = 4"
| "ExecutionState_value PREEMPTION_REQUESTED = 5"
| "ExecutionState_value ExecutionState.PREEMPTED = 6"
| "ExecutionState_value RESUMABLE = 7"
| "ExecutionState_value RESUMING = 8"
| "ExecutionState_value COMPLETION_PENDING = 9"
| "ExecutionState_value ExecutionState.COMPLETED = 10"
| "ExecutionState_value COMMITTED = 11"
| "ExecutionState_value ExecutionState.FAILED = 12"
| "ExecutionState_value ExecutionState.CANCELLED = 13"
| "ExecutionState_value AMBIGUOUS = 14"
| "ExecutionState_value ExecutionState.SUPERSEDED = 15"
| "ExecutionState_value ExecutionState.TERMINAL = 16"

definition AttemptState_list :: "AttemptState list" where
  "AttemptState_list =
     [AttemptState.CREATED, AttemptState.DISPATCHED, AttemptState.RUNNING, AttemptState.PREEMPTED,
      COMPLETE_PENDING, AttemptState.COMPLETED, AttemptState.FAILED, AttemptState.CANCELLED, LOST,
      AttemptState.SUPERSEDED, AttemptState.TERMINAL]"

fun AttemptState_value :: "AttemptState \<Rightarrow> u8" where
  "AttemptState_value AttemptState.CREATED = 0"
| "AttemptState_value AttemptState.DISPATCHED = 1"
| "AttemptState_value AttemptState.RUNNING = 2"
| "AttemptState_value AttemptState.PREEMPTED = 3"
| "AttemptState_value COMPLETE_PENDING = 4"
| "AttemptState_value AttemptState.COMPLETED = 5"
| "AttemptState_value AttemptState.FAILED = 6"
| "AttemptState_value AttemptState.CANCELLED = 7"
| "AttemptState_value LOST = 8"
| "AttemptState_value AttemptState.SUPERSEDED = 9"
| "AttemptState_value AttemptState.TERMINAL = 10"

text \<open>
  \<^verbatim>\<open>static_cast<ExecutionState>(v)\<close> of a byte that has been range-checked; the callers check
  \<^verbatim>\<open>v <= TERMINAL\<close> first, so a value outside the enumeration is \<open>None\<close> here.
\<close>

definition ExecutionState_of :: "u8 \<Rightarrow> ExecutionState option" where
  "ExecutionState_of v = (if unat v < 17 then Some (ExecutionState_list ! unat v) else None)"

definition AttemptState_of :: "u8 \<Rightarrow> AttemptState option" where
  "AttemptState_of v = (if unat v < 11 then Some (AttemptState_list ! unat v) else None)"

fun ExecutionState_to_string :: "ExecutionState \<Rightarrow> string" where
  "ExecutionState_to_string ExecutionState.CREATED = ''CREATED''"
| "ExecutionState_to_string READY = ''READY''"
| "ExecutionState_to_string ExecutionState.DISPATCHED = ''DISPATCHED''"
| "ExecutionState_to_string ExecutionState.RUNNING = ''RUNNING''"
| "ExecutionState_to_string CANCELLATION_REQUESTED = ''CANCELLATION_REQUESTED''"
| "ExecutionState_to_string PREEMPTION_REQUESTED = ''PREEMPTION_REQUESTED''"
| "ExecutionState_to_string ExecutionState.PREEMPTED = ''PREEMPTED''"
| "ExecutionState_to_string RESUMABLE = ''RESUMABLE''"
| "ExecutionState_to_string RESUMING = ''RESUMING''"
| "ExecutionState_to_string COMPLETION_PENDING = ''COMPLETION_PENDING''"
| "ExecutionState_to_string ExecutionState.COMPLETED = ''COMPLETED''"
| "ExecutionState_to_string COMMITTED = ''COMMITTED''"
| "ExecutionState_to_string ExecutionState.FAILED = ''FAILED''"
| "ExecutionState_to_string ExecutionState.CANCELLED = ''CANCELLED''"
| "ExecutionState_to_string AMBIGUOUS = ''AMBIGUOUS''"
| "ExecutionState_to_string ExecutionState.SUPERSEDED = ''SUPERSEDED''"
| "ExecutionState_to_string ExecutionState.TERMINAL = ''TERMINAL''"

fun AttemptState_to_string :: "AttemptState \<Rightarrow> string" where
  "AttemptState_to_string AttemptState.CREATED = ''CREATED''"
| "AttemptState_to_string AttemptState.DISPATCHED = ''DISPATCHED''"
| "AttemptState_to_string AttemptState.RUNNING = ''RUNNING''"
| "AttemptState_to_string AttemptState.PREEMPTED = ''PREEMPTED''"
| "AttemptState_to_string COMPLETE_PENDING = ''COMPLETE_PENDING''"
| "AttemptState_to_string AttemptState.COMPLETED = ''COMPLETED''"
| "AttemptState_to_string AttemptState.FAILED = ''FAILED''"
| "AttemptState_to_string AttemptState.CANCELLED = ''CANCELLED''"
| "AttemptState_to_string LOST = ''LOST''"
| "AttemptState_to_string AttemptState.SUPERSEDED = ''SUPERSEDED''"
| "AttemptState_to_string AttemptState.TERMINAL = ''TERMINAL''"

section \<open>Transition tables\<close>

fun ExecutionStateMachine_from :: "ExecutionState \<Rightarrow> ExecutionState \<Rightarrow> bool" where
  "ExecutionStateMachine_from ExecutionState.CREATED to =
     (to = READY \<or> to = ExecutionState.CANCELLED \<or> to = ExecutionState.FAILED
      \<or> to = ExecutionState.TERMINAL)"
| "ExecutionStateMachine_from READY to =
     (to = ExecutionState.DISPATCHED \<or> to = CANCELLATION_REQUESTED
      \<or> to = ExecutionState.CANCELLED \<or> to = ExecutionState.FAILED
      \<or> to = ExecutionState.SUPERSEDED \<or> to = ExecutionState.TERMINAL)"
| "ExecutionStateMachine_from ExecutionState.DISPATCHED to =
     (to = ExecutionState.DISPATCHED \<or> to = READY
      \<or> to = ExecutionState.RUNNING \<or> to = ExecutionState.COMPLETED
      \<or> to = COMPLETION_PENDING \<or> to = CANCELLATION_REQUESTED
      \<or> to = PREEMPTION_REQUESTED \<or> to = ExecutionState.CANCELLED
      \<or> to = ExecutionState.FAILED \<or> to = AMBIGUOUS
      \<or> to = ExecutionState.SUPERSEDED \<or> to = ExecutionState.TERMINAL)"
| "ExecutionStateMachine_from ExecutionState.RUNNING to =
     (to = ExecutionState.DISPATCHED \<or> to = ExecutionState.COMPLETED
      \<or> to = COMPLETION_PENDING \<or> to = CANCELLATION_REQUESTED
      \<or> to = PREEMPTION_REQUESTED \<or> to = ExecutionState.PREEMPTED
      \<or> to = ExecutionState.FAILED \<or> to = ExecutionState.CANCELLED
      \<or> to = AMBIGUOUS \<or> to = ExecutionState.SUPERSEDED
      \<or> to = ExecutionState.TERMINAL)"
| "ExecutionStateMachine_from CANCELLATION_REQUESTED to =
     (to = ExecutionState.CANCELLED \<or> to = ExecutionState.COMPLETED
      \<or> to = COMPLETION_PENDING \<or> to = ExecutionState.FAILED
      \<or> to = AMBIGUOUS \<or> to = ExecutionState.TERMINAL)"
| "ExecutionStateMachine_from PREEMPTION_REQUESTED to =
     (to = ExecutionState.PREEMPTED \<or> to = ExecutionState.COMPLETED
      \<or> to = ExecutionState.FAILED \<or> to = ExecutionState.CANCELLED
      \<or> to = AMBIGUOUS \<or> to = ExecutionState.TERMINAL)"
| "ExecutionStateMachine_from ExecutionState.PREEMPTED to =
     (to = RESUMABLE \<or> to = ExecutionState.FAILED
      \<or> to = ExecutionState.CANCELLED \<or> to = ExecutionState.TERMINAL)"
| "ExecutionStateMachine_from RESUMABLE to =
     (to = RESUMING \<or> to = ExecutionState.CANCELLED
      \<or> to = ExecutionState.FAILED \<or> to = ExecutionState.TERMINAL)"
| "ExecutionStateMachine_from RESUMING to =
     (to = ExecutionState.RUNNING \<or> to = ExecutionState.FAILED
      \<or> to = ExecutionState.CANCELLED \<or> to = AMBIGUOUS
      \<or> to = ExecutionState.TERMINAL)"
| "ExecutionStateMachine_from COMPLETION_PENDING to =
     (to = ExecutionState.COMPLETED \<or> to = ExecutionState.FAILED
      \<or> to = AMBIGUOUS \<or> to = ExecutionState.TERMINAL)"
| "ExecutionStateMachine_from ExecutionState.COMPLETED to =
     (to = COMMITTED \<or> to = ExecutionState.FAILED
      \<or> to = AMBIGUOUS \<or> to = ExecutionState.TERMINAL)"
| "ExecutionStateMachine_from AMBIGUOUS to =
     (to = ExecutionState.COMPLETED \<or> to = ExecutionState.DISPATCHED
      \<or> to = ExecutionState.FAILED \<or> to = ExecutionState.CANCELLED
      \<or> to = ExecutionState.SUPERSEDED \<or> to = ExecutionState.TERMINAL)"
| "ExecutionStateMachine_from COMMITTED to = False"
| "ExecutionStateMachine_from ExecutionState.FAILED to = False"
| "ExecutionStateMachine_from ExecutionState.CANCELLED to = False"
| "ExecutionStateMachine_from ExecutionState.SUPERSEDED to = False"
| "ExecutionStateMachine_from ExecutionState.TERMINAL to = False"

definition ExecutionStateMachine_is_terminal :: "ExecutionState \<Rightarrow> bool" where
  "ExecutionStateMachine_is_terminal s \<longleftrightarrow>
     s = COMMITTED \<or> s = ExecutionState.FAILED \<or> s = ExecutionState.CANCELLED
     \<or> s = ExecutionState.SUPERSEDED \<or> s = ExecutionState.TERMINAL"

fun AttemptStateMachine_from :: "AttemptState \<Rightarrow> AttemptState \<Rightarrow> bool" where
  "AttemptStateMachine_from AttemptState.CREATED to =
     (to = AttemptState.DISPATCHED \<or> to = AttemptState.CANCELLED
      \<or> to = AttemptState.FAILED \<or> to = AttemptState.TERMINAL)"
| "AttemptStateMachine_from AttemptState.DISPATCHED to =
     (to = AttemptState.RUNNING \<or> to = COMPLETE_PENDING
      \<or> to = AttemptState.COMPLETED \<or> to = AttemptState.FAILED
      \<or> to = AttemptState.CANCELLED \<or> to = LOST
      \<or> to = AttemptState.SUPERSEDED \<or> to = AttemptState.TERMINAL)"
| "AttemptStateMachine_from AttemptState.RUNNING to =
     (to = COMPLETE_PENDING \<or> to = AttemptState.COMPLETED
      \<or> to = AttemptState.FAILED \<or> to = AttemptState.CANCELLED
      \<or> to = AttemptState.PREEMPTED \<or> to = LOST
      \<or> to = AttemptState.SUPERSEDED \<or> to = AttemptState.TERMINAL)"
| "AttemptStateMachine_from AttemptState.PREEMPTED to =
     (to = AttemptState.SUPERSEDED \<or> to = AttemptState.TERMINAL)"
| "AttemptStateMachine_from COMPLETE_PENDING to =
     (to = AttemptState.COMPLETED \<or> to = AttemptState.FAILED
      \<or> to = LOST \<or> to = AttemptState.TERMINAL)"
| "AttemptStateMachine_from AttemptState.COMPLETED to = (to = AttemptState.TERMINAL)"
| "AttemptStateMachine_from AttemptState.FAILED to = False"
| "AttemptStateMachine_from AttemptState.CANCELLED to = False"
| "AttemptStateMachine_from LOST to = False"
| "AttemptStateMachine_from AttemptState.SUPERSEDED to = False"
| "AttemptStateMachine_from AttemptState.TERMINAL to = False"

definition AttemptStateMachine_is_terminal :: "AttemptState \<Rightarrow> bool" where
  "AttemptStateMachine_is_terminal s \<longleftrightarrow>
     s = AttemptState.FAILED \<or> s = AttemptState.CANCELLED \<or> s = LOST
     \<or> s = AttemptState.SUPERSEDED \<or> s = AttemptState.TERMINAL"

section \<open>Guarded lifecycles\<close>

text \<open>
  What both tables promise their clients: no way out of a terminal state. From that law alone a
  terminal state is absorbing along every sequence of permitted transitions, and an update that
  is guarded by the table never moves a terminal state.
\<close>

locale guarded_lifecycle =
  fixes permitted :: "'s \<Rightarrow> 's \<Rightarrow> bool"
    and terminal :: "'s \<Rightarrow> bool"
  assumes terminal_no_exit: "terminal s \<Longrightarrow> \<not> permitted s t"
begin

lemma terminal_absorbing: "permitted\<^sup>*\<^sup>* s t \<Longrightarrow> terminal s \<Longrightarrow> t = s"
  by (induction rule: converse_rtranclp_induct) (auto dest: terminal_no_exit)

lemma path_to_terminal_is_maximal:
  assumes "permitted\<^sup>*\<^sup>* s t" and "terminal t" and "permitted\<^sup>*\<^sup>* t u"
  shows "u = t"
  using assms(3,2) by (rule terminal_absorbing)

end

interpretation execution_lifecycle:
  guarded_lifecycle ExecutionStateMachine_from ExecutionStateMachine_is_terminal
  by unfold_locales (auto simp: ExecutionStateMachine_is_terminal_def)

interpretation attempt_lifecycle:
  guarded_lifecycle AttemptStateMachine_from AttemptStateMachine_is_terminal
  by unfold_locales (auto simp: AttemptStateMachine_is_terminal_def)

section \<open>Facts on the tables\<close>

lemma ExecutionState_in_list: "s \<in> set ExecutionState_list"
  by (cases s) (simp_all add: ExecutionState_list_def)

lemma ExecutionState_of_value [simp]: "ExecutionState_of (ExecutionState_value s) = Some s"
  by (cases s) (simp_all add: ExecutionState_of_def ExecutionState_list_def)

lemma AttemptState_of_value [simp]: "AttemptState_of (AttemptState_value s) = Some s"
  by (cases s) (simp_all add: AttemptState_of_def AttemptState_list_def)

lemma execution_exit_unless_terminal:
  "\<not> ExecutionStateMachine_is_terminal s \<Longrightarrow> ExecutionStateMachine_from s ExecutionState.TERMINAL"
  by (cases s) (simp_all add: ExecutionStateMachine_is_terminal_def)

end
