(* ===== verification/Decision.thy ===== *)
theory Decision
  imports Identity States
begin

text \<open>
  \<^verbatim>\<open>include/execution_fabric/decision.hpp\<close>, \<^verbatim>\<open>src/decision.cpp\<close>,
  \<^verbatim>\<open>include/execution_fabric/digest.hpp\<close>, \<^verbatim>\<open>include/execution_fabric/record.hpp\<close> and
  \<^verbatim>\<open>include/execution_fabric/authority.hpp\<close>: decisions, result digests, the durable records
  of executions and attempts, and the authority tickets. A C++ struct is a record whose fields
  carry a short prefix, because HOL record selectors are global names; \<open>*_init\<close> is the value of
  a default-constructed struct.
\<close>

section \<open>Result digests\<close>

datatype ResultDigest = ResultDigest (digest_bytes: "32 byte_array")

definition ResultDigest_nil :: ResultDigest where
  "ResultDigest_nil = ResultDigest (to_array [])"

definition ResultDigest_is_nil :: "ResultDigest \<Rightarrow> bool" where
  "ResultDigest_is_nil d \<longleftrightarrow> list_all (\<lambda>b. b = 0) (array_bytes (digest_bytes d))"

definition ResultDigest_to_hex :: "ResultDigest \<Rightarrow> string" where
  "ResultDigest_to_hex d = concat (map hex_pair (array_bytes (digest_bytes d)))"

section \<open>Decisions\<close>

datatype DecisionCode =
    ALLOW | REJECT_STALE_EPOCH | REJECT_STALE_BOOT | REJECT_STALE_ATTEMPT
  | REJECT_STALE_GENERATION | REJECT_NOT_OWNER | REJECT_ALREADY_TERMINAL | REJECT_CANCELLED
  | REJECT_PREEMPTED | REJECT_CONFLICTING_COMPLETION | REJECT_ALREADY_COMMITTED
  | REJECT_INSUFFICIENT_AUTHORITY | RETRY_ALLOWED | RESUME_ALLOWED | DEFER | UNKNOWN
  | REJECT_EXISTS | REJECT_UNKNOWN_EXECUTION | REJECT_NO_CURRENT_ATTEMPT | RETRY_REJECTED

fun DecisionCode_value :: "DecisionCode \<Rightarrow> u8" where
  "DecisionCode_value ALLOW = 0"
| "DecisionCode_value REJECT_STALE_EPOCH = 1"
| "DecisionCode_value REJECT_STALE_BOOT = 2"
| "DecisionCode_value REJECT_STALE_ATTEMPT = 3"
| "DecisionCode_value REJECT_STALE_GENERATION = 4"
| "DecisionCode_value REJECT_NOT_OWNER = 5"
| "DecisionCode_value REJECT_ALREADY_TERMINAL = 6"
| "DecisionCode_value REJECT_CANCELLED = 7"
| "DecisionCode_value REJECT_PREEMPTED = 8"
| "DecisionCode_value REJECT_CONFLICTING_COMPLETION = 9"
| "DecisionCode_value REJECT_ALREADY_COMMITTED = 10"
| "DecisionCode_value REJECT_INSUFFICIENT_AUTHORITY = 11"
| "DecisionCode_value RETRY_ALLOWED = 12"
| "DecisionCode_value RESUME_ALLOWED = 13"
| "DecisionCode_value DEFER = 14"
| "DecisionCode_value UNKNOWN = 15"
| "DecisionCode_value REJECT_EXISTS = 16"
| "DecisionCode_value REJECT_UNKNOWN_EXECUTION = 17"
| "DecisionCode_value REJECT_NO_CURRENT_ATTEMPT = 18"
| "DecisionCode_value RETRY_REJECTED = 19"

definition DecisionCode_list :: "DecisionCode list" where
  "DecisionCode_list =
     [ALLOW, REJECT_STALE_EPOCH, REJECT_STALE_BOOT, REJECT_STALE_ATTEMPT,
      REJECT_STALE_GENERATION, REJECT_NOT_OWNER, REJECT_ALREADY_TERMINAL, REJECT_CANCELLED,
      REJECT_PREEMPTED, REJECT_CONFLICTING_COMPLETION, REJECT_ALREADY_COMMITTED,
      REJECT_INSUFFICIENT_AUTHORITY, RETRY_ALLOWED, RESUME_ALLOWED, DEFER, UNKNOWN,
      REJECT_EXISTS, REJECT_UNKNOWN_EXECUTION, REJECT_NO_CURRENT_ATTEMPT, RETRY_REJECTED]"

definition DecisionCode_of :: "u8 \<Rightarrow> DecisionCode option" where
  "DecisionCode_of v = (if unat v < 20 then Some (DecisionCode_list ! unat v) else None)"

fun DecisionCode_to_string :: "DecisionCode \<Rightarrow> string" where
  "DecisionCode_to_string ALLOW = ''ALLOW''"
| "DecisionCode_to_string REJECT_STALE_EPOCH = ''REJECT_STALE_EPOCH''"
| "DecisionCode_to_string REJECT_STALE_BOOT = ''REJECT_STALE_BOOT''"
| "DecisionCode_to_string REJECT_STALE_ATTEMPT = ''REJECT_STALE_ATTEMPT''"
| "DecisionCode_to_string REJECT_STALE_GENERATION = ''REJECT_STALE_GENERATION''"
| "DecisionCode_to_string REJECT_NOT_OWNER = ''REJECT_NOT_OWNER''"
| "DecisionCode_to_string REJECT_ALREADY_TERMINAL = ''REJECT_ALREADY_TERMINAL''"
| "DecisionCode_to_string REJECT_CANCELLED = ''REJECT_CANCELLED''"
| "DecisionCode_to_string REJECT_PREEMPTED = ''REJECT_PREEMPTED''"
| "DecisionCode_to_string REJECT_CONFLICTING_COMPLETION = ''REJECT_CONFLICTING_COMPLETION''"
| "DecisionCode_to_string REJECT_ALREADY_COMMITTED = ''REJECT_ALREADY_COMMITTED''"
| "DecisionCode_to_string REJECT_INSUFFICIENT_AUTHORITY = ''REJECT_INSUFFICIENT_AUTHORITY''"
| "DecisionCode_to_string RETRY_ALLOWED = ''RETRY_ALLOWED''"
| "DecisionCode_to_string RESUME_ALLOWED = ''RESUME_ALLOWED''"
| "DecisionCode_to_string DEFER = ''DEFER''"
| "DecisionCode_to_string UNKNOWN = ''UNKNOWN''"
| "DecisionCode_to_string REJECT_EXISTS = ''REJECT_EXISTS''"
| "DecisionCode_to_string REJECT_UNKNOWN_EXECUTION = ''REJECT_UNKNOWN_EXECUTION''"
| "DecisionCode_to_string REJECT_NO_CURRENT_ATTEMPT = ''REJECT_NO_CURRENT_ATTEMPT''"
| "DecisionCode_to_string RETRY_REJECTED = ''RETRY_REJECTED''"

record Decision =
  code :: DecisionCode
  reason :: string
  d_execution_id :: "ExecutionId option"
  d_execution_generation :: "ExecutionGeneration option"
  d_attempt_id :: "AttemptId option"
  d_attempt_generation :: "AttemptGeneration option"
  d_worker_id :: "WorkerId option"
  d_worker_boot_id :: "WorkerBootId option"
  d_coordinator_epoch :: "CoordinatorEpoch option"
  d_dispatch_id :: "DispatchId option"
  d_dispatch_generation :: "DispatchGeneration option"
  d_ownership_generation :: "OwnershipGeneration option"
  d_fence_generation :: "FenceGeneration option"
  required_authority :: string

definition Decision_init :: Decision where
  "Decision_init =
     \<lparr>code = UNKNOWN, reason = [], d_execution_id = None, d_execution_generation = None,
      d_attempt_id = None, d_attempt_generation = None, d_worker_id = None,
      d_worker_boot_id = None, d_coordinator_epoch = None, d_dispatch_id = None,
      d_dispatch_generation = None, d_ownership_generation = None, d_fence_generation = None,
      required_authority = []\<rparr>"

definition allowed :: "Decision \<Rightarrow> bool" where
  "allowed d \<longleftrightarrow> code d = ALLOW \<or> code d = RETRY_ALLOWED \<or> code d = RESUME_ALLOWED"

definition is_reject :: "Decision \<Rightarrow> bool" where
  "is_reject d \<longleftrightarrow>
     code d = REJECT_STALE_EPOCH \<or> code d = REJECT_STALE_BOOT \<or> code d = REJECT_STALE_ATTEMPT
     \<or> code d = REJECT_STALE_GENERATION \<or> code d = REJECT_NOT_OWNER
     \<or> code d = REJECT_ALREADY_TERMINAL \<or> code d = REJECT_CANCELLED \<or> code d = REJECT_PREEMPTED
     \<or> code d = REJECT_CONFLICTING_COMPLETION \<or> code d = REJECT_ALREADY_COMMITTED
     \<or> code d = REJECT_INSUFFICIENT_AUTHORITY \<or> code d = UNKNOWN"

text \<open>\<^verbatim>\<open>Decision::to_string\<close>.\<close>

definition opt_field :: "string \<Rightarrow> ('a \<Rightarrow> string) \<Rightarrow> 'a option \<Rightarrow> string" where
  "opt_field label render v = (case v of None \<Rightarrow> [] | Some x \<Rightarrow> label @ render x)"

definition gen_to_string :: "'tag gen \<Rightarrow> string" where
  "gen_to_string g = std_to_string (gen_value g)"

definition Decision_to_string :: "Decision \<Rightarrow> string" where
  "Decision_to_string d =
     DecisionCode_to_string (code d)
     @ (if reason d \<noteq> [] then '': '' @ reason d else [])
     @ (case d_execution_id d of
          None \<Rightarrow> []
        | Some i \<Rightarrow>
            '' [exec='' @ id_to_string i
            @ opt_field '' gen='' gen_to_string (d_execution_generation d)
            @ opt_field '' attempt='' id_to_string (d_attempt_id d)
            @ opt_field '' attemptGen='' gen_to_string (d_attempt_generation d)
            @ opt_field '' worker='' id_to_string (d_worker_id d)
            @ opt_field '' boot='' id_to_string (d_worker_boot_id d)
            @ opt_field '' epoch='' gen_to_string (d_coordinator_epoch d)
            @ '']'')
     @ (if required_authority d \<noteq> [] then '' required='' @ required_authority d else [])"

section \<open>Durable records\<close>

record AttemptRecord =
  at_id :: AttemptId
  at_generation :: AttemptGeneration
  at_worker_id :: WorkerId
  at_worker_boot_id :: WorkerBootId
  at_dispatch_id :: DispatchId
  at_dispatch_generation :: DispatchGeneration
  at_ownership_generation :: OwnershipGeneration
  at_fence_generation :: FenceGeneration
  execution_state_at_dispatch :: ExecutionState
  at_state :: AttemptState
  result_digest :: "ResultDigest option"
  result_payload_hex :: "string option"
  failure_reason :: "string option"

definition AttemptRecord_init :: AttemptRecord where
  "AttemptRecord_init =
     \<lparr>at_id = id_nil, at_generation = Gen 0, at_worker_id = id_nil, at_worker_boot_id = id_nil,
      at_dispatch_id = id_nil, at_dispatch_generation = Gen 0, at_ownership_generation = Gen 0,
      at_fence_generation = Gen 0, execution_state_at_dispatch = ExecutionState.CREATED,
      at_state = AttemptState.CREATED, result_digest = None, result_payload_hex = None,
      failure_reason = None\<rparr>"

record ExecutionRecord =
  rec_id :: ExecutionId
  generation :: ExecutionGeneration
  state :: ExecutionState
  coordinator_epoch :: CoordinatorEpoch
  ownership_generation :: OwnershipGeneration
  fence_generation :: FenceGeneration
  current_attempt_id :: "AttemptId option"
  current_attempt_generation :: "AttemptGeneration option"
  owner_worker :: "WorkerId option"
  owner_worker_boot :: "WorkerBootId option"
  cancellation_generation :: CancellationGeneration
  preemption_generation :: PreemptionGeneration
  resume_generation :: ResumeGeneration
  completion_generation :: CompletionGeneration
  commit_generation :: CommitGeneration
  committed_digest :: "ResultDigest option"
  attempts :: "AttemptRecord list"
  created_at :: string
  committed_at :: string

definition ExecutionRecord_init :: ExecutionRecord where
  "ExecutionRecord_init =
     \<lparr>rec_id = id_nil, generation = Gen 0, state = ExecutionState.CREATED,
      coordinator_epoch = Gen 0, ownership_generation = Gen 0, fence_generation = Gen 0,
      current_attempt_id = None, current_attempt_generation = None, owner_worker = None,
      owner_worker_boot = None, cancellation_generation = Gen 0, preemption_generation = Gen 0,
      resume_generation = Gen 0, completion_generation = Gen 0, commit_generation = Gen 0,
      committed_digest = None, attempts = [], created_at = [], committed_at = []\<rparr>"

section \<open>Authority tickets\<close>

record CompletionTicket =
  ct_execution_id :: ExecutionId
  ct_execution_generation :: ExecutionGeneration
  ct_attempt_id :: AttemptId
  ct_attempt_generation :: AttemptGeneration
  ct_worker_id :: WorkerId
  ct_worker_boot_id :: WorkerBootId
  ct_epoch :: CoordinatorEpoch
  ct_dispatch_id :: DispatchId
  ct_dispatch_generation :: DispatchGeneration
  ct_ownership_generation :: OwnershipGeneration
  ct_fence_generation :: FenceGeneration
  ct_completion_generation :: CompletionGeneration
  has_result :: bool
  ct_result_digest :: ResultDigest

record StartTicket =
  st_execution_id :: ExecutionId
  st_execution_generation :: ExecutionGeneration
  st_attempt_id :: AttemptId
  st_attempt_generation :: AttemptGeneration
  st_worker_id :: WorkerId
  st_worker_boot_id :: WorkerBootId
  st_epoch :: CoordinatorEpoch
  st_dispatch_id :: DispatchId
  st_dispatch_generation :: DispatchGeneration
  st_ownership_generation :: OwnershipGeneration
  st_fence_generation :: FenceGeneration

record DispatchTicket =
  dt_execution_id :: ExecutionId
  dt_execution_generation :: ExecutionGeneration
  dt_attempt_id :: AttemptId
  dt_attempt_generation :: AttemptGeneration
  dt_worker_id :: WorkerId
  dt_worker_boot_id :: WorkerBootId
  dt_epoch :: CoordinatorEpoch
  dt_dispatch_id :: DispatchId
  dt_dispatch_generation :: DispatchGeneration
  dt_ownership_generation :: OwnershipGeneration
  dt_fence_generation :: FenceGeneration

record ControlRequest =
  req_execution_id :: ExecutionId
  req_execution_generation :: ExecutionGeneration
  req_epoch :: CoordinatorEpoch
  authority_generation :: OwnershipGeneration
  req_cancellation_generation :: CancellationGeneration
  req_preemption_generation :: PreemptionGeneration
  req_resume_generation :: ResumeGeneration

definition DispatchTicket_init :: DispatchTicket where
  "DispatchTicket_init =
     \<lparr>dt_execution_id = id_nil, dt_execution_generation = Gen 0, dt_attempt_id = id_nil,
      dt_attempt_generation = Gen 0, dt_worker_id = id_nil, dt_worker_boot_id = id_nil,
      dt_epoch = Gen 0, dt_dispatch_id = id_nil, dt_dispatch_generation = Gen 0,
      dt_ownership_generation = Gen 0, dt_fence_generation = Gen 0\<rparr>"

text \<open>The tickets a worker derives from the dispatch it received (\<^verbatim>\<open>worker/worker.cpp\<close>).\<close>

definition start_ticket_of :: "DispatchTicket \<Rightarrow> StartTicket" where
  "start_ticket_of t =
     \<lparr>st_execution_id = dt_execution_id t, st_execution_generation = dt_execution_generation t,
      st_attempt_id = dt_attempt_id t, st_attempt_generation = dt_attempt_generation t,
      st_worker_id = dt_worker_id t, st_worker_boot_id = dt_worker_boot_id t,
      st_epoch = dt_epoch t, st_dispatch_id = dt_dispatch_id t,
      st_dispatch_generation = dt_dispatch_generation t,
      st_ownership_generation = dt_ownership_generation t,
      st_fence_generation = dt_fence_generation t\<rparr>"

definition completion_ticket_of :: "DispatchTicket \<Rightarrow> ResultDigest \<Rightarrow> CompletionTicket" where
  "completion_ticket_of t dg =
     \<lparr>ct_execution_id = dt_execution_id t, ct_execution_generation = dt_execution_generation t,
      ct_attempt_id = dt_attempt_id t, ct_attempt_generation = dt_attempt_generation t,
      ct_worker_id = dt_worker_id t, ct_worker_boot_id = dt_worker_boot_id t,
      ct_epoch = dt_epoch t, ct_dispatch_id = dt_dispatch_id t,
      ct_dispatch_generation = dt_dispatch_generation t,
      ct_ownership_generation = dt_ownership_generation t,
      ct_fence_generation = dt_fence_generation t,
      ct_completion_generation = Gen 1, has_result = True, ct_result_digest = dg\<rparr>"

section \<open>Facts on decision codes\<close>

lemma DecisionCode_of_value [simp]: "DecisionCode_of (DecisionCode_value c) = Some c"
  by (cases c) (simp_all add: DecisionCode_of_def DecisionCode_list_def)

end
