(* ===== verification/Binary.thy ===== *)
theory Binary
  imports Decision
begin

text \<open>
  \<^verbatim>\<open>include/execution_fabric/binary.hpp\<close>: the little-endian writer and the bounds-checked
  reader that persistence and protocol share. A write is the list of bytes it appends. The reader
  keeps the bytes that are left and its sticky flag; a read returns \<open>None\<close> where the C++ method
  returns false.

  The locale \<open>codec\<close> is the contract between the two: what was written is read back, and exactly
  its bytes are consumed. Its lemmas drive all round-trip proofs of the records and messages.
\<close>

section \<open>ByteWriter\<close>

definition put_u8 :: "u8 \<Rightarrow> u8 list" where
  "put_u8 v = [v]"

definition put_u16 :: "u16 \<Rightarrow> u8 list" where
  "put_u16 v = [ucast v, ucast (drop_bit 8 v)]"

definition put_u32 :: "u32 \<Rightarrow> u8 list" where
  "put_u32 v = map (\<lambda>i. ucast (drop_bit (8 * i) v)) [0..<4]"

definition put_u64 :: "u64 \<Rightarrow> u8 list" where
  "put_u64 v = map (\<lambda>i. ucast (drop_bit (8 * i) v)) [0..<8]"

text \<open>A \<^verbatim>\<open>std::string\<close> is written byte by byte; a \<^verbatim>\<open>char\<close> is its byte.\<close>

definition char_byte :: "char \<Rightarrow> u8" where
  "char_byte c = word_of_nat (of_char c)"

definition byte_char :: "u8 \<Rightarrow> char" where
  "byte_char b = char_of (unat b)"

definition put_string :: "string \<Rightarrow> u8 list" where
  "put_string s = put_u32 (word_of_nat (length s)) @ map char_byte s"

definition put_bool :: "bool \<Rightarrow> u8 list" where
  "put_bool b = put_u8 (if b then 1 else 0)"

section \<open>ByteReader\<close>

record byte_reader =
  rd_rest :: "u8 list"
  rd_ok :: bool

definition ByteReader :: "u8 list \<Rightarrow> byte_reader" where
  "ByteReader bs = \<lparr>rd_rest = bs, rd_ok = True\<rparr>"

definition kMaxString :: nat where
  "kMaxString = 1048576"

definition kMaxVector :: nat where
  "kMaxVector = 16777216"

definition reader_fail :: "byte_reader \<Rightarrow> byte_reader" where
  "reader_fail r = r\<lparr>rd_ok := False\<rparr>"

definition remaining :: "byte_reader \<Rightarrow> nat" where
  "remaining r = length (rd_rest r)"

definition need :: "nat \<Rightarrow> byte_reader \<Rightarrow> bool" where
  "need n r \<longleftrightarrow> rd_ok r \<and> \<not> n > remaining r"

type_synonym 'a read = "byte_reader \<Rightarrow> 'a option \<times> byte_reader"

definition get_bytes :: "nat \<Rightarrow> u8 list read" where
  "get_bytes n r =
     (if \<not> need n r then (None, r)
      else (Some (take n (rd_rest r)), r\<lparr>rd_rest := drop n (rd_rest r)\<rparr>))"

definition map_read :: "('a \<Rightarrow> 'b) \<Rightarrow> 'a read \<Rightarrow> 'b read" where
  "map_read f get r = (case get r of (v, r') \<Rightarrow> (map_option f v, r'))"

definition get_u8 :: "u8 read" where
  "get_u8 = map_read (\<lambda>bs. bs ! 0) (get_bytes 1)"

definition get_u16 :: "u16 read" where
  "get_u16 = map_read (\<lambda>bs. ucast (bs ! 0) OR push_bit 8 (ucast (bs ! 1))) (get_bytes 2)"

definition get_u32 :: "u32 read" where
  "get_u32 =
     map_read (\<lambda>bs. ucast (bs ! 0) OR push_bit 8 (ucast (bs ! 1)) OR push_bit 16 (ucast (bs ! 2))
                    OR push_bit 24 (ucast (bs ! 3))) (get_bytes 4)"

definition get_u64 :: "u64 read" where
  "get_u64 =
     map_read (\<lambda>bs. fold (\<lambda>i out. out OR push_bit (8 * i) (ucast (bs ! i))) [0..<8] 0) (get_bytes 8)"

definition get_vector :: "nat \<Rightarrow> u8 list read" where
  "get_vector n r = (if n > kMaxVector then (None, reader_fail r) else get_bytes n r)"

definition get_string :: "string read" where
  "get_string r =
     (case get_u32 r of
        (None, r) \<Rightarrow> (None, r)
      | (Some n, r) \<Rightarrow>
          if unat n > kMaxString then (None, reader_fail r)
          else map_read (map byte_char) (get_bytes (unat n)) r)"

definition get_bool :: "bool read" where
  "get_bool = map_read (\<lambda>b. b \<noteq> 0) get_u8"

definition reader_skip :: "nat \<Rightarrow> unit read" where
  "reader_skip n = map_read (\<lambda>_. ()) (get_bytes n)"

section \<open>Fields of the records and messages\<close>

text \<open>The sixteen bytes of an identity, the value of a generation, the bytes of a digest.\<close>

definition put_id :: "'tag ident \<Rightarrow> u8 list" where
  "put_id i = array_bytes (uuid_bytes (id_value i))"

definition get_id :: "'tag ident read" where
  "get_id = map_read (\<lambda>bs. Id (Uuid (to_array bs))) (get_bytes 16)"

definition put_gen :: "'tag gen \<Rightarrow> u8 list" where
  "put_gen g = put_u64 (gen_value g)"

definition get_gen :: "'tag gen read" where
  "get_gen = map_read Gen get_u64"

definition put_digest :: "ResultDigest \<Rightarrow> u8 list" where
  "put_digest d = array_bytes (digest_bytes d)"

definition get_digest :: "ResultDigest read" where
  "get_digest = map_read (\<lambda>bs. ResultDigest (to_array bs)) (get_bytes 32)"

text \<open>A presence byte, then the value when present.\<close>

definition put_opt :: "('a \<Rightarrow> u8 list) \<Rightarrow> 'a option \<Rightarrow> u8 list" where
  "put_opt put v = put_bool (v \<noteq> None) @ (case v of None \<Rightarrow> [] | Some x \<Rightarrow> put x)"

text \<open>
  \<open>if (!get(x)) { error = ...; return false; }\<close> and then the rest of the function:
  \<open>rd get err k\<close>; \<open>rd_opt\<close> is the same for an optional field.
\<close>

type_synonym ('e, 'a) parser = "byte_reader \<Rightarrow> 'e + 'a"

definition rd :: "'a read \<Rightarrow> 'e \<Rightarrow> ('a \<Rightarrow> ('e, 'b) parser) \<Rightarrow> ('e, 'b) parser" where
  "rd get err k r = (case get r of (None, _) \<Rightarrow> Inl err | (Some x, r') \<Rightarrow> k x r')"

definition rd_opt :: "'a read \<Rightarrow> 'e \<Rightarrow> 'e \<Rightarrow> ('a option \<Rightarrow> ('e, 'b) parser) \<Rightarrow> ('e, 'b) parser" where
  "rd_opt get err_present err k =
     rd get_bool err_present (\<lambda>present. if present then rd get err (\<lambda>x. k (Some x)) else k None)"

section \<open>The codec contract\<close>

locale codec =
  fixes put :: "'a \<Rightarrow> u8 list"
    and get :: "'a read"
    and valid :: "'a \<Rightarrow> bool"
  assumes get_put: "valid x \<Longrightarrow> get (ByteReader (put x @ rest)) = (Some x, ByteReader rest)"
begin

lemma rd_put: "valid x \<Longrightarrow> rd get e k (ByteReader (put x @ rest)) = k x (ByteReader rest)"
  by (simp add: rd_def get_put)

lemma put_prefix_free:
  assumes "valid x" "valid y" "put x @ a = put y @ b"
  shows "x = y \<and> a = b"
  using get_put [OF assms(1), of a] get_put [OF assms(2), of b] assms(3) by (simp add: ByteReader_def)

end

section \<open>The primitive codecs\<close>

lemma remaining_ByteReader [simp]: "remaining (ByteReader bs) = length bs"
  by (simp add: remaining_def ByteReader_def)

lemma rd_rest_ByteReader [simp]: "rd_rest (ByteReader bs) = bs"
  by (simp add: ByteReader_def)

lemma get_bytes_append [simp]:
  "length bs = n \<Longrightarrow> get_bytes n (ByteReader (bs @ rest)) = (Some bs, ByteReader rest)"
  by (auto simp: get_bytes_def need_def remaining_def ByteReader_def)

lemma length_put [simp]: "length (put_u8 v8) = 1" "length (put_u16 v16) = 2" "length (put_u32 v32) = 4" "length (put_u64 v64) = 8"
    "length (put_bool b) = 1" "length (put_id i) = 16" "length (put_gen g) = 8" "length (put_digest d) = 32"
  by (simp_all add: put_u8_def put_u16_def put_u32_def put_u64_def put_bool_def put_id_def put_gen_def put_digest_def)

text \<open>Adding the next byte of a little-endian number.\<close>

lemma le_step:
  "take_bit m v OR push_bit m (ucast (ucast (drop_bit m v) :: u8)) = take_bit (m + 8) (v :: 'a::len word)"
proof (rule bit_word_eqI)
  fix n assume "n < LENGTH('a)"
  then show "bit (take_bit m v OR push_bit m (ucast (ucast (drop_bit m v) :: u8))) n = bit (take_bit (m + 8) v) n"
    by (cases "m \<le> n") (auto simp: bit_simps)
qed

lemma le_first: "ucast (ucast v :: u8) = take_bit 8 (v :: 'a::len word)"
  by (rule bit_word_eqI) (auto simp: bit_simps)

lemma u16_bytes: "(ucast (ucast v :: u8) :: u16) OR push_bit 8 (ucast (ucast (drop_bit 8 v) :: u8)) = v"
  using le_step [of 8 v] take_bit_word_eq_self [of 16 v] unfolding le_first [of v] by simp

lemma u32_bytes:
  "(ucast (ucast v :: u8) :: u32) OR push_bit 8 (ucast (ucast (drop_bit 8 v) :: u8))
     OR push_bit 16 (ucast (ucast (drop_bit 16 v) :: u8)) OR push_bit 24 (ucast (ucast (drop_bit 24 v) :: u8)) = v"
  using le_step [of 8 v] le_step [of 16 v] le_step [of 24 v] take_bit_word_eq_self [of 32 v]
  unfolding le_first [of v] by (simp flip: or.assoc)

lemma u64_bytes_loop:
  "k \<le> 8 \<Longrightarrow> fold (\<lambda>i out. out OR push_bit (8 * i) (ucast (put_u64 v ! i))) [0..<k] 0 = take_bit (8 * k) v"
proof (induction k)
  case (Suc k)
  then have "put_u64 v ! k = ucast (drop_bit (8 * k) v)"
    by (simp add: put_u64_def nth_map_upt del: upt_rec_numeral)
  then show ?case using Suc le_step [of "8 * k" v] by (simp add: add.commute)
qed simp

lemma u64_bytes: "fold (\<lambda>i out. out OR push_bit (8 * i) (ucast (put_u64 v ! i))) [0..<8] 0 = v"
  using u64_bytes_loop [of 8 v] take_bit_word_eq_self [of 64 v] by (simp del: upt_rec_numeral)

interpretation u8_codec: codec put_u8 get_u8 "\<lambda>_. True"
  by standard (simp add: get_u8_def map_read_def, simp add: put_u8_def)

interpretation u16_codec: codec put_u16 get_u16 "\<lambda>_. True"
  by standard (simp add: get_u16_def map_read_def, simp add: put_u16_def u16_bytes)

interpretation u32_codec: codec put_u32 get_u32 "\<lambda>_. True"
  by standard (simp add: get_u32_def map_read_def, simp add: put_u32_def upt_rec u32_bytes)

interpretation u64_codec: codec put_u64 get_u64 "\<lambda>_. True"
  by standard (simp add: get_u64_def map_read_def u64_bytes del: upt_rec_numeral)

interpretation bool_codec: codec put_bool get_bool "\<lambda>_. True"
  by standard (simp add: get_bool_def map_read_def put_bool_def u8_codec.get_put)

interpretation id_codec: codec put_id get_id "\<lambda>_. True"
  by standard (simp add: get_id_def map_read_def, simp add: put_id_def)

interpretation gen_codec: codec put_gen get_gen "\<lambda>_. True"
  by standard (simp add: get_gen_def map_read_def put_gen_def u64_codec.get_put)

interpretation digest_codec: codec put_digest get_digest "\<lambda>_. True"
  by standard (simp add: get_digest_def map_read_def, simp add: put_digest_def)

lemma byte_char_byte [simp]: "byte_char (char_byte c) = c"
proof -
  have "(of_char c :: nat) < 2 ^ 8" using nat_of_char_less_256 [of c] by simp
  then show ?thesis by (simp add: byte_char_def char_byte_def unsigned_of_nat take_bit_nat_eq_self)
qed

lemma unat_word_of_nat_u32: "n \<le> kMaxVector \<Longrightarrow> unat (word_of_nat n :: u32) = n"
  by (simp add: kMaxVector_def unsigned_of_nat take_bit_nat_eq_self)

interpretation string_codec: codec put_string get_string "\<lambda>s. length s \<le> kMaxString"
proof
  fix s :: string and rest
  assume s: "length s \<le> kMaxString"
  then have n: "unat (word_of_nat (length s) :: u32) = length s"
    by (intro unat_word_of_nat_u32) (simp add: kMaxString_def kMaxVector_def)
  show "get_string (ByteReader (put_string s @ rest)) = (Some s, ByteReader rest)"
    using s by (simp add: get_string_def put_string_def u32_codec.get_put n map_read_def comp_def)
qed

lemma vector_get:
  "length v \<le> kMaxVector \<Longrightarrow> get_vector (length v) (ByteReader (v @ rest)) = (Some v, ByteReader rest)"
  by (simp add: get_vector_def)

section \<open>Reading optional fields back\<close>

lemma rd_opt_put:
  assumes "codec put get valid" "\<And>x. v = Some x \<Longrightarrow> valid x"
  shows "rd_opt get e1 e2 k (ByteReader (put_opt put v @ rest)) = k v (ByteReader rest)"
  using assms(2)
  by (cases v) (simp_all add: rd_opt_def put_opt_def bool_codec.rd_put codec.rd_put [OF assms(1)])

lemmas codec_reads [codec_rt] =
  u8_codec.rd_put u16_codec.rd_put u32_codec.rd_put u64_codec.rd_put bool_codec.rd_put
  id_codec.rd_put gen_codec.rd_put digest_codec.rd_put string_codec.rd_put

lemmas codec_opt_reads [codec_rt] =
  rd_opt_put [OF id_codec.codec_axioms] rd_opt_put [OF gen_codec.codec_axioms]
  rd_opt_put [OF digest_codec.codec_axioms] rd_opt_put [OF string_codec.codec_axioms]

section \<open>Bytes as numbers\<close>

text \<open>Eight bytes are the little-endian form of the number they are read as.\<close>

lemma bit_u64_loop:
  "k \<le> 8 \<Longrightarrow> bit (fold (\<lambda>i out. out OR push_bit (8 * i) (ucast (xs ! i :: u8))) [0..<k] (0 :: u64)) n \<longleftrightarrow>
     n < 8 * k \<and> bit (xs ! (n div 8)) (n mod 8)"
proof (induction k)
  case (Suc k)
  let ?f = "fold (\<lambda>i out. out OR push_bit (8 * i) (ucast (xs ! i))) [0..<k] (0 :: u64)"
  have step: "bit (?f OR push_bit (8 * k) (ucast (xs ! k))) n \<longleftrightarrow>
      n < 8 * k \<and> bit (xs ! (n div 8)) (n mod 8) \<or> 8 * k \<le> n \<and> n < 64 \<and> bit (xs ! k) (n - 8 * k)"
    using Suc by (auto simp: bit_simps)
  show ?case
  proof (cases "8 * k \<le> n \<and> n < 8 * Suc k")
    case True
    then obtain r where "n = 8 * k + r" "r < 8" by (metis add_less_cancel_left le_Suc_ex mult_Suc_right add.commute)
    then have "n div 8 = k" "n mod 8 = n - 8 * k" by simp_all
    then show ?thesis using True step Suc.prems by simp
  next
    case False
    then have "8 * k \<le> n \<Longrightarrow> \<not> bit (xs ! k) (n - 8 * k)"
      using bit_imp_le_length [of "xs ! k" "n - 8 * k"] by auto
    then show ?thesis using False step by auto
  qed
qed simp

lemma get_u64_bytes:
  assumes "length xs = 8"
  obtains v where "get_u64 (ByteReader xs) = (Some v, ByteReader [])" "put_u64 v = xs"
proof -
  let ?v = "fold (\<lambda>i out. out OR push_bit (8 * i) (ucast (xs ! i))) [0..<8] (0 :: u64)"
  have "get_u64 (ByteReader xs) = (Some ?v, ByteReader [])"
    using get_bytes_append [OF assms, of "[]"] by (simp add: get_u64_def map_read_def del: upt_rec_numeral)
  moreover have "put_u64 ?v = xs"
  proof (rule nth_equalityI)
    fix i assume "i < length (put_u64 ?v)"
    then have "put_u64 ?v ! i = ucast (drop_bit (8 * i) ?v)" and i: "i < 8"
      by (simp_all add: put_u64_def nth_map_upt del: upt_rec_numeral)
    moreover have "(ucast (drop_bit (8 * i) ?v) :: u8) = xs ! i"
      using i by (intro bit_word_eqI) (simp add: bit_simps bit_u64_loop del: upt_rec_numeral)
    ultimately show "put_u64 ?v ! i = xs ! i" by simp
  qed (simp add: assms)
  ultimately show thesis by (rule that)
qed

lemma get_u64_changed:
  assumes "i < 8" "b \<noteq> put_u64 v ! i"
  obtains v' where "v' \<noteq> v" "get_u64 (ByteReader ((put_u64 v)[i := b])) = (Some v', ByteReader [])"
proof -
  obtain v' where v': "get_u64 (ByteReader ((put_u64 v)[i := b])) = (Some v', ByteReader [])" "put_u64 v' = (put_u64 v)[i := b]"
    using get_u64_bytes [of "(put_u64 v)[i := b]"] by auto
  have "v' \<noteq> v" using v'(2) assms by (metis length_put(4) nth_list_update_eq)
  then show thesis using that v'(1) by simp
qed

text \<open>Every byte list of the right length is the form of some number.\<close>

lemma put_u64_surj: "length xs = 8 \<Longrightarrow> \<exists>v. xs = put_u64 v"
  using get_u64_bytes by metis

lemma put_u8_surj: "length xs = 1 \<Longrightarrow> \<exists>v. xs = put_u8 v"
  by (auto simp: put_u8_def length_Suc_conv)

lemma put_u32_surj: "length xs = 4 \<Longrightarrow> \<exists>v. xs = put_u32 v"
proof -
  assume "length xs = 4"
  then obtain a b c d where xs: "xs = [a, b, c, d]" by (auto simp: length_Suc_conv numeral_eq_Suc)
  let ?v = "ucast a OR push_bit 8 (ucast b) OR push_bit 16 (ucast c) OR push_bit 24 (ucast d) :: u32"
  have high: "\<not> bit (x :: u8) (8 + n)" for x n using bit_imp_le_length [of x "8 + n"] by auto
  have "ucast ?v = a"
    by (rule bit_word_eqI) (auto simp: bit_simps)
  moreover have "ucast (drop_bit 8 ?v) = b"
    using high [of a] by (intro bit_word_eqI) (auto simp: bit_simps add.commute)
  moreover have "ucast (drop_bit 16 ?v) = c"
    using bit_imp_le_length [of a] bit_imp_le_length [of b] by (intro bit_word_eqI) (force simp: bit_simps)
  moreover have "ucast (drop_bit 24 ?v) = d"
    using bit_imp_le_length [of a] bit_imp_le_length [of b] bit_imp_le_length [of c]
    by (intro bit_word_eqI) (force simp: bit_simps)
  ultimately show ?thesis by (intro exI [of _ ?v]) (simp add: xs put_u32_def upt_rec)
qed

end
