(* ===== verification/Crc64.thy ===== *)
theory Crc64
  imports Prelude
begin

text \<open>
  \<^verbatim>\<open>include/execution_fabric/checksum.hpp\<close> and \<^verbatim>\<open>src/checksum.cpp\<close>: the table-driven
  CRC-64. The table-driven step is shown equal to the bit-by-bit division it stands for; the
  bit step is injective, so two inputs of one length that differ in a single byte have different
  checksums.
\<close>

section \<open>The checksum\<close>

text \<open>One turn of the inner loop of the table constructor.\<close>

definition crc_bit :: "u64 \<Rightarrow> u64" where
  "crc_bit c = (if c AND 1 \<noteq> 0 then 0xC96C5795D7870F42 XOR drop_bit 1 c else drop_bit 1 c)"

definition crc_table :: "u64 list" where
  "crc_table = map (\<lambda>i. (crc_bit ^^ 8) (of_nat i)) [0..<256]"

definition crc_step :: "u64 \<Rightarrow> u8 \<Rightarrow> u64" where
  "crc_step s b = crc_table ! unat ((s XOR ucast b) AND 0xFF) XOR drop_bit 8 s"

definition crc_update :: "u64 \<Rightarrow> u8 list \<Rightarrow> u64" where
  "crc_update s bs = fold (\<lambda>b s. crc_step s b) bs s"

definition crc64 :: "u8 list \<Rightarrow> u64" where
  "crc64 bs = crc_update (- 1) bs"

section \<open>The table-driven step is eight bit steps\<close>

lemma crc_bit_bit: "crc_bit c = (if bit c 0 then 0xC96C5795D7870F42 XOR drop_bit 1 c else drop_bit 1 c)"
  by (simp add: crc_bit_def and_one_eq odd_iff_mod_2_eq_one bit_0)

lemma crc_bit_xor: "crc_bit (a XOR b) = crc_bit a XOR crc_bit b"
  by (auto simp: crc_bit_bit bit_xor_iff drop_bit_xor ac_simps simp flip: xor.assoc)

lemma crc_bits_xor: "(crc_bit ^^ n) (a XOR b) = (crc_bit ^^ n) a XOR (crc_bit ^^ n) b"
  by (induction n) (simp_all add: crc_bit_xor)

lemma crc_bits_high: "take_bit n c = 0 \<Longrightarrow> (crc_bit ^^ n) c = drop_bit n c"
proof (induction n)
  case (Suc n)
  have "take_bit n (take_bit (Suc n) c) = 0" unfolding Suc.prems by simp
  then have "take_bit n c = 0" by (simp add: min_def)
  moreover have "\<not> bit (take_bit (Suc n) c) n" unfolding Suc.prems by simp
  then have "\<not> bit (drop_bit n c) 0" by (simp add: bit_take_bit_iff bit_drop_bit_eq)
  ultimately show ?case using Suc.IH by (simp add: crc_bit_bit)
qed simp

lemma crc_step_bits: "crc_step s b = (crc_bit ^^ 8) (s XOR ucast b)"
proof -
  define x where "x = s XOR (ucast b :: u64)"
  let ?lo = "x AND 0xFF" and ?hi = "push_bit 8 (drop_bit 8 s)"
  have lo: "?lo = take_bit 8 x" by (simp add: take_bit_eq_mask mask_eq_exp_minus_1)
  have "unat ?lo < 256"
    using take_bit_nat_less_exp [of 8 "unat x"] by (simp add: lo unsigned_take_bit_eq)
  then have tab: "crc_table ! unat ?lo = (crc_bit ^^ 8) ?lo"
    by (simp add: crc_table_def nth_map_upt del: upt_rec_numeral)
  have x: "x = ?lo XOR ?hi"
    unfolding lo by (rule bit_word_eqI) (auto simp: x_def bit_simps dest: bit_imp_le_length)
  have "bit s (8 + n) \<Longrightarrow> n < 56" for n using bit_imp_le_length [of s "8 + n"] by simp
  then have hi: "(crc_bit ^^ 8) ?hi = drop_bit 8 s"
    by (subst crc_bits_high) (auto intro!: bit_word_eqI simp: bit_simps)
  have "crc_step s b = (crc_bit ^^ 8) (?lo XOR ?hi)"
    unfolding crc_step_def x_def [symmetric] tab crc_bits_xor hi ..
  then show ?thesis using x by (simp only: x_def)
qed

section \<open>Injectivity\<close>

lemma xor_cancel_left: "c XOR a = c XOR b \<Longrightarrow> a = (b :: u64)"
proof -
  assume "c XOR a = c XOR b"
  then have "c XOR (c XOR a) = c XOR (c XOR b)" by simp
  then show "a = b" by (simp flip: xor.assoc)
qed

lemma xor_cancel_right: "a XOR c = b XOR c \<Longrightarrow> a = (b :: u64)"
  using xor_cancel_left [of c a b] by (simp add: xor.commute)

lemma crc_bit_inj: "crc_bit a = crc_bit b \<Longrightarrow> a = b"
proof -
  assume eq: "crc_bit a = crc_bit b"
  have top: "bit (crc_bit c) 63 \<longleftrightarrow> bit c 0" for c
    by (auto simp: crc_bit_bit bit_simps dest: bit_imp_le_length)
  have low: "bit a 0 = bit b 0" using top [of a] top [of b] eq by simp
  then have "drop_bit 1 a = drop_bit 1 b" using eq by (auto simp: crc_bit_bit split: if_splits dest: xor_cancel_left)
  then have "bit a (Suc n) = bit b (Suc n)" for n
    by (metis bit_drop_bit_eq comp_apply plus_1_eq_Suc)
  then have "bit a n = bit b n" for n using low by (cases n) auto
  then show "a = b" by (intro bit_word_eqI) simp
qed

lemma crc_bits_inj: "(crc_bit ^^ n) a = (crc_bit ^^ n) b \<Longrightarrow> a = b"
  by (induction n arbitrary: a b) (auto simp: funpow_swap1 dest: crc_bit_inj)

lemma crc_step_inj_state: "crc_step s b = crc_step s' b \<Longrightarrow> s = s'"
  unfolding crc_step_bits by (rule xor_cancel_right) (rule crc_bits_inj)

lemma crc_step_inj_byte: "crc_step s b = crc_step s b' \<Longrightarrow> b = b'"
proof -
  assume "crc_step s b = crc_step s b'"
  then have "s XOR ucast b = s XOR ucast b'" unfolding crc_step_bits by (rule crc_bits_inj)
  then have "(ucast b :: u64) = ucast b'" by (rule xor_cancel_left)
  then have bits: "bit (ucast b :: u64) n = bit (ucast b' :: u64) n" for n by simp
  have "n < 8 \<Longrightarrow> bit b n = bit b' n" for n
    using bits [of n] by (simp add: bit_ucast_iff)
  then show "b = b'" by (intro bit_word_eqI) simp
qed

lemma crc_update_inj: "crc_update s bs = crc_update s' bs \<Longrightarrow> s = s'"
  unfolding crc_update_def by (induction bs arbitrary: s s') (auto dest: crc_step_inj_state)

lemma crc_update_split: "crc_update s (xs @ b # ys) = crc_update (crc_step (crc_update s xs) b) ys"
  by (simp add: crc_update_def)

lemma crc64_single_byte:
  assumes "i < length bs" "b \<noteq> bs ! i"
  shows "crc64 (bs[i := b]) \<noteq> crc64 bs"
proof
  assume eq: "crc64 (bs[i := b]) = crc64 bs"
  let ?s = "crc_update (- 1) (take i bs)" and ?rest = "drop (Suc i) bs"
  have "crc64 (take i bs @ bs ! i # ?rest) = crc_update (crc_step ?s (bs ! i)) ?rest"
    by (simp only: crc64_def crc_update_split)
  moreover have "crc64 (bs[i := b]) = crc_update (crc_step ?s b) ?rest"
    unfolding upd_conv_take_nth_drop [OF assms(1)] by (simp only: crc64_def crc_update_split)
  ultimately have "crc_update (crc_step ?s b) ?rest = crc_update (crc_step ?s (bs ! i)) ?rest"
    using eq by (simp only: id_take_nth_drop [OF assms(1), symmetric])
  then have "crc_step ?s b = crc_step ?s (bs ! i)" by (rule crc_update_inj)
  then have "b = bs ! i" by (rule crc_step_inj_byte)
  with assms(2) show False by simp
qed

end
