(* ===== verification/Persistence.thy ===== *)
theory Persistence
  imports Binary Crc64
begin

text \<open>
  \<^verbatim>\<open>src/persistence.cpp\<close> and \<^verbatim>\<open>include/execution_fabric/persistence.hpp\<close>: the binary
  form of a record with its decoder and cross-field validation, the snapshot file with its
  per-record and whole-file checksums, and saving and loading through the file system. A decoder
  returns the error text on the left, as the C++ leaves it in \<^verbatim>\<open>error\<close>.
\<close>

section \<open>Encoding a record\<close>

definition encode_attempt :: "AttemptRecord \<Rightarrow> u8 list" where
  "encode_attempt at =
     put_id (at_id at) @ put_gen (at_generation at) @ put_id (at_worker_id at)
     @ put_id (at_worker_boot_id at) @ put_id (at_dispatch_id at)
     @ put_gen (at_dispatch_generation at) @ put_gen (at_ownership_generation at)
     @ put_gen (at_fence_generation at)
     @ put_u8 (ExecutionState_value (execution_state_at_dispatch at))
     @ put_u8 (AttemptState_value (at_state at))
     @ put_opt put_digest (result_digest at)
     @ put_opt put_string (result_payload_hex at)
     @ put_opt put_string (failure_reason at)"

definition encode_record :: "ExecutionRecord \<Rightarrow> u8 list" where
  "encode_record rec =
     put_id (rec_id rec) @ put_gen (generation rec) @ put_u8 (ExecutionState_value (state rec))
     @ put_gen (coordinator_epoch rec) @ put_gen (ownership_generation rec)
     @ put_gen (fence_generation rec)
     @ put_opt put_id (current_attempt_id rec) @ put_opt put_gen (current_attempt_generation rec)
     @ put_opt put_id (owner_worker rec) @ put_opt put_id (owner_worker_boot rec)
     @ put_gen (cancellation_generation rec) @ put_gen (preemption_generation rec)
     @ put_gen (resume_generation rec) @ put_gen (completion_generation rec)
     @ put_gen (commit_generation rec)
     @ put_opt put_digest (committed_digest rec)
     @ put_u32 (word_of_nat (length (attempts rec)))
     @ concat (map encode_attempt (attempts rec))
     @ put_string (created_at rec) @ put_string (committed_at rec)"

section \<open>Decoding a record\<close>

definition valid_exec_state :: "u8 \<Rightarrow> bool" where
  "valid_exec_state v \<longleftrightarrow> v \<le> ExecutionState_value ExecutionState.TERMINAL"

definition valid_attempt_state :: "u8 \<Rightarrow> bool" where
  "valid_attempt_state v \<longleftrightarrow> v \<le> AttemptState_value AttemptState.TERMINAL"

text \<open>Read an enumeration byte, refuse a value out of range, and convert it.\<close>

definition rd_exec_state ::
    "string \<Rightarrow> string \<Rightarrow> (ExecutionState \<Rightarrow> (string, 'b) parser) \<Rightarrow> (string, 'b) parser" where
  "rd_exec_state err err_enum k =
     rd get_u8 err (\<lambda>v. if \<not> valid_exec_state v then (\<lambda>_. Inl err_enum)
                        else k (ExecutionState_list ! unat v))"

definition rd_attempt_state ::
    "string \<Rightarrow> string \<Rightarrow> (AttemptState \<Rightarrow> (string, 'b) parser) \<Rightarrow> (string, 'b) parser" where
  "rd_attempt_state err err_enum k =
     rd get_u8 err (\<lambda>v. if \<not> valid_attempt_state v then (\<lambda>_. Inl err_enum)
                        else k (AttemptState_list ! unat v))"

definition decode_attempt :: "(AttemptRecord \<Rightarrow> (string, 'b) parser) \<Rightarrow> (string, 'b) parser" where
  "decode_attempt k =
     rd get_id ''record: truncated attempt id'' (\<lambda>i.
     rd get_gen ''record: truncated attempt generation'' (\<lambda>g.
     rd get_id ''record: truncated attempt worker'' (\<lambda>w.
     rd get_id ''record: truncated attempt boot'' (\<lambda>b.
     rd get_id ''record: truncated attempt dispatch'' (\<lambda>di.
     rd get_gen ''record: truncated attempt dispatch generation'' (\<lambda>dg.
     rd get_gen ''record: truncated attempt ownership generation'' (\<lambda>og.
     rd get_gen ''record: truncated attempt fence generation'' (\<lambda>fg.
     rd_exec_state ''record: truncated attempt exec state''
       ''record: invalid attempt execution state enum'' (\<lambda>es.
     rd_attempt_state ''record: truncated attempt state'' ''record: invalid attempt state enum'' (\<lambda>as.
     rd_opt get_digest ''record: truncated attempt digest present'' ''record: truncated attempt digest'' (\<lambda>d.
     rd_opt get_string ''record: truncated attempt payload present'' ''record: truncated attempt payload'' (\<lambda>p.
     rd_opt get_string ''record: truncated attempt failure present'' ''record: truncated attempt failure'' (\<lambda>f.
       k \<lparr>at_id = i, at_generation = g, at_worker_id = w, at_worker_boot_id = b, at_dispatch_id = di,
          at_dispatch_generation = dg, at_ownership_generation = og, at_fence_generation = fg,
          execution_state_at_dispatch = es, at_state = as, result_digest = d,
          result_payload_hex = p, failure_reason = f\<rparr>)))))))))))))"

fun decode_attempts ::
    "nat \<Rightarrow> AttemptRecord list \<Rightarrow> (AttemptRecord list \<Rightarrow> (string, 'b) parser) \<Rightarrow> (string, 'b) parser" where
  "decode_attempts 0 acc k = k acc"
| "decode_attempts (Suc n) acc k = decode_attempt (\<lambda>at. decode_attempts n (acc @ [at]) k)"

definition kMaxCount :: nat where
  "kMaxCount = 1048576"

definition decode_fields :: "(ExecutionRecord \<Rightarrow> (string, 'b) parser) \<Rightarrow> (string, 'b) parser" where
  "decode_fields k =
     rd get_id ''record: truncated execution id'' (\<lambda>i.
     rd get_gen ''record: truncated generation'' (\<lambda>g.
     rd_exec_state ''record: truncated state'' ''record: invalid execution state enum'' (\<lambda>st.
     rd get_gen ''record: truncated coordinator epoch'' (\<lambda>ce.
     rd get_gen ''record: truncated ownership generation'' (\<lambda>og.
     rd get_gen ''record: truncated fence generation'' (\<lambda>fg.
     rd_opt get_id ''record: truncated attempt-id present'' ''record: truncated attempt id'' (\<lambda>ca.
     rd_opt get_gen ''record: truncated attempt-gen present'' ''record: truncated attempt generation'' (\<lambda>cg.
     rd_opt get_id ''record: truncated owner-worker present'' ''record: truncated owner worker'' (\<lambda>ow.
     rd_opt get_id ''record: truncated owner-boot present'' ''record: truncated owner boot'' (\<lambda>ob.
     rd get_gen ''record: truncated cancellation generation'' (\<lambda>xg.
     rd get_gen ''record: truncated preemption generation'' (\<lambda>pg.
     rd get_gen ''record: truncated resume generation'' (\<lambda>rg.
     rd get_gen ''record: truncated completion generation'' (\<lambda>cpg.
     rd get_gen ''record: truncated commit generation'' (\<lambda>cmg.
     rd_opt get_digest ''record: truncated committed-digest present'' ''record: truncated committed digest'' (\<lambda>cd.
     rd get_u32 ''record: truncated attempt count'' (\<lambda>n.
     if unat n > kMaxCount then (\<lambda>_. Inl ''record: attempt count too large'') else
     decode_attempts (unat n) [] (\<lambda>ats.
     rd get_string ''record: truncated created_at'' (\<lambda>cr.
     rd get_string ''record: truncated committed_at'' (\<lambda>cm.
       k \<lparr>rec_id = i, generation = g, state = st, coordinator_epoch = ce, ownership_generation = og,
          fence_generation = fg, current_attempt_id = ca, current_attempt_generation = cg,
          owner_worker = ow, owner_worker_boot = ob, cancellation_generation = xg,
          preemption_generation = pg, resume_generation = rg, completion_generation = cpg,
          commit_generation = cmg, committed_digest = cd, attempts = ats, created_at = cr,
          committed_at = cm\<rparr>))))))))))))))))))))"

subsection \<open>Cross-field validation\<close>

fun check_attempts :: "AttemptId set \<Rightarrow> DispatchId set \<Rightarrow> AttemptRecord list \<Rightarrow> string option" where
  "check_attempts a_ids d_ids [] = None"
| "check_attempts a_ids d_ids (at # ats) =
     (if at_id at \<in> a_ids then Some ''record: duplicate attempt id''
      else if at_dispatch_id at \<in> d_ids then Some ''record: duplicate dispatch id''
      else if \<not> gen_is_set (at_generation at) then Some ''record: attempt generation must be set''
      else if \<not> gen_is_set (at_dispatch_generation at)
      then Some ''record: attempt dispatch generation must be set''
      else check_attempts (insert (at_id at) a_ids) (insert (at_dispatch_id at) d_ids) ats)"

fun check_current ::
    "AttemptId \<Rightarrow> AttemptGeneration option \<Rightarrow> bool \<Rightarrow> AttemptRecord list \<Rightarrow> string option" where
  "check_current c cg found [] =
     (if \<not> found then Some ''record: current attempt does not exist in history''
      else if cg = None then Some ''record: current attempt generation unset'' else None)"
| "check_current c cg found (at # ats) =
     (if at_id at = c
      then (if found then Some ''record: current attempt duplicated''
            else if cg \<noteq> None \<and> Some (at_generation at) \<noteq> cg
            then Some ''record: current attempt generation mismatch''
            else check_current c cg True ats)
      else check_current c cg found ats)"

definition check_committed :: "ExecutionRecord \<Rightarrow> string option" where
  "check_committed rec =
     (if state rec = COMMITTED \<and> committed_digest rec = None
      then Some ''record: committed state without committed digest''
      else if state rec = COMMITTED \<and> \<not> gen_is_set (commit_generation rec)
      then Some ''record: committed state without commit generation''
      else None)"

definition check_owner :: "ExecutionRecord \<Rightarrow> string option" where
  "check_owner rec =
     (if (state rec = ExecutionState.RUNNING \<or> state rec = ExecutionState.DISPATCHED
          \<or> state rec = RESUMING \<or> state rec = CANCELLATION_REQUESTED \<or> state rec = PREEMPTION_REQUESTED)
         \<and> (current_attempt_id rec = None \<or> owner_worker rec = None \<or> owner_worker_boot rec = None)
      then Some ''record: active execution must name current attempt and owner''
      else None)"

text \<open>The checks in the order of the code; the first failure is reported.\<close>

definition validate_record :: "ExecutionRecord \<Rightarrow> string option" where
  "validate_record rec =
     (if \<not> gen_is_set (generation rec) then Some ''record: execution generation must be set''
      else case check_attempts {} {} (attempts rec) of
        Some e \<Rightarrow> Some e
      | None \<Rightarrow>
        (case (case current_attempt_id rec of
                 None \<Rightarrow> None
               | Some c \<Rightarrow> check_current c (current_attempt_generation rec) False (attempts rec)) of
           Some e \<Rightarrow> Some e
         | None \<Rightarrow>
           (case check_committed rec of
              Some e \<Rightarrow> Some e
            | None \<Rightarrow> check_owner rec)))"

definition decode_record :: "u8 list \<Rightarrow> string + ExecutionRecord" where
  "decode_record bs =
     decode_fields (\<lambda>rec r.
       if \<not> rd_ok r then Inl ''record: decode error (bounds)''
       else if remaining r \<noteq> 0 then Inl ''record: trailing garbage after record''
       else case validate_record rec of Some e \<Rightarrow> Inl e | None \<Rightarrow> Inr rec) (ByteReader bs)"

section \<open>Round trip of a record\<close>

text \<open>A weak congruence: rewriting a parser must not descend into its error texts and continuation.\<close>

lemma rd_cong: "r = r' \<Longrightarrow> rd get e k r = rd get e k r'"
  by simp

lemma rd_opt_cong: "r = r' \<Longrightarrow> rd_opt get e e' k r = rd_opt get e e' k r'"
  by simp

lemma rd_exec_state_cong: "r = r' \<Longrightarrow> rd_exec_state e e' k r = rd_exec_state e e' k r'"
  by simp

lemma rd_attempt_state_cong: "r = r' \<Longrightarrow> rd_attempt_state e e' k r = rd_attempt_state e e' k r'"
  by simp

lemmas parser_congs = rd_cong rd_opt_cong rd_exec_state_cong rd_attempt_state_cong

lemma rd_exec_state_put [codec_rt]:
  "rd_exec_state e1 e2 k (ByteReader (put_u8 (ExecutionState_value s) @ rest)) = k s (ByteReader rest)"
  by (cases s) (simp_all add: rd_exec_state_def u8_codec.rd_put valid_exec_state_def ExecutionState_list_def)

lemma rd_attempt_state_put [codec_rt]:
  "rd_attempt_state e1 e2 k (ByteReader (put_u8 (AttemptState_value s) @ rest)) = k s (ByteReader rest)"
  by (cases s) (simp_all add: rd_attempt_state_def u8_codec.rd_put valid_attempt_state_def AttemptState_list_def)

text \<open>What fits the format: strings up to the reader's limit, at most \<open>2 ^ 20\<close> attempts.\<close>

definition short_opt :: "string option \<Rightarrow> bool" where
  "short_opt s \<longleftrightarrow> (case s of None \<Rightarrow> True | Some t \<Rightarrow> length t \<le> kMaxString)"

definition fits_attempt :: "AttemptRecord \<Rightarrow> bool" where
  "fits_attempt at \<longleftrightarrow> short_opt (result_payload_hex at) \<and> short_opt (failure_reason at)"

definition fits_record :: "ExecutionRecord \<Rightarrow> bool" where
  "fits_record rec \<longleftrightarrow>
     length (created_at rec) \<le> kMaxString \<and> length (committed_at rec) \<le> kMaxString \<and>
     length (attempts rec) \<le> kMaxCount \<and> list_all fits_attempt (attempts rec)"

lemma rd_opt_string_put:
  "short_opt v \<Longrightarrow> rd_opt get_string e1 e2 k (ByteReader (put_opt put_string v @ rest)) = k v (ByteReader rest)"
  by (rule rd_opt_put [OF string_codec.codec_axioms]) (simp add: short_opt_def)

lemma decode_attempt_encode:
  assumes "fits_attempt at"
  shows "decode_attempt k (ByteReader (encode_attempt at @ rest)) = k at (ByteReader rest)"
  using assms unfolding decode_attempt_def encode_attempt_def fits_attempt_def
  by (cases at) (simp add: codec_rt rd_opt_string_put cong: parser_congs)

lemma decode_attempts_encode:
  "list_all fits_attempt ats \<Longrightarrow>
   decode_attempts (length ats) acc k (ByteReader (concat (map encode_attempt ats) @ rest)) =
     k (acc @ ats) (ByteReader rest)"
  by (induction ats arbitrary: acc) (simp_all add: decode_attempt_encode)

lemma decode_fields_encode:
  assumes "fits_record rec"
  shows "decode_fields k (ByteReader (encode_record rec)) = k rec (ByteReader [])"
proof -
  have eta: "\<lparr>rec_id = rec_id rec, generation = generation rec, state = state rec,
    coordinator_epoch = coordinator_epoch rec, ownership_generation = ownership_generation rec,
    fence_generation = fence_generation rec, current_attempt_id = current_attempt_id rec,
    current_attempt_generation = current_attempt_generation rec, owner_worker = owner_worker rec,
    owner_worker_boot = owner_worker_boot rec, cancellation_generation = cancellation_generation rec,
    preemption_generation = preemption_generation rec, resume_generation = resume_generation rec,
    completion_generation = completion_generation rec, commit_generation = commit_generation rec,
    committed_digest = committed_digest rec, attempts = attempts rec, created_at = created_at rec,
    committed_at = committed_at rec\<rparr> = rec"
    by simp
  have n: "unat (word_of_nat (length (attempts rec)) :: u32) = length (attempts rec)"
    using assms by (intro unat_word_of_nat_u32) (simp add: fits_record_def kMaxCount_def kMaxVector_def)
  have last: "rd get_string e k' (ByteReader (put_string (committed_at rec))) = k' (committed_at rec) (ByteReader [])" for e k'
    using string_codec.rd_put [of "committed_at rec" e k' "[]"] assms by (simp add: fits_record_def)
  show ?thesis
    using assms unfolding decode_fields_def encode_record_def fits_record_def
    by (simp add: codec_rt n decode_attempts_encode last eta cong: parser_congs)
qed

lemma decode_record_encode:
  assumes "fits_record rec" "validate_record rec = None"
  shows "decode_record (encode_record rec) = Inr rec"
  using assms(2) unfolding decode_record_def decode_fields_encode [OF assms(1)]
  by (simp add: ByteReader_def remaining_def)

lemma decode_record_reports:
  assumes "fits_record rec" "validate_record rec = Some e"
  shows "decode_record (encode_record rec) = Inl e"
  using assms(2) unfolding decode_record_def decode_fields_encode [OF assms(1)]
  by (simp add: ByteReader_def remaining_def)

section \<open>Accepted records are valid\<close>

lemma rd_InrE:
  "rd get e k r = Inr x \<Longrightarrow> (\<And>y r'. k y r' = Inr x \<Longrightarrow> P) \<Longrightarrow> P"
  by (auto simp: rd_def split: option.splits prod.splits)

lemma rd_opt_InrE:
  "rd_opt get e e' k r = Inr x \<Longrightarrow> (\<And>y r'. k y r' = Inr x \<Longrightarrow> P) \<Longrightarrow> P"
  by (auto simp: rd_opt_def elim!: rd_InrE split: if_splits)

lemma rd_exec_state_InrE:
  "rd_exec_state e e' k r = Inr x \<Longrightarrow> (\<And>y r'. k y r' = Inr x \<Longrightarrow> P) \<Longrightarrow> P"
  by (auto simp: rd_exec_state_def elim!: rd_InrE split: if_splits)

lemma rd_attempt_state_InrE:
  "rd_attempt_state e e' k r = Inr x \<Longrightarrow> (\<And>y r'. k y r' = Inr x \<Longrightarrow> P) \<Longrightarrow> P"
  by (auto simp: rd_attempt_state_def elim!: rd_InrE split: if_splits)

lemma decode_attempt_InrE:
  "decode_attempt k r = Inr x \<Longrightarrow> (\<And>y r'. k y r' = Inr x \<Longrightarrow> P) \<Longrightarrow> P"
  unfolding decode_attempt_def
  by (elim rd_InrE rd_opt_InrE rd_exec_state_InrE rd_attempt_state_InrE) blast

lemma decode_attempts_Inr:
  "decode_attempts n acc k r = Inr x \<Longrightarrow> \<exists>y r'. k y r' = Inr x"
  by (induction n arbitrary: acc r) (auto elim: decode_attempt_InrE)

lemma decode_fields_Inr:
  assumes "decode_fields k r = Inr x"
  shows "\<exists>y r'. k y r' = Inr x"
  using assms unfolding decode_fields_def
  by (elim rd_InrE rd_opt_InrE rd_exec_state_InrE)
    (auto split: if_splits dest!: decode_attempts_Inr elim!: rd_InrE)

lemma decode_record_valid:
  assumes "decode_record bs = Inr rec"
  shows "validate_record rec = None"
  using assms unfolding decode_record_def
  by (auto dest!: decode_fields_Inr split: if_splits option.splits)

end
