(* ===== verification/Snapshot.thy ===== *)
theory Snapshot
  imports Persistence
begin

text \<open>
  \<^verbatim>\<open>FilePersistenceStore::save\<close> and \<^verbatim>\<open>load\<close> of \<^verbatim>\<open>src/persistence.cpp\<close>: the snapshot
  file and its way through the file system. The file system is a map from paths to contents; what
  an operating-system call does beyond the map (a failed open, a short write, a flush that fails when
  the file is closed, a failed rename, a failed read) is an argument, so every error path of the code
  is a value of the model. A save also yields the states the file system passes through: those are
  what the death of the process can leave. Nothing is said of the death of the machine, for which
  the code takes no care (it never syncs).
\<close>

section \<open>The snapshot file\<close>

definition kMagic :: "u8 list" where
  "kMagic = [0x45, 0x46, 0x41, 0x42, 0x53, 0x54, 0x4F, 0x52]"

definition kTrailerMagic :: "u8 list" where
  "kTrailerMagic = [0x45, 0x46, 0x54, 0x52, 0x41, 0x49, 0x4C, 0x52]"

definition kFormatVersion :: u32 where
  "kFormatVersion = 1"

definition kHeaderSize :: nat where
  "kHeaderSize = 8 + 4 + 8 + 4"

definition kTrailerSize :: nat where
  "kTrailerSize = 8 + 8"

definition kMaxRecordPayload :: nat where
  "kMaxRecordPayload = 64 * 1024 * 1024"

definition frame_record :: "ExecutionRecord \<Rightarrow> u8 list" where
  "frame_record rec =
     (let record_bytes = encode_record rec
      in put_u32 (word_of_nat (length record_bytes)) @ put_u64 (crc64 record_bytes) @ record_bytes)"

definition snapshot_body :: "ExecutionRecord list \<Rightarrow> CoordinatorEpoch \<Rightarrow> u8 list" where
  "snapshot_body records epoch =
     kMagic @ put_u32 kFormatVersion @ put_gen epoch @ put_u32 (word_of_nat (length records))
     @ concat (map frame_record records)"

definition snapshot_bytes :: "ExecutionRecord list \<Rightarrow> CoordinatorEpoch \<Rightarrow> u8 list" where
  "snapshot_bytes records epoch =
     (let body = snapshot_body records epoch
      in body @ kTrailerMagic @ put_u64 (crc64 body))"

section \<open>Loading\<close>

text \<open>
  The result of a load: the error text or the records, and the value of the \<^verbatim>\<open>epoch\<close>
  argument, which is already assigned when a later check fails.
\<close>

type_synonym load_result = "string \<times> CoordinatorEpoch + ExecutionRecord list \<times> CoordinatorEpoch"

fun load_records ::
    "CoordinatorEpoch \<Rightarrow> nat \<Rightarrow> ExecutionId set \<Rightarrow> ExecutionRecord list
     \<Rightarrow> (string \<times> CoordinatorEpoch, ExecutionRecord list \<times> CoordinatorEpoch) parser" where
  "load_records ep 0 exec_ids recs r =
     (if remaining r \<noteq> 0 then Inl (''load: trailing garbage after declared records'', ep) else Inr (recs, ep))"
| "load_records ep (Suc n) exec_ids recs r =
     rd get_u32 (''load: truncated record length'', ep) (\<lambda>len r.
       if len = 0 \<or> unat len > kMaxRecordPayload then Inl (''load: invalid record length'', ep)
       else if remaining r < unat (len + 8)
       then Inl (''load: record length exceeds file (truncated)'', ep)
       else rd get_u64 (''load: truncated record crc'', ep) (\<lambda>crc r.
         let payload = take (unat len) (rd_rest r) in
         if crc64 payload \<noteq> crc then Inl (''load: record crc mismatch (corrupt)'', ep)
         else case decode_record payload of
           Inl err \<Rightarrow> Inl (''load: malformed record ('' @ err @ '')'', ep)
         | Inr rec \<Rightarrow>
             if rec_id rec \<in> exec_ids then Inl (''load: duplicate execution identity'', ep)
             else rd (reader_skip (unat len)) (''load: record read failed'', ep)
                    (\<lambda>_. load_records ep n (insert (rec_id rec) exec_ids) (recs @ [rec])) r) r) r"

definition load_body :: "CoordinatorEpoch \<Rightarrow> u8 list \<Rightarrow> load_result" where
  "load_body epoch body =
     rd (get_bytes 8) (''load: truncated header'', epoch) (\<lambda>magic r.
     if magic \<noteq> kMagic then Inl (''load: header magic mismatch'', epoch) else
     rd get_u32 (''load: truncated version'', epoch) (\<lambda>version r.
     if version \<noteq> kFormatVersion then Inl (''load: unsupported format version'', epoch) else
     rd get_gen (''load: truncated epoch'', epoch) (\<lambda>ep.
     rd get_u32 (''load: truncated count'', ep) (\<lambda>count r.
     if unat count > kMaxCount then Inl (''load: record count too large'', ep)
     else load_records ep (unat count) {} [] r)) r) r) (ByteReader body)"

definition load_bytes :: "CoordinatorEpoch \<Rightarrow> u8 list \<Rightarrow> load_result" where
  "load_bytes epoch bytes =
     (if length bytes < kHeaderSize + kTrailerSize then Inl (''load: file too short (truncated)'', epoch)
      else let tr_start = length bytes - kTrailerSize in
        if take 8 (drop tr_start bytes) \<noteq> kTrailerMagic
        then Inl (''load: trailer magic mismatch (corrupt/truncated)'', epoch)
        else rd get_u64 (''load: trailer crc unreadable'', epoch) (\<lambda>stored_crc _.
               if stored_crc \<noteq> crc64 (take tr_start bytes)
               then Inl (''load: whole-file crc mismatch (corrupt)'', epoch)
               else load_body epoch (take tr_start bytes)) (ByteReader (drop (tr_start + 8) bytes)))"

section \<open>The file system\<close>

type_synonym fs = "string \<rightharpoonup> u8 list"

text \<open>The states the file system passes through, the latest first.\<close>

type_synonym disk = "fs list"

text \<open>
  What the operating system does with the calls of one save. \<open>Write_stops n\<close>: the stream notices in
  \<^verbatim>\<open>write\<close> that only \<open>n\<close> bytes could be stored. \<open>Flush_stops n\<close>: \<^verbatim>\<open>write\<close> has buffered
  the rest and the stream is still good, but closing it, after \<^verbatim>\<open>good\<close> was asked, stores only \<open>n\<close> bytes.
\<close>

datatype write_outcome = Open_fails | Write_stops nat | Flush_stops nat | Write_succeeds

record io_outcome =
  io_write :: write_outcome
  io_remove_error :: bool
  io_rename_error :: bool

text \<open>The file is truncated and then grows.\<close>

definition fill_file :: "string \<Rightarrow> u8 list \<Rightarrow> disk \<Rightarrow> disk" where
  "fill_file path data d = rev (map (\<lambda>n. (hd d)(path \<mapsto> take n data)) [0..<Suc (length data)]) @ d"

definition write_all :: "write_outcome \<Rightarrow> string \<Rightarrow> u8 list \<Rightarrow> disk \<Rightarrow> bool \<times> disk" where
  "write_all out path data d =
     (case out of
        Open_fails \<Rightarrow> (False, d)
      | Write_stops n \<Rightarrow> (False, fill_file path (take n data) d)
      | Flush_stops n \<Rightarrow> (True, fill_file path (take n data) d)
      | Write_succeeds \<Rightarrow> (True, fill_file path data d))"

text \<open>
  The POSIX branch: \<^verbatim>\<open>remove\<close> the target (a missing target is no error), then
  \<^verbatim>\<open>rename\<close>.
\<close>

definition remove_target :: "string \<Rightarrow> disk \<Rightarrow> disk" where
  "remove_target dest d = (hd d)(dest := None) # d"

definition replace_file :: "io_outcome \<Rightarrow> string \<Rightarrow> string \<Rightarrow> disk \<Rightarrow> bool \<times> disk" where
  "replace_file io tmp dest d =
     (if io_remove_error io then (False, d)
      else let d = remove_target dest d in
        if io_rename_error io then (False, d)
        else (True, (hd d)(dest := hd d tmp, tmp := None) # d))"

text \<open>Reading a file: its opening, the query of its size and the read can fail, also when it is there.\<close>

datatype read_outcome = Read_open_fails | Size_fails | Read_fails | Read_succeeds

definition read_all :: "read_outcome \<Rightarrow> string \<Rightarrow> fs \<Rightarrow> u8 list option" where
  "read_all ro path fs =
     (case fs path of
        None \<Rightarrow> None
      | Some bytes \<Rightarrow>
          if ro = Read_open_fails \<or> ro = Size_fails then None
          else if bytes = [] then Some []
          else if ro = Read_fails then None else Some bytes)"

record file_store =
  path :: string
  last_error :: string

definition FilePersistenceStore :: "string \<Rightarrow> file_store" where
  "FilePersistenceStore p = \<lparr>path = p, last_error = []\<rparr>"

definition save_run ::
    "io_outcome \<Rightarrow> ExecutionRecord list \<Rightarrow> CoordinatorEpoch \<Rightarrow> file_store \<Rightarrow> disk \<Rightarrow> bool \<times> file_store \<times> disk" where
  "save_run io records epoch st d =
     (let out = snapshot_bytes records epoch;
          tmp = path st @ ''.tmp'';
          (ok, d) = write_all (io_write io) tmp out d
      in if \<not> ok then (False, st\<lparr>last_error := ''save: failed to write temporary file''\<rparr>, d)
         else let (ok, d) = replace_file io tmp (path st) d in
           if \<not> ok then (False, st\<lparr>last_error := ''save: failed to atomically replace target''\<rparr>, d)
           else (True, st\<lparr>last_error := []\<rparr>, d))"

text \<open>The save as its caller sees it, and the states that its process can die in.\<close>

definition save ::
    "io_outcome \<Rightarrow> ExecutionRecord list \<Rightarrow> CoordinatorEpoch \<Rightarrow> file_store \<Rightarrow> fs \<Rightarrow> bool \<times> file_store \<times> fs" where
  "save io records epoch st fs =
     (case save_run io records epoch st [fs] of (ok, st, d) \<Rightarrow> (ok, st, hd d))"

definition save_states ::
    "io_outcome \<Rightarrow> ExecutionRecord list \<Rightarrow> CoordinatorEpoch \<Rightarrow> file_store \<Rightarrow> fs \<Rightarrow> fs set" where
  "save_states io records epoch st fs = (case save_run io records epoch st [fs] of (ok, st, d) \<Rightarrow> set d)"

definition load ::
    "read_outcome \<Rightarrow> CoordinatorEpoch \<Rightarrow> file_store \<Rightarrow> fs
     \<Rightarrow> bool \<times> ExecutionRecord list \<times> CoordinatorEpoch \<times> file_store" where
  "load ro epoch st fs =
     (case read_all ro (path st) fs of
        None \<Rightarrow> (False, [], epoch, st\<lparr>last_error := ''load: cannot read file (missing?)''\<rparr>)
      | Some bytes \<Rightarrow>
          (case load_bytes epoch bytes of
             Inl (e, ep) \<Rightarrow> (False, [], ep, st\<lparr>last_error := e\<rparr>)
           | Inr (recs, ep) \<Rightarrow> (True, recs, ep, st\<lparr>last_error := []\<rparr>)))"

section \<open>Round trip of a snapshot\<close>

definition storable :: "ExecutionRecord \<Rightarrow> bool" where
  "storable rec \<longleftrightarrow>
     fits_record rec \<and> validate_record rec = None \<and> length (encode_record rec) \<le> kMaxRecordPayload"

lemma encode_record_nonempty: "0 < length (encode_record rec)"
  by (simp add: encode_record_def)

lemma length_kMagic [simp]: "length kMagic = 8" "length kTrailerMagic = 8"
  by (simp_all add: kMagic_def kTrailerMagic_def)

lemma skip_payload: "length bs = n \<Longrightarrow> rd (reader_skip n) e k (ByteReader (bs @ rest)) = k () (ByteReader rest)"
  by (simp add: rd_def reader_skip_def map_read_def)

lemma payload_length:
  assumes "length bs \<le> kMaxRecordPayload"
  shows "unat (word_of_nat (length bs) :: u32) = length bs"
    and "unat (word_of_nat (length bs) + 8 :: u32) = length bs + 8"
proof -
  have small: "length bs + 8 < 2 ^ 32" using assms by (simp add: kMaxRecordPayload_def)
  then show "unat (word_of_nat (length bs) :: u32) = length bs"
    by (simp add: unsigned_of_nat take_bit_nat_eq_self)
  have "(word_of_nat (length bs) + 8 :: u32) = word_of_nat (length bs + 8)" by simp
  then show "unat (word_of_nat (length bs) + 8 :: u32) = length bs + 8"
    using small by (simp only: unsigned_of_nat) (simp add: take_bit_nat_eq_self)
qed

lemma load_frame:
  assumes "storable rec" "rec_id rec \<notin> ids"
  shows "load_records ep (Suc n) ids recs (ByteReader (frame_record rec @ rest)) =
     load_records ep n (insert (rec_id rec) ids) (recs @ [rec]) (ByteReader rest)"
proof -
  have enc: "decode_record (encode_record rec) = Inr rec"
    using assms(1) by (intro decode_record_encode) (simp_all add: storable_def)
  have len: "unat (word_of_nat (length (encode_record rec)) :: u32) = length (encode_record rec)"
      "unat (word_of_nat (length (encode_record rec)) + 8 :: u32) = length (encode_record rec) + 8"
    using assms(1) by (simp_all only: payload_length storable_def)
  have "(word_of_nat (length (encode_record rec)) :: u32) \<noteq> 0"
    using len(1) encode_record_nonempty [of rec] by (metis less_irrefl unat_0)
  moreover have "length (encode_record rec) \<le> kMaxRecordPayload" using assms(1) by (simp add: storable_def)
  ultimately show ?thesis
    using assms(2) by (simp add: frame_record_def Let_def codec_rt len enc skip_payload cong: rd_cong)
qed

lemma load_frames:
  "list_all storable records \<Longrightarrow> distinct (map rec_id records) \<Longrightarrow> rec_id ` set records \<inter> ids = {} \<Longrightarrow>
   load_records ep (length records) ids recs (ByteReader (concat (map frame_record records))) = Inr (recs @ records, ep)"
proof (induction records arbitrary: ids recs)
  case (Cons rec records)
  then have "rec_id rec \<notin> ids" "rec_id ` set records \<inter> insert (rec_id rec) ids = {}" by auto
  then show ?case using Cons load_frame [of rec ids ep "length records" recs] by simp
qed simp

lemma rd_magic: "rd (get_bytes 8) e k (ByteReader (kMagic @ rest)) = k kMagic (ByteReader rest)"
  by (simp add: rd_def)

lemma rd_u64_last: "rd get_u64 e k (ByteReader (put_u64 v)) = k v (ByteReader [])"
  using u64_codec.rd_put [where x = v and rest = "[]"] by simp

lemma load_body_snapshot:
  assumes "list_all storable records" "distinct (map rec_id records)" "length records \<le> kMaxCount"
  shows "load_body epoch0 (snapshot_body records epoch) = Inr (records, epoch)"
proof -
  have n: "unat (word_of_nat (length records) :: u32) = length records"
    using assms(3) by (intro unat_word_of_nat_u32) (simp add: kMaxCount_def kMaxVector_def)
  show ?thesis
    using load_frames [OF assms(1,2), of "{}" epoch "[]"] assms(3)
    by (simp add: load_body_def snapshot_body_def rd_magic codec_rt n cong: rd_cong)
qed

lemma load_bytes_snapshot:
  assumes "list_all storable records" "distinct (map rec_id records)" "length records \<le> kMaxCount"
  shows "load_bytes epoch0 (snapshot_bytes records epoch) = Inr (records, epoch)"
proof -
  have "kHeaderSize \<le> length (snapshot_body records epoch)" by (simp add: snapshot_body_def kHeaderSize_def)
  then show ?thesis using load_body_snapshot [OF assms]
    by (simp add: load_bytes_def snapshot_bytes_def Let_def kTrailerSize_def rd_u64_last)
qed

section \<open>Corruption of a single byte\<close>

text \<open>Every single-byte change of a snapshot is reported by the trailer checks.\<close>

lemma load_bytes_changed:
  assumes i: "i < length (snapshot_bytes records epoch)" and b: "b \<noteq> snapshot_bytes records epoch ! i"
  shows "\<exists>e. load_bytes epoch0 ((snapshot_bytes records epoch)[i := b]) = Inl e"
proof -
  let ?body = "snapshot_body records epoch"
  let ?n = "length ?body"
  have n: "kHeaderSize \<le> ?n" by (simp add: snapshot_body_def kHeaderSize_def)
  have bytes: "snapshot_bytes records epoch = ?body @ kTrailerMagic @ put_u64 (crc64 ?body)"
    by (simp add: snapshot_bytes_def Let_def)
  have "i < ?n + 16" using i by (simp add: bytes)
  then consider (body) "i < ?n" | (magic) "?n \<le> i" "i < ?n + 8" | (crc) "?n + 8 \<le> i" "i < ?n + 16"
    by linarith
  then show ?thesis
  proof cases
    case body
    then have "crc64 (?body[i := b]) \<noteq> crc64 ?body" using b by (intro crc64_single_byte) (simp_all add: bytes nth_append)
    then show ?thesis using body n
      by (simp add: load_bytes_def bytes list_update_append kTrailerSize_def Let_def rd_u64_last)
  next
    case magic
    then have "kTrailerMagic[i - ?n := b] \<noteq> kTrailerMagic"
      using b by (metis (no_types) add_diff_inverse_nat bytes length_kMagic(2) nat_add_left_cancel_less not_less nth_append
          nth_append_length_plus nth_list_update_eq)
    moreover have "i - ?n < 8" using magic by linarith
    ultimately show ?thesis using magic n
      by (simp add: load_bytes_def bytes list_update_append kTrailerSize_def Let_def)
  next
    case crc
    let ?j = "i - ?n - 8"
    have ge: "\<not> i < ?n" "\<not> i - ?n < 8" using crc by linarith+
    have j: "?j < 8" using crc by linarith
    have "b \<noteq> put_u64 (crc64 ?body) ! ?j" using b ge by (simp add: bytes nth_append)
    note j = j this
    obtain v' where "v' \<noteq> crc64 ?body" "get_u64 (ByteReader ((put_u64 (crc64 ?body))[?j := b])) = (Some v', ByteReader [])"
      using get_u64_changed [OF j] by metis
    then show ?thesis using crc ge n
      by (simp add: rd_def load_bytes_def bytes list_update_append kTrailerSize_def Let_def)
  qed
qed

section \<open>The contract of a persistence store\<close>

text \<open>
  \<^verbatim>\<open>IPersistenceStore\<close>: what was saved successfully is what the next load returns, and a load
  without success returns no records. Clients of the store rely on these two laws only.
\<close>

locale persistence_store =
  fixes store_save :: "ExecutionRecord list \<Rightarrow> CoordinatorEpoch \<Rightarrow> 's \<Rightarrow> bool \<times> 's"
    and store_load :: "CoordinatorEpoch \<Rightarrow> 's \<Rightarrow> bool \<times> ExecutionRecord list \<times> CoordinatorEpoch"
    and storable_list :: "ExecutionRecord list \<Rightarrow> bool"
  assumes saved_is_loaded:
      "storable_list rs \<Longrightarrow> store_save rs ep s = (True, s') \<Longrightarrow> store_load ep0 s' = (True, rs, ep)"
    and failed_load_is_empty: "store_load ep0 s = (False, rs, ep) \<Longrightarrow> rs = []"
begin

text \<open>Two loads of the same saved state agree, whatever epoch the caller passed in.\<close>

lemma loads_agree:
  "storable_list rs \<Longrightarrow> store_save rs ep s = (True, s') \<Longrightarrow> store_load e1 s' = store_load e2 s'"
  by (simp add: saved_is_loaded)

text \<open>The last successful save wins.\<close>

lemma last_save_wins:
  assumes "storable_list rs2" "store_save rs1 ep1 s = (True, s1)" "store_save rs2 ep2 s1 = (True, s2)"
  shows "store_load ep0 s2 = (True, rs2, ep2)"
  using assms by (simp add: saved_is_loaded)

end

definition storable_records :: "ExecutionRecord list \<Rightarrow> bool" where
  "storable_records rs \<longleftrightarrow> list_all storable rs \<and> distinct (map rec_id rs) \<and> length rs \<le> kMaxCount"

text \<open>No buffered byte is lost when the file is closed.\<close>

definition flushed :: "io_outcome \<Rightarrow> bool" where
  "flushed io \<longleftrightarrow> (case io_write io of Flush_stops n \<Rightarrow> False | _ \<Rightarrow> True)"

definition file_save ::
    "io_outcome \<Rightarrow> ExecutionRecord list \<Rightarrow> CoordinatorEpoch \<Rightarrow> file_store \<times> fs \<Rightarrow> bool \<times> file_store \<times> fs" where
  "file_save io rs ep s = save io rs ep (fst s) (snd s)"

definition file_load ::
    "CoordinatorEpoch \<Rightarrow> file_store \<times> fs \<Rightarrow> bool \<times> ExecutionRecord list \<times> CoordinatorEpoch" where
  "file_load ep0 s = (case load Read_succeeds ep0 (fst s) (snd s) of (ok, rs, ep, st) \<Rightarrow> (ok, rs, ep))"

lemma fill_file_disk:
  "hd (fill_file p data d) = (hd d)(p \<mapsto> data)" "set (fill_file p data d) = (\<lambda>n. (hd d)(p \<mapsto> take n data)) ` {..length data} \<union> set d"
  and fill_file_not_empty [simp]: "fill_file p data d \<noteq> []"
  by (simp_all add: fill_file_def) (auto simp: atMost_Suc_eq_insert_0 lessThan_Suc_atMost [symmetric] atLeast0LessThan lessThan_Suc)

lemmas save_eval = save_def save_run_def write_all_def replace_file_def remove_target_def fill_file_disk Let_def

lemma save_success:
  assumes "save io rs ep st fs = (True, st', fs')" "flushed io"
  shows "st' = st\<lparr>last_error := []\<rparr>" and "fs' (path st) = Some (snapshot_bytes rs ep)"
  using assms by (auto simp: save_eval flushed_def split: write_outcome.splits if_splits)

lemma snapshot_not_empty [simp]: "snapshot_bytes rs ep \<noteq> []"
  by (simp add: snapshot_bytes_def snapshot_body_def kMagic_def Let_def)

lemma read_all_snapshot [simp]:
  "fs p = Some (snapshot_bytes rs ep) \<Longrightarrow> read_all ro p fs = (if ro = Read_succeeds then Some (snapshot_bytes rs ep) else None)"
  by (cases ro) (simp_all add: read_all_def)

text \<open>A save whose bytes were flushed is loaded whatever the outcome of the other calls of the save was.\<close>

interpretation file_persistence: persistence_store "file_save io" file_load "\<lambda>rs. flushed io \<and> storable_records rs"
proof
  fix rs ep s s' ep0
  assume rs: "flushed io \<and> storable_records rs" and sv: "file_save io rs ep s = (True, s')"
  obtain st' fs' where s': "s' = (st', fs')" by (cases s')
  with sv have "save io rs ep (fst s) (snd s) = (True, st', fs')" by (simp add: file_save_def)
  from save_success [OF this] rs
  have "path st' = path (fst s)" "fs' (path (fst s)) = Some (snapshot_bytes rs ep)" by simp_all
  then show "file_load ep0 s' = (True, rs, ep)"
    using rs load_bytes_snapshot [of rs ep0 ep] by (simp add: file_load_def load_def s' storable_records_def)
next
  fix ep0 s rs ep
  assume "file_load ep0 s = (False, rs, ep)"
  then show "rs = []" by (auto simp: file_load_def load_def split: option.splits sum.splits prod.splits)
qed

section \<open>The states of a save\<close>

text \<open>
  The target holds its old content or the complete new snapshot; or it is missing, between remove and
  rename, and then the complete new snapshot is in the temporary file.
\<close>

lemma save_state_target:
  assumes "fs' \<in> save_states io rs ep st fs" "flushed io"
  shows "fs' (path st) = fs (path st) \<or> fs' (path st) = Some (snapshot_bytes rs ep) \<or>
    (fs' (path st) = None \<and> fs' (path st @ ''.tmp'') = Some (snapshot_bytes rs ep))"
proof -
  let ?tmp = "path st @ ''.tmp''" and ?out = "snapshot_bytes rs ep"
  have keep: "f (path st) = fs (path st)" if "f \<in> set (fill_file ?tmp data [fs])" for f data
    using that by (auto simp: fill_file_disk)
  have hd: "hd (fill_file ?tmp ?out [fs]) = fs(?tmp \<mapsto> ?out)" by (simp add: fill_file_disk)
  show ?thesis
  proof (cases "io_write io")
    case Write_succeeds
    then consider "fs' \<in> set (fill_file ?tmp ?out [fs])" | "fs' = fs(?tmp \<mapsto> ?out, path st := None)"
      | "fs' = fs(?tmp \<mapsto> ?out, path st \<mapsto> ?out, ?tmp := None)"
      using assms(1) by (auto simp: save_states_def save_run_def write_all_def replace_file_def remove_target_def hd Let_def fun_upd_twist
          split: if_splits)
    then show ?thesis using keep by cases auto
  next
    case Open_fails
    then show ?thesis using assms(1) by (simp add: save_states_def save_run_def write_all_def Let_def)
  next
    case (Write_stops n)
    then show ?thesis using assms(1) keep by (auto simp: save_states_def save_run_def write_all_def Let_def)
  next
    case (Flush_stops n)
    then show ?thesis using assms(2) by (simp add: flushed_def)
  qed
qed

lemma save_final_state:
  assumes "save io rs ep st fs = (ok, st', fs')"
  shows "fs' \<in> save_states io rs ep st fs"
proof -
  obtain d where d: "save_run io rs ep st [fs] = (ok, st', d)" "fs' = hd d"
    using assms by (auto simp: save_def split: prod.splits)
  then have "d \<noteq> []" by (auto simp: save_run_def write_all_def replace_file_def remove_target_def Let_def split: write_outcome.splits if_splits)
  then show ?thesis using d by (simp add: save_states_def)
qed

lemma save_keeps_path: "save io rs ep st fs = (ok, st', fs') \<Longrightarrow> path st' = path st"
  by (auto simp: save_eval split: write_outcome.splits if_splits)

text \<open>A save that does not get as far as a failed rename leaves a snapshot where there was one.\<close>

lemma save_keeps_target:
  assumes "save io rs ep st fs = (ok, st', fs')" "flushed io" "\<not> io_rename_error io"
  shows "fs' (path st) = fs (path st) \<or> fs' (path st) = Some (snapshot_bytes rs ep)"
  using assms by (auto simp: save_eval flushed_def split: write_outcome.splits if_splits)

text \<open>A save whose last bytes are lost at the close reports success all the same.\<close>

lemma save_unflushed:
  assumes "io_write io = Flush_stops n" "\<not> io_remove_error io" "\<not> io_rename_error io"
  shows "\<exists>fs'. save io rs ep st fs = (True, st\<lparr>last_error := []\<rparr>, fs') \<and> fs' (path st) = Some (take n (snapshot_bytes rs ep))"
  using assms by (simp add: save_eval)

end
