(* ===== verification/Engine.thy ===== *)
theory Engine
  imports Decision
begin

text \<open>
  \<^verbatim>\<open>src/engine.cpp\<close> and \<^verbatim>\<open>include/execution_fabric/engine.hpp\<close>: the pure
  authority-decision component. An engine holds the coordinator epoch and the record of every
  logical execution; each operation returns a decision and the new engine. Where the C++ works on
  \<^verbatim>\<open>ExecutionRecord& rec\<close> after the lookup, the body is a function \<open>*_rec\<close> on the record,
  and the operation of the class stores the result back.

  The hash map \<^verbatim>\<open>records_\<close> is an association list; its order stands for the unspecified
  iteration order of \<^verbatim>\<open>std::unordered_map\<close>. The draws of \<^verbatim>\<open>Uuid::random\<close> and the
  rendered clock of \<^verbatim>\<open>now_str\<close> are arguments of the operations that read them.
\<close>

section \<open>Decisions about a record\<close>

definition mk_decision :: "DecisionCode \<Rightarrow> string \<Rightarrow> Decision" where
  "mk_decision c r = Decision_init\<lparr>code := c, reason := r\<rparr>"

definition fill_context :: "Decision \<Rightarrow> ExecutionRecord \<Rightarrow> Decision" where
  "fill_context d rec =
     d\<lparr>d_execution_id := Some (rec_id rec),
       d_execution_generation := Some (generation rec),
       d_coordinator_epoch := Some (coordinator_epoch rec),
       d_ownership_generation := Some (ownership_generation rec),
       d_fence_generation := Some (fence_generation rec),
       d_attempt_id := (case current_attempt_id rec of None \<Rightarrow> d_attempt_id d | Some a \<Rightarrow> Some a),
       d_attempt_generation :=
         (case current_attempt_generation rec of None \<Rightarrow> d_attempt_generation d | Some g \<Rightarrow> Some g),
       d_worker_id := (case owner_worker rec of None \<Rightarrow> d_worker_id d | Some w \<Rightarrow> Some w),
       d_worker_boot_id :=
         (case owner_worker_boot rec of None \<Rightarrow> d_worker_boot_id d | Some b \<Rightarrow> Some b)\<rparr>"

text \<open>The recurring \<^verbatim>\<open>Decision d; d.code = ...; d.reason = ...; fill_context(d, rec);\<close>.\<close>

definition decide :: "ExecutionRecord \<Rightarrow> DecisionCode \<Rightarrow> string \<Rightarrow> Decision" where
  "decide rec c r = fill_context (mk_decision c r) rec"

section \<open>Guarded transitions\<close>

definition transition :: "ExecutionRecord \<Rightarrow> ExecutionState \<Rightarrow> Decision \<times> ExecutionRecord" where
  "transition rec to =
     (if \<not> ExecutionStateMachine_from (state rec) to
      then (decide rec REJECT_ALREADY_TERMINAL
              (''invalid execution state transition '' @ ExecutionState_to_string (state rec)
               @ '' -> '' @ ExecutionState_to_string to), rec)
      else let rec = rec\<lparr>state := to\<rparr>
           in (decide rec ALLOW (''execution transitioned '' @ ExecutionState_to_string to), rec))"

definition transition_attempt :: "AttemptRecord \<Rightarrow> AttemptState \<Rightarrow> Decision \<times> AttemptRecord" where
  "transition_attempt at to =
     (if \<not> AttemptStateMachine_from (at_state at) to
      then (mk_decision REJECT_NO_CURRENT_ATTEMPT
              (''invalid attempt state transition '' @ AttemptState_to_string (at_state at)
               @ '' -> '' @ AttemptState_to_string to), at)
      else (mk_decision ALLOW (''attempt transitioned '' @ AttemptState_to_string to),
            at\<lparr>at_state := to\<rparr>))"

section \<open>Loops over the attempt history\<close>

text \<open>
  The range-for loops of the engine over \<^verbatim>\<open>rec.attempts\<close>. A loop that breaks after its
  match is \<open>update_first\<close>, one that does not is \<open>map\<close>; the comparison of an id with an empty
  optional is false. The decision of \<^verbatim>\<open>transition_attempt\<close> is dropped, as in the code.
\<close>

text \<open>\<^verbatim>\<open>dispatch\<close>: supersede the current attempt unless it is terminal.\<close>

definition supersede_attempt :: "AttemptId \<Rightarrow> AttemptRecord list \<Rightarrow> AttemptRecord list" where
  "supersede_attempt cur =
     update_first (\<lambda>at. at_id at = cur \<and> \<not> AttemptStateMachine_is_terminal (at_state at))
       (\<lambda>at. snd (transition_attempt at AttemptState.SUPERSEDED))"

text \<open>\<^verbatim>\<open>mark_running\<close> and \<^verbatim>\<open>complete\<close>: the first attempt with the ticket's id.\<close>

definition start_attempt :: "AttemptId \<Rightarrow> AttemptRecord list \<Rightarrow> AttemptRecord list" where
  "start_attempt a =
     update_first (\<lambda>at. at_id at = a) (\<lambda>at. snd (transition_attempt at AttemptState.RUNNING))"

definition complete_attempt :: "AttemptId \<Rightarrow> ResultDigest \<Rightarrow> AttemptRecord list \<Rightarrow> AttemptRecord list" where
  "complete_attempt a dg =
     update_first (\<lambda>at. at_id at = a)
       (\<lambda>at. (snd (transition_attempt at AttemptState.COMPLETED))\<lparr>result_digest := Some dg\<rparr>)"

text \<open>
  \<^verbatim>\<open>finalize_cancel\<close>, \<^verbatim>\<open>acknowledge_preempt\<close> and \<^verbatim>\<open>supersede\<close>: every non-terminal attempt
  with the current id.
\<close>

definition mark_current :: "AttemptState \<Rightarrow> AttemptId option \<Rightarrow> AttemptRecord list \<Rightarrow> AttemptRecord list" where
  "mark_current to cur =
     map (\<lambda>at. if Some (at_id at) = cur \<and> \<not> AttemptStateMachine_is_terminal (at_state at)
               then snd (transition_attempt at to) else at)"

text \<open>\<^verbatim>\<open>resume\<close>: the first preempted attempt with the current id.\<close>

definition supersede_preempted :: "AttemptId option \<Rightarrow> AttemptRecord list \<Rightarrow> AttemptRecord list" where
  "supersede_preempted cur =
     update_first (\<lambda>at. Some (at_id at) = cur \<and> at_state at = AttemptState.PREEMPTED)
       (\<lambda>at. snd (transition_attempt at AttemptState.SUPERSEDED))"

text \<open>\<^verbatim>\<open>mark_worker_lost\<close>: every attempt with the current id.\<close>

definition lose_current :: "AttemptId option \<Rightarrow> AttemptRecord list \<Rightarrow> AttemptRecord list" where
  "lose_current cur =
     map (\<lambda>at. if Some (at_id at) = cur then snd (transition_attempt at LOST) else at)"

section \<open>Create and activate\<close>

definition created_record :: "ExecutionId \<Rightarrow> CoordinatorEpoch \<Rightarrow> string \<Rightarrow> ExecutionRecord" where
  "created_record i e now =
     ExecutionRecord_init\<lparr>rec_id := i, generation := Gen 1, state := ExecutionState.CREATED,
       coordinator_epoch := e, created_at := now\<rparr>"

definition activate_rec :: "ExecutionRecord \<Rightarrow> Decision \<times> ExecutionRecord" where
  "activate_rec rec =
     (if state rec \<noteq> ExecutionState.CREATED
      then (decide rec REJECT_ALREADY_TERMINAL ''activate rejected: execution is not in CREATED state'', rec)
      else transition (rec\<lparr>ownership_generation := Gen 1, fence_generation := Gen 1\<rparr>) READY)"

section \<open>Dispatch\<close>

text \<open>The state checks of \<^verbatim>\<open>dispatch\<close>, in order; \<open>None\<close> when a new attempt may be built.\<close>

definition dispatch_refusal :: "ExecutionRecord \<Rightarrow> Decision option" where
  "dispatch_refusal rec =
     (let s = state rec in
      if s = COMMITTED
      then Some (decide rec REJECT_ALREADY_COMMITTED ''dispatch rejected: execution already committed'')
      else if s = ExecutionState.CANCELLED
      then Some (decide rec REJECT_CANCELLED ''dispatch rejected: execution is cancelled'')
      else if s = ExecutionState.FAILED \<or> s = ExecutionState.SUPERSEDED \<or> s = ExecutionState.TERMINAL
      then Some (decide rec REJECT_ALREADY_TERMINAL ''dispatch rejected: execution is terminal'')
      else if s = ExecutionState.PREEMPTED \<or> s = RESUMABLE
      then Some (decide rec REJECT_PREEMPTED
             ''dispatch rejected: execution is preempted; it must be resumed, not re-dispatched'')
      else if s = CANCELLATION_REQUESTED \<or> s = PREEMPTION_REQUESTED
      then Some (decide rec DEFER ''dispatch deferred: control operation in flight'')
      else if s = ExecutionState.COMPLETED
      then Some (decide rec REJECT_ALREADY_COMMITTED ''dispatch rejected: execution already completed'')
      else if \<not> (s = READY \<or> s = ExecutionState.DISPATCHED \<or> s = ExecutionState.RUNNING
                 \<or> s = AMBIGUOUS \<or> s = RESUMING)
      then Some (decide rec REJECT_NOT_OWNER ''dispatch rejected: execution not in a dispatchable state'')
      else None)"

text \<open>Building and installing the new attempt; \<^verbatim>\<open>dispatch\<close> and \<^verbatim>\<open>resume\<close> share the code.\<close>

definition new_attempt ::
    "ExecutionRecord \<Rightarrow> WorkerId \<Rightarrow> WorkerBootId \<Rightarrow> draws \<Rightarrow> draws \<Rightarrow> AttemptRecord" where
  "new_attempt rec worker boot ra rd =
     AttemptRecord_init
       \<lparr>at_id := id_random ra,
        at_generation := (case current_attempt_generation rec of Some g \<Rightarrow> gen_next g | None \<Rightarrow> Gen 1),
        at_worker_id := worker,
        at_worker_boot_id := boot,
        at_dispatch_id := id_random rd,
        at_dispatch_generation := Gen 1,
        at_ownership_generation := gen_next (ownership_generation rec),
        at_fence_generation := gen_next (fence_generation rec),
        execution_state_at_dispatch := state rec,
        at_state := AttemptState.DISPATCHED\<rparr>"

definition install_attempt :: "AttemptRecord \<Rightarrow> ExecutionRecord \<Rightarrow> ExecutionRecord" where
  "install_attempt at rec =
     rec\<lparr>current_attempt_id := Some (at_id at),
         current_attempt_generation := Some (at_generation at),
         owner_worker := Some (at_worker_id at),
         owner_worker_boot := Some (at_worker_boot_id at),
         ownership_generation := at_ownership_generation at,
         fence_generation := at_fence_generation at,
         attempts := attempts rec @ [at]\<rparr>"

definition issue_ticket :: "CoordinatorEpoch \<Rightarrow> ExecutionRecord \<Rightarrow> AttemptRecord \<Rightarrow> DispatchTicket" where
  "issue_ticket ep rec made =
     \<lparr>dt_execution_id = rec_id rec, dt_execution_generation = generation rec,
      dt_attempt_id = at_id made, dt_attempt_generation = at_generation made,
      dt_worker_id = at_worker_id made, dt_worker_boot_id = at_worker_boot_id made,
      dt_epoch = ep, dt_dispatch_id = at_dispatch_id made,
      dt_dispatch_generation = at_dispatch_generation made,
      dt_ownership_generation = at_ownership_generation made,
      dt_fence_generation = at_fence_generation made\<rparr>"

definition supersede_current :: "ExecutionRecord \<Rightarrow> ExecutionRecord" where
  "supersede_current rec =
     (case current_attempt_id rec of
        None \<Rightarrow> rec
      | Some cur \<Rightarrow> rec\<lparr>attempts := supersede_attempt cur (attempts rec)\<rparr>)"

definition dispatch_rec ::
    "CoordinatorEpoch \<Rightarrow> WorkerId \<Rightarrow> WorkerBootId \<Rightarrow> draws \<Rightarrow> draws \<Rightarrow> DispatchTicket
     \<Rightarrow> ExecutionRecord \<Rightarrow> Decision \<times> DispatchTicket \<times> ExecutionRecord" where
  "dispatch_rec ep worker boot ra rd out_ticket rec =
     (case dispatch_refusal rec of
        Some d \<Rightarrow> (d, out_ticket, rec)
      | None \<Rightarrow>
          let rec = supersede_current rec;
              at = new_attempt rec worker boot ra rd;
              rec = install_attempt at rec;
              (tr, rec) = transition rec ExecutionState.DISPATCHED
          in if code tr \<noteq> ALLOW then (tr, out_ticket, rec)
             else let made = last (attempts rec)
                  in (decide rec ALLOW
                        (''dispatch authorised: attempt supersedes prior authority; attempt generation ''
                         @ std_to_string (gen_value (at_generation made))),
                      issue_ticket ep rec made, rec))"

section \<open>Start of an attempt\<close>

definition validate_start :: "CoordinatorEpoch \<Rightarrow> ExecutionRecord \<Rightarrow> StartTicket \<Rightarrow> Decision" where
  "validate_start ep rec t =
     (if st_epoch t \<noteq> ep
      then mk_decision REJECT_STALE_EPOCH ''start rejected: stale coordinator epoch''
      else if st_execution_generation t \<noteq> generation rec
      then mk_decision REJECT_STALE_GENERATION ''start rejected: execution generation mismatch''
      else if current_attempt_id rec = None \<or> current_attempt_generation rec = None
      then mk_decision REJECT_NO_CURRENT_ATTEMPT ''start rejected: no current attempt''
      else if Some (st_attempt_id t) \<noteq> current_attempt_id rec
              \<or> Some (st_attempt_generation t) \<noteq> current_attempt_generation rec
      then mk_decision REJECT_STALE_ATTEMPT ''start rejected: attempt is not the current attempt''
      else if Some (st_worker_id t) \<noteq> owner_worker rec
              \<or> Some (st_worker_boot_id t) \<noteq> owner_worker_boot rec
      then mk_decision REJECT_STALE_BOOT ''start rejected: worker/boot does not own the attempt''
      else if st_ownership_generation t \<noteq> ownership_generation rec
      then mk_decision REJECT_NOT_OWNER ''start rejected: ownership generation mismatch''
      else if st_fence_generation t \<noteq> fence_generation rec
      then mk_decision REJECT_STALE_GENERATION ''start rejected: fence generation mismatch''
      else mk_decision ALLOW [])"

definition mark_running_rec ::
    "CoordinatorEpoch \<Rightarrow> StartTicket \<Rightarrow> ExecutionRecord \<Rightarrow> Decision \<times> ExecutionRecord" where
  "mark_running_rec ep t rec =
     (if state rec \<noteq> ExecutionState.DISPATCHED \<and> state rec \<noteq> RESUMING
      then (decide rec REJECT_ALREADY_TERMINAL
              ''start rejected: execution not waiting on a running attempt'', rec)
      else let v = validate_start ep rec t in
        if code v \<noteq> ALLOW then (fill_context v rec, rec)
        else let rec = rec\<lparr>attempts := start_attempt (st_attempt_id t) (attempts rec)\<rparr>;
                 (tr, rec) = transition rec ExecutionState.RUNNING
             in (fill_context tr rec, rec))"

section \<open>Completion and commit\<close>

definition validate_ticket :: "CoordinatorEpoch \<Rightarrow> ExecutionRecord \<Rightarrow> CompletionTicket \<Rightarrow> Decision" where
  "validate_ticket ep rec t =
     (if id_is_nil (ct_execution_id t) \<or> id_is_nil (ct_attempt_id t) \<or> id_is_nil (ct_worker_id t)
         \<or> id_is_nil (ct_worker_boot_id t) \<or> id_is_nil (ct_dispatch_id t)
      then mk_decision REJECT_INSUFFICIENT_AUTHORITY
             ''completion rejected: ticket lacks a required identity field''
      else if \<not> gen_is_set (ct_attempt_generation t) \<or> \<not> gen_is_set (ct_execution_generation t)
              \<or> \<not> gen_is_set (ct_ownership_generation t) \<or> \<not> gen_is_set (ct_fence_generation t)
      then mk_decision REJECT_INSUFFICIENT_AUTHORITY
             ''completion rejected: ticket lacks a required generation counter''
      else if ct_epoch t \<noteq> ep \<or> ct_epoch t \<noteq> coordinator_epoch rec
      then mk_decision REJECT_STALE_EPOCH ''completion rejected: coordinator epoch mismatch''
      else if ct_execution_generation t \<noteq> generation rec
      then mk_decision REJECT_STALE_GENERATION ''completion rejected: execution generation mismatch''
      else if current_attempt_id rec = None \<or> current_attempt_generation rec = None
      then mk_decision REJECT_NO_CURRENT_ATTEMPT ''completion rejected: no current attempt''
      else if Some (ct_attempt_id t) \<noteq> current_attempt_id rec
              \<or> Some (ct_attempt_generation t) \<noteq> current_attempt_generation rec
      then mk_decision REJECT_STALE_ATTEMPT
             ''completion rejected: attempt is not the current attempt; a newer attempt has authority''
      else if Some (ct_worker_id t) \<noteq> owner_worker rec
      then mk_decision REJECT_NOT_OWNER ''completion rejected: worker does not own the attempt''
      else if Some (ct_worker_boot_id t) \<noteq> owner_worker_boot rec
      then mk_decision REJECT_STALE_BOOT ''completion rejected: WorkerBootId is not the live incarnation''
      else if ct_ownership_generation t \<noteq> ownership_generation rec
      then mk_decision REJECT_STALE_GENERATION ''completion rejected: ownership generation mismatch''
      else if ct_fence_generation t \<noteq> fence_generation rec
      then mk_decision REJECT_STALE_GENERATION ''completion rejected: fence generation mismatch''
      else if list_ex (\<lambda>at. at_id at = ct_attempt_id t \<and> at_dispatch_id at \<noteq> ct_dispatch_id t) (attempts rec)
      then mk_decision REJECT_STALE_ATTEMPT
             ''completion rejected: dispatch identity does not match the attempt''
      else mk_decision ALLOW [])"

definition complete_rec ::
    "CoordinatorEpoch \<Rightarrow> string \<Rightarrow> CompletionTicket \<Rightarrow> ExecutionRecord \<Rightarrow> Decision \<times> ExecutionRecord" where
  "complete_rec ep now t rec =
     (let v = validate_ticket ep rec t in
      if code v \<noteq> ALLOW then (fill_context v rec, rec)
      else if state rec = COMMITTED
      then (if has_result t \<and> committed_digest rec = Some (ct_result_digest t)
            then decide rec REJECT_ALREADY_COMMITTED
                   ''completion is a duplicate of the committed result; no double commit (idempotent)''
            else decide rec REJECT_CONFLICTING_COMPLETION
                   ''completion conflicts with the already-committed result'', rec)
      else if ExecutionStateMachine_is_terminal (state rec)
      then (if state rec = ExecutionState.CANCELLED
            then decide rec REJECT_CANCELLED
                   ''completion rejected: execution is cancelled; late completion after cancellation''
            else decide rec REJECT_ALREADY_TERMINAL
                   ''completion rejected: execution is in a terminal state'', rec)
      else if state rec = ExecutionState.PREEMPTED
      then (decide rec REJECT_PREEMPTED
              ''completion rejected: attempt was preempted; only a post-resume attempt may complete'', rec)
      else if \<not> has_result t \<or> ResultDigest_is_nil (ct_result_digest t)
      then (decide rec REJECT_INSUFFICIENT_AUTHORITY
              ''completion rejected: authoritative completion must carry a result digest'', rec)
      else
        let rec = rec\<lparr>attempts := complete_attempt (ct_attempt_id t) (ct_result_digest t) (attempts rec)\<rparr>;
            (c, rec) = transition rec ExecutionState.COMPLETED
        in if code c \<noteq> ALLOW then (c, rec)
           else let rec = rec\<lparr>committed_digest := Some (ct_result_digest t),
                              commit_generation := gen_next (commit_generation rec),
                              committed_at := now\<rparr>;
                    (c, rec) = transition rec COMMITTED
                in (fill_context c rec, rec))"

section \<open>Cancellation\<close>

definition cancel_rec ::
    "CoordinatorEpoch \<Rightarrow> ControlRequest \<Rightarrow> ExecutionRecord \<Rightarrow> Decision \<times> ExecutionRecord" where
  "cancel_rec ep req rec =
     (if req_epoch req \<noteq> ep \<or> req_epoch req \<noteq> coordinator_epoch rec
      then (decide rec REJECT_STALE_EPOCH ''cancel rejected: stale coordinator epoch'', rec)
      else if authority_generation req \<noteq> ownership_generation rec
      then (decide rec REJECT_NOT_OWNER
              ''cancel rejected: caller does not hold current ownership authority'', rec)
      else if ExecutionStateMachine_is_terminal (state rec)
      then (decide rec REJECT_ALREADY_TERMINAL ''cancel rejected: execution is terminal'', rec)
      else if state rec = CANCELLATION_REQUESTED
      then (decide rec ALLOW ''cancel is already requested (idempotent)'', rec)
      else
        let rec = rec\<lparr>cancellation_generation := gen_next (cancellation_generation rec)\<rparr> in
        if state rec = ExecutionState.CREATED then transition rec ExecutionState.CANCELLED
        else if state rec = READY \<or> state rec = ExecutionState.DISPATCHED
                \<or> state rec = ExecutionState.RUNNING
        then transition rec CANCELLATION_REQUESTED
        else (decide rec REJECT_NOT_OWNER ''cancel rejected: execution not in a cancellable state'', rec))"

definition finalize_cancel_rec ::
    "CoordinatorEpoch \<Rightarrow> CoordinatorEpoch \<Rightarrow> ExecutionRecord \<Rightarrow> Decision \<times> ExecutionRecord" where
  "finalize_cancel_rec ep epoch rec =
     (if epoch < ep \<or> epoch < coordinator_epoch rec
      then (decide rec REJECT_STALE_EPOCH ''finalize_cancel rejected: stale coordinator epoch'', rec)
      else if state rec = ExecutionState.CANCELLED
      then (decide rec ALLOW ''cancellation already terminal (idempotent)'', rec)
      else if state rec \<noteq> CANCELLATION_REQUESTED
      then (decide rec REJECT_NOT_OWNER ''finalize_cancel rejected: cancellation not in flight'', rec)
      else transition
             (rec\<lparr>attempts := mark_current AttemptState.CANCELLED (current_attempt_id rec) (attempts rec)\<rparr>)
             ExecutionState.CANCELLED)"

section \<open>Preemption and resume\<close>

definition preempt_rec ::
    "CoordinatorEpoch \<Rightarrow> ControlRequest \<Rightarrow> ExecutionRecord \<Rightarrow> Decision \<times> ExecutionRecord" where
  "preempt_rec ep req rec =
     (if req_epoch req \<noteq> ep \<or> req_epoch req \<noteq> coordinator_epoch rec
      then (decide rec REJECT_STALE_EPOCH ''preempt rejected: stale coordinator epoch'', rec)
      else if authority_generation req \<noteq> ownership_generation rec
      then (decide rec REJECT_NOT_OWNER
              ''preempt rejected: caller does not hold current ownership authority'', rec)
      else if ExecutionStateMachine_is_terminal (state rec)
      then (decide rec REJECT_ALREADY_TERMINAL ''preempt rejected: execution is terminal'', rec)
      else if state rec = PREEMPTION_REQUESTED
      then (decide rec ALLOW ''preemption already requested (idempotent)'', rec)
      else if state rec = ExecutionState.DISPATCHED \<or> state rec = ExecutionState.RUNNING
      then transition (rec\<lparr>preemption_generation := gen_next (preemption_generation rec)\<rparr>)
             PREEMPTION_REQUESTED
      else (decide rec REJECT_NOT_OWNER ''preempt rejected: execution not running or dispatched'', rec))"

definition acknowledge_preempt_rec ::
    "CoordinatorEpoch \<Rightarrow> CoordinatorEpoch \<Rightarrow> ExecutionRecord \<Rightarrow> Decision \<times> ExecutionRecord" where
  "acknowledge_preempt_rec ep epoch rec =
     (if epoch < ep \<or> epoch < coordinator_epoch rec
      then (decide rec REJECT_STALE_EPOCH ''acknowledge_preempt rejected: stale coordinator epoch'', rec)
      else if state rec \<noteq> PREEMPTION_REQUESTED
      then (decide rec REJECT_NOT_OWNER ''acknowledge_preempt rejected: preemption not in flight'', rec)
      else transition
             (rec\<lparr>attempts := mark_current AttemptState.PREEMPTED (current_attempt_id rec) (attempts rec)\<rparr>)
             ExecutionState.PREEMPTED)"

definition mark_resumable_rec ::
    "CoordinatorEpoch \<Rightarrow> CoordinatorEpoch \<Rightarrow> ExecutionRecord \<Rightarrow> Decision \<times> ExecutionRecord" where
  "mark_resumable_rec ep epoch rec =
     (if epoch < ep \<or> epoch < coordinator_epoch rec
      then (decide rec REJECT_STALE_EPOCH ''mark_resumable rejected: stale coordinator epoch'', rec)
      else if state rec \<noteq> ExecutionState.PREEMPTED
      then (decide rec REJECT_NOT_OWNER ''mark_resumable rejected: execution is not preempted'', rec)
      else transition rec RESUMABLE)"

definition resume_rec ::
    "CoordinatorEpoch \<Rightarrow> CoordinatorEpoch \<Rightarrow> WorkerId \<Rightarrow> WorkerBootId \<Rightarrow> ResumeGeneration \<Rightarrow> draws \<Rightarrow> draws
     \<Rightarrow> DispatchTicket \<Rightarrow> ExecutionRecord \<Rightarrow> Decision \<times> DispatchTicket \<times> ExecutionRecord" where
  "resume_rec ep epoch worker boot resume_gen ra rd out_ticket rec =
     (if epoch \<noteq> ep \<or> epoch \<noteq> coordinator_epoch rec
      then (decide rec REJECT_STALE_EPOCH ''resume rejected: stale coordinator epoch'', out_ticket, rec)
      else if state rec \<noteq> RESUMABLE
      then (decide rec REJECT_PREEMPTED ''resume rejected: execution is not resumable'', out_ticket, rec)
      else if resume_gen \<noteq> gen_next (resume_generation rec)
      then (decide rec REJECT_STALE_GENERATION
              ''resume rejected: resume generation is stale (must advance once per resume)'', out_ticket, rec)
      else
        let rec = rec\<lparr>resume_generation := resume_gen\<rparr>;
            rec = rec\<lparr>attempts := supersede_preempted (current_attempt_id rec) (attempts rec)\<rparr>;
            at = new_attempt rec worker boot ra rd;
            rec = install_attempt at rec;
            (tr, rec) = transition rec RESUMING
        in if code tr \<noteq> ALLOW then (tr, out_ticket, rec)
           else let made = last (attempts rec)
                in (decide rec RESUME_ALLOWED
                      ''resume authorised: fresh attempt supersedes preempted attempt'',
                    issue_ticket ep rec made, rec))"

section \<open>Worker loss\<close>

definition mark_worker_lost_rec ::
    "CoordinatorEpoch \<Rightarrow> CoordinatorEpoch \<Rightarrow> WorkerId \<Rightarrow> WorkerBootId \<Rightarrow> ExecutionRecord
     \<Rightarrow> Decision \<times> ExecutionRecord" where
  "mark_worker_lost_rec ep epoch worker boot rec =
     (if epoch < ep \<or> epoch < coordinator_epoch rec
      then (decide rec REJECT_STALE_EPOCH ''worker_lost rejected: stale coordinator epoch'', rec)
      else if ExecutionStateMachine_is_terminal (state rec)
      then (decide rec REJECT_ALREADY_TERMINAL ''worker_lost rejected: execution is terminal'', rec)
      else if owner_worker rec \<noteq> Some worker \<or> owner_worker_boot rec \<noteq> Some boot
      then (decide rec REJECT_STALE_BOOT
              ''worker_lost rejected: this worker is not the current owner (stale boot/incarnation)'', rec)
      else
        let lost = rec\<lparr>attempts := lose_current (current_attempt_id rec) (attempts rec)\<rparr> in
        if state rec = ExecutionState.DISPATCHED then transition lost READY
        else if state rec = ExecutionState.RUNNING
        then let (d, rec) = transition lost AMBIGUOUS in (fill_context d rec, rec)
        else if state rec = CANCELLATION_REQUESTED then transition lost ExecutionState.CANCELLED
        else if state rec = PREEMPTION_REQUESTED then transition lost ExecutionState.PREEMPTED
        else (decide rec DEFER
              ''worker_lost: execution is not in a state where loss is authoritative'', rec))"

section \<open>Supersession\<close>

definition supersede_rec ::
    "CoordinatorEpoch \<Rightarrow> CoordinatorEpoch \<Rightarrow> ExecutionRecord \<Rightarrow> Decision \<times> ExecutionRecord" where
  "supersede_rec ep epoch rec =
     (if epoch \<noteq> ep \<or> epoch \<noteq> coordinator_epoch rec
      then (decide rec REJECT_STALE_EPOCH ''supersede rejected: stale coordinator epoch'', rec)
      else if ExecutionStateMachine_is_terminal (state rec) \<and> state rec \<noteq> AMBIGUOUS
      then (decide rec REJECT_ALREADY_TERMINAL ''supersede rejected: execution is terminal'', rec)
      else
        let rec = rec\<lparr>attempts := mark_current AttemptState.SUPERSEDED (current_attempt_id rec) (attempts rec)\<rparr>;
            rec = rec\<lparr>generation := gen_next (generation rec),
                      current_attempt_id := None, current_attempt_generation := None,
                      owner_worker := None, owner_worker_boot := None\<rparr>
        in transition rec ExecutionState.SUPERSEDED)"

section \<open>The engine\<close>

record engine =
  eng_epoch :: CoordinatorEpoch
  eng_records :: "(ExecutionId \<times> ExecutionRecord) list"

definition ExecutionEngine :: "CoordinatorEpoch \<Rightarrow> engine" where
  "ExecutionEngine initial_epoch = \<lparr>eng_epoch = initial_epoch, eng_records = []\<rparr>"

definition find_record :: "engine \<Rightarrow> ExecutionId \<Rightarrow> ExecutionRecord option" where
  "find_record eng i = map_of (eng_records eng) i"

definition require :: "engine \<Rightarrow> ExecutionId \<Rightarrow> ExecutionRecord result" where
  "require eng i = (case find_record eng i of None \<Rightarrow> Inl OutOfRange | Some rec \<Rightarrow> Inr rec)"

definition store_record :: "ExecutionId \<Rightarrow> ExecutionRecord \<Rightarrow> engine \<Rightarrow> engine" where
  "store_record i rec eng = eng\<lparr>eng_records := AList.update i rec (eng_records eng)\<rparr>"

definition adopt_epoch :: "CoordinatorEpoch \<Rightarrow> engine \<Rightarrow> engine" where
  "adopt_epoch e eng = (if e > eng_epoch eng then eng\<lparr>eng_epoch := e\<rparr> else eng)"

definition raise_epoch :: "CoordinatorEpoch \<Rightarrow> engine \<Rightarrow> engine" where
  "raise_epoch e eng = adopt_epoch e eng"

definition all_executions :: "engine \<Rightarrow> ExecutionId list" where
  "all_executions eng = map fst (eng_records eng)"

text \<open>\<^verbatim>\<open>records()\<close>: a copy of every record, sorted by identity.\<close>

definition records :: "engine \<Rightarrow> ExecutionRecord list" where
  "records eng = sort_key rec_id (map snd (eng_records eng))"

text \<open>\<^verbatim>\<open>emplace\<close> keeps an existing entry; the epoch is then raised to the highest one recorded.\<close>

definition emplace :: "ExecutionRecord \<Rightarrow> (ExecutionId \<times> ExecutionRecord) list
    \<Rightarrow> (ExecutionId \<times> ExecutionRecord) list" where
  "emplace r al = (if map_of al (rec_id r) = None then al @ [(rec_id r, r)] else al)"

definition replace_records :: "ExecutionRecord list \<Rightarrow> engine \<Rightarrow> engine" where
  "replace_records rs eng =
     (let al = fold emplace rs []
      in eng\<lparr>eng_records := al,
             eng_epoch := fold (\<lambda>kv e. if coordinator_epoch (snd kv) > e then coordinator_epoch (snd kv) else e)
                            al (eng_epoch eng)\<rparr>)"

definition create :: "engine \<Rightarrow> ExecutionId \<Rightarrow> CoordinatorEpoch \<Rightarrow> string \<Rightarrow> Decision \<times> engine" where
  "create eng i epoch now =
     (if epoch < eng_epoch eng
      then ((mk_decision REJECT_STALE_EPOCH
               (''create rejected: coordinator epoch '' @ std_to_string (gen_value epoch)
                @ '' is older than current '' @ std_to_string (gen_value (eng_epoch eng))))
              \<lparr>d_execution_id := Some i, d_coordinator_epoch := Some (eng_epoch eng)\<rparr>, eng)
      else let eng = adopt_epoch epoch eng in
        if find_record eng i \<noteq> None
        then ((mk_decision REJECT_EXISTS ''create rejected: execution already exists'')
                \<lparr>d_execution_id := Some i, d_coordinator_epoch := Some (eng_epoch eng)\<rparr>, eng)
        else ((mk_decision ALLOW ''execution created'')
                \<lparr>d_execution_id := Some i, d_coordinator_epoch := Some (eng_epoch eng)\<rparr>,
              store_record i (created_record i (eng_epoch eng) now) eng))"

definition activate :: "engine \<Rightarrow> ExecutionId \<Rightarrow> CoordinatorEpoch \<Rightarrow> (Decision \<times> engine) result" where
  "activate eng i epoch =
     (case require eng i of
        Inl e \<Rightarrow> Inl e
      | Inr rec \<Rightarrow>
          if epoch < eng_epoch eng \<or> epoch < coordinator_epoch rec
          then Inr (decide rec REJECT_STALE_EPOCH ''activate rejected: stale coordinator epoch'', eng)
          else let (d, rec) = activate_rec rec
               in Inr (d, store_record i rec (adopt_epoch epoch eng)))"

definition dispatch ::
    "engine \<Rightarrow> ExecutionId \<Rightarrow> WorkerId \<Rightarrow> WorkerBootId \<Rightarrow> CoordinatorEpoch \<Rightarrow> draws \<Rightarrow> draws
     \<Rightarrow> DispatchTicket \<Rightarrow> (Decision \<times> DispatchTicket \<times> engine) result" where
  "dispatch eng i worker boot epoch ra rd out_ticket =
     (case require eng i of
        Inl e \<Rightarrow> Inl e
      | Inr rec \<Rightarrow>
          if epoch < eng_epoch eng \<or> epoch < coordinator_epoch rec
          then Inr (decide rec REJECT_STALE_EPOCH ''dispatch rejected: stale coordinator epoch'', out_ticket, eng)
          else let eng = adopt_epoch epoch eng;
                   (d, tk, rec) = dispatch_rec (eng_epoch eng) worker boot ra rd out_ticket rec
               in Inr (d, tk, store_record i rec eng))"

text \<open>
  The remaining operations look the record up with \<^verbatim>\<open>find_mut\<close> and report an unknown
  execution as a decision.
\<close>

definition on_record ::
    "engine \<Rightarrow> ExecutionId \<Rightarrow> string \<Rightarrow> (ExecutionRecord \<Rightarrow> Decision \<times> ExecutionRecord) \<Rightarrow> Decision \<times> engine" where
  "on_record eng i unknown body =
     (case find_record eng i of
        None \<Rightarrow> (mk_decision REJECT_UNKNOWN_EXECUTION unknown, eng)
      | Some rec \<Rightarrow> let (d, rec) = body rec in (d, store_record i rec eng))"

definition mark_running :: "engine \<Rightarrow> StartTicket \<Rightarrow> Decision \<times> engine" where
  "mark_running eng t =
     on_record eng (st_execution_id t) ''start rejected: unknown execution''
       (mark_running_rec (eng_epoch eng) t)"

definition complete :: "engine \<Rightarrow> CompletionTicket \<Rightarrow> string \<Rightarrow> Decision \<times> engine" where
  "complete eng t now =
     on_record eng (ct_execution_id t) ''completion rejected: unknown execution''
       (complete_rec (eng_epoch eng) now t)"

definition cancel :: "engine \<Rightarrow> ControlRequest \<Rightarrow> Decision \<times> engine" where
  "cancel eng req =
     on_record eng (req_execution_id req) ''cancel rejected: unknown execution''
       (cancel_rec (eng_epoch eng) req)"

definition finalize_cancel :: "engine \<Rightarrow> ExecutionId \<Rightarrow> CoordinatorEpoch \<Rightarrow> Decision \<times> engine" where
  "finalize_cancel eng i epoch =
     on_record eng i ''finalize_cancel rejected: unknown execution''
       (finalize_cancel_rec (eng_epoch eng) epoch)"

definition preempt :: "engine \<Rightarrow> ControlRequest \<Rightarrow> Decision \<times> engine" where
  "preempt eng req =
     on_record eng (req_execution_id req) ''preempt rejected: unknown execution''
       (preempt_rec (eng_epoch eng) req)"

definition acknowledge_preempt :: "engine \<Rightarrow> ExecutionId \<Rightarrow> CoordinatorEpoch \<Rightarrow> Decision \<times> engine" where
  "acknowledge_preempt eng i epoch =
     on_record eng i ''acknowledge_preempt rejected: unknown execution''
       (acknowledge_preempt_rec (eng_epoch eng) epoch)"

definition mark_resumable :: "engine \<Rightarrow> ExecutionId \<Rightarrow> CoordinatorEpoch \<Rightarrow> Decision \<times> engine" where
  "mark_resumable eng i epoch =
     on_record eng i ''mark_resumable rejected: unknown execution''
       (mark_resumable_rec (eng_epoch eng) epoch)"

definition resume ::
    "engine \<Rightarrow> ExecutionId \<Rightarrow> WorkerId \<Rightarrow> WorkerBootId \<Rightarrow> CoordinatorEpoch \<Rightarrow> ResumeGeneration
     \<Rightarrow> draws \<Rightarrow> draws \<Rightarrow> DispatchTicket \<Rightarrow> Decision \<times> DispatchTicket \<times> engine" where
  "resume eng i worker boot epoch resume_gen ra rd out_ticket =
     (case find_record eng i of
        None \<Rightarrow> (mk_decision REJECT_UNKNOWN_EXECUTION ''resume rejected: unknown execution'', out_ticket, eng)
      | Some rec \<Rightarrow>
          let (d, tk, rec) = resume_rec (eng_epoch eng) epoch worker boot resume_gen ra rd out_ticket rec
          in (d, tk, store_record i rec eng))"

definition mark_worker_lost ::
    "engine \<Rightarrow> ExecutionId \<Rightarrow> WorkerId \<Rightarrow> WorkerBootId \<Rightarrow> CoordinatorEpoch \<Rightarrow> Decision \<times> engine" where
  "mark_worker_lost eng i worker boot epoch =
     on_record eng i ''worker_lost rejected: unknown execution''
       (mark_worker_lost_rec (eng_epoch eng) epoch worker boot)"

definition supersede :: "engine \<Rightarrow> ExecutionId \<Rightarrow> CoordinatorEpoch \<Rightarrow> Decision \<times> engine" where
  "supersede eng i epoch =
     on_record eng i ''supersede rejected: unknown execution''
       (supersede_rec (eng_epoch eng) epoch)"

end
