(* ===== verification/Engine_Invariants.thy ===== *)
theory Engine_Invariants
  imports Engine_Runs
begin

text \<open>
  The well-formedness invariant of the engine's records and the progress order between two states
  of a record. Both are proved once per operation on the record, lifted to the engine through
  \<open>engine_call_records\<close>, and carried along runs by interpreting the locales \<open>step_invariant\<close>
  and \<open>step_preorder\<close> on \<open>engine_step\<close>.
\<close>

section \<open>The immutable part of the attempt history\<close>

text \<open>
  After its creation an attempt only ever changes its state and its result digest. \<open>at_core\<close>
  blanks these two fields, \<open>cores\<close> is the history that no operation rewrites.
\<close>

definition at_core :: "AttemptRecord \<Rightarrow> AttemptRecord" where
  "at_core at = at\<lparr>at_state := AttemptState.CREATED, result_digest := None\<rparr>"

definition cores :: "ExecutionRecord \<Rightarrow> AttemptRecord list" where
  "cores rec = map at_core (attempts rec)"

lemma at_core_sel [simp]:
  "at_id (at_core at) = at_id at" "at_generation (at_core at) = at_generation at"
  "at_worker_id (at_core at) = at_worker_id at" "at_worker_boot_id (at_core at) = at_worker_boot_id at"
  "at_dispatch_id (at_core at) = at_dispatch_id at"
  "at_dispatch_generation (at_core at) = at_dispatch_generation at"
  "at_ownership_generation (at_core at) = at_ownership_generation at"
  "at_fence_generation (at_core at) = at_fence_generation at"
  by (simp_all add: at_core_def)

lemma at_core_upd [simp]:
  "at_core (at\<lparr>at_state := s\<rparr>) = at_core at" "at_core (at\<lparr>result_digest := d\<rparr>) = at_core at"
  by (simp_all add: at_core_def)

lemmas attempt_loops =
  supersede_attempt_def start_attempt_def complete_attempt_def mark_current_def
  supersede_preempted_def lose_current_def

lemma core_loops [simp]:
  "map at_core (supersede_attempt cur xs) = map at_core xs"
  "map at_core (start_attempt a xs) = map at_core xs"
  "map at_core (complete_attempt a dg xs) = map at_core xs"
  "map at_core (mark_current to c xs) = map at_core xs"
  "map at_core (supersede_preempted c xs) = map at_core xs"
  "map at_core (lose_current c xs) = map at_core xs"
  unfolding attempt_loops by (simp_all add: map_update_first)

lemma attempts_eq_Nil [simp]:
  "supersede_attempt cur xs = [] \<longleftrightarrow> xs = []" "start_attempt a xs = [] \<longleftrightarrow> xs = []"
  "complete_attempt a dg xs = [] \<longleftrightarrow> xs = []" "mark_current to c xs = [] \<longleftrightarrow> xs = []"
  "supersede_preempted c xs = [] \<longleftrightarrow> xs = []" "lose_current c xs = [] \<longleftrightarrow> xs = []"
  by (simp_all add: attempt_loops)

lemma cores_attempts [simp]:
  "cores (r\<lparr>attempts := supersede_attempt cur (attempts r)\<rparr>) = cores r"
  "cores (r\<lparr>attempts := start_attempt a (attempts r)\<rparr>) = cores r"
  "cores (r\<lparr>attempts := complete_attempt a dg (attempts r)\<rparr>) = cores r"
  "cores (r\<lparr>attempts := mark_current to c (attempts r)\<rparr>) = cores r"
  "cores (r\<lparr>attempts := supersede_preempted c (attempts r)\<rparr>) = cores r"
  "cores (r\<lparr>attempts := lose_current c (attempts r)\<rparr>) = cores r"
  by (simp_all add: cores_def)

lemma cores_frame [simp]:
  "cores (r\<lparr>state := s\<rparr>) = cores r"
  "cores (r\<lparr>generation := g\<rparr>) = cores r"
  "cores (r\<lparr>ownership_generation := og\<rparr>) = cores r"
  "cores (r\<lparr>fence_generation := fg\<rparr>) = cores r"
  "cores (r\<lparr>current_attempt_id := ci\<rparr>) = cores r"
  "cores (r\<lparr>current_attempt_generation := cg\<rparr>) = cores r"
  "cores (r\<lparr>owner_worker := w\<rparr>) = cores r"
  "cores (r\<lparr>owner_worker_boot := b\<rparr>) = cores r"
  "cores (r\<lparr>cancellation_generation := xg\<rparr>) = cores r"
  "cores (r\<lparr>preemption_generation := pg\<rparr>) = cores r"
  "cores (r\<lparr>resume_generation := rg\<rparr>) = cores r"
  "cores (r\<lparr>commit_generation := mg\<rparr>) = cores r"
  "cores (r\<lparr>committed_digest := d\<rparr>) = cores r"
  "cores (r\<lparr>committed_at := t\<rparr>) = cores r"
  by (simp_all add: cores_def)

lemma cores_eq_Nil [simp]: "cores r = [] \<longleftrightarrow> attempts r = []"
  by (simp add: cores_def)

section \<open>Well-formed records\<close>

abbreviation gen_nat :: "'tag gen \<Rightarrow> nat" where
  "gen_nat g \<equiv> unat (gen_value g)"

text \<open>The value of a saturating 64-bit counter after \<open>n\<close> advances from zero.\<close>

definition sat64 :: "nat \<Rightarrow> nat" where
  "sat64 n = min n 18446744073709551615"

lemma gen_nat_next: "gen_nat g = sat64 n \<Longrightarrow> gen_nat (gen_next g) = sat64 (Suc n)"
  by (simp add: unat_gen_next sat64_def)

lemma sat64_mono: "m \<le> n \<Longrightarrow> sat64 m \<le> sat64 n"
  by (simp add: sat64_def)

lemma sat64_eq: "n < 18446744073709551615 \<Longrightarrow> sat64 m = sat64 n \<longleftrightarrow> m = n"
  by (auto simp: sat64_def)

lemma sat64_less: "m < n \<Longrightarrow> m < 18446744073709551615 \<Longrightarrow> sat64 m < sat64 n"
  by (simp add: sat64_def)

lemma sat64_pos [simp]: "0 < sat64 n \<longleftrightarrow> 0 < n"
  by (simp add: sat64_def)

lemma gen_is_set_nat: "gen_is_set g \<longleftrightarrow> 0 < gen_nat g"
  by (auto simp: gen_is_set_def unat_eq_zero intro: gr0I)

text \<open>
  The current-authority fields are either all empty, or they name the last attempt of the
  history, with its worker, its boot and its generations.
\<close>

definition authority_wf :: "ExecutionRecord \<Rightarrow> AttemptRecord list \<Rightarrow> bool" where
  "authority_wf rec cs \<longleftrightarrow>
     (case current_attempt_id rec of
        None \<Rightarrow> current_attempt_generation rec = None \<and> owner_worker rec = None \<and> owner_worker_boot rec = None
      | Some a \<Rightarrow> cs \<noteq> [] \<and>
          at_id (last cs) = a \<and>
          current_attempt_generation rec = Some (at_generation (last cs)) \<and>
          owner_worker rec = Some (at_worker_id (last cs)) \<and>
          owner_worker_boot rec = Some (at_worker_boot_id (last cs)) \<and>
          at_ownership_generation (last cs) = ownership_generation rec \<and>
          at_fence_generation (last cs) = fence_generation rec)"

text \<open>
  The \<open>i\<close>-th attempt carries ownership and fence generation \<open>i + 2\<close> (activation grants 1), up to
  the saturation of the 64-bit counter.
\<close>

definition attempt_wf :: "AttemptRecord \<Rightarrow> bool" where
  "attempt_wf at \<longleftrightarrow>
     gen_value (at_fence_generation at) = gen_value (at_ownership_generation at) \<and>
     gen_is_set (at_generation at) \<and> at_dispatch_generation at = Gen 1 \<and>
     \<not> id_is_nil (at_id at) \<and> \<not> id_is_nil (at_dispatch_id at)"

definition history_wf :: "AttemptRecord list \<Rightarrow> bool" where
  "history_wf cs \<longleftrightarrow>
     map (\<lambda>at. gen_nat (at_ownership_generation at)) cs = map (\<lambda>i. sat64 (i + 2)) [0..<length cs] \<and>
     (\<forall>at \<in> set cs. attempt_wf at)"

definition ownership_wf :: "ExecutionRecord \<Rightarrow> AttemptRecord list \<Rightarrow> bool" where
  "ownership_wf rec cs \<longleftrightarrow>
     gen_value (fence_generation rec) = gen_value (ownership_generation rec) \<and>
     (if state rec = ExecutionState.CREATED \<or> ownership_generation rec = Gen 0
      then attempts rec = [] \<and> ownership_generation rec = Gen 0 \<and>
           state rec \<in> {ExecutionState.CREATED, ExecutionState.CANCELLED}
      else gen_nat (ownership_generation rec) = sat64 (length cs + 1))"

definition commit_wf :: "ExecutionRecord \<Rightarrow> bool" where
  "commit_wf rec \<longleftrightarrow>
     (if state rec = COMMITTED
      then commit_generation rec = Gen 1 \<and> (\<exists>d. committed_digest rec = Some d \<and> \<not> ResultDigest_is_nil d)
      else commit_generation rec = Gen 0 \<and> committed_digest rec = None)"

definition lifecycle_wf :: "ExecutionRecord \<Rightarrow> bool" where
  "lifecycle_wf rec \<longleftrightarrow>
     state rec \<notin> {COMPLETION_PENDING, ExecutionState.COMPLETED, ExecutionState.FAILED, ExecutionState.TERMINAL} \<and>
     (state rec \<in> {ExecutionState.DISPATCHED, ExecutionState.RUNNING, AMBIGUOUS, COMMITTED} \<longrightarrow>
        current_attempt_id rec \<noteq> None) \<and>
     (current_attempt_id rec \<noteq> None \<longrightarrow> at_state (last (attempts rec)) \<noteq> AttemptState.SUPERSEDED)"

definition record_wf :: "ExecutionRecord \<Rightarrow> bool" where
  "record_wf rec \<longleftrightarrow>
     lifecycle_wf rec \<and> commit_wf rec \<and> gen_is_set (generation rec) \<and>
     ownership_wf rec (cores rec) \<and> authority_wf rec (cores rec) \<and> history_wf (cores rec)"

lemma authority_wf_frame [simp]:
  "authority_wf (r\<lparr>state := s\<rparr>) cs = authority_wf r cs"
  "authority_wf (r\<lparr>attempts := xs\<rparr>) cs = authority_wf r cs"
  "authority_wf (r\<lparr>cancellation_generation := xg\<rparr>) cs = authority_wf r cs"
  "authority_wf (r\<lparr>preemption_generation := pg\<rparr>) cs = authority_wf r cs"
  "authority_wf (r\<lparr>resume_generation := rg\<rparr>) cs = authority_wf r cs"
  "authority_wf (r\<lparr>commit_generation := mg\<rparr>) cs = authority_wf r cs"
  "authority_wf (r\<lparr>committed_digest := d\<rparr>) cs = authority_wf r cs"
  "authority_wf (r\<lparr>committed_at := t\<rparr>) cs = authority_wf r cs"
  by (simp_all add: authority_wf_def split: option.split)

lemma authority_wf_no_current:
  "current_attempt_id r = None \<Longrightarrow> authority_wf r cs \<longleftrightarrow>
     current_attempt_generation r = None \<and> owner_worker r = None \<and> owner_worker_boot r = None"
  by (simp add: authority_wf_def)

lemma authority_wf_empty: "authority_wf r (cores r) \<Longrightarrow> attempts r = [] \<Longrightarrow> current_attempt_id r = None"
  by (cases "current_attempt_id r") (simp_all add: authority_wf_def)

lemma history_wf_Nil [simp]: "history_wf []"
  by (simp add: history_wf_def)

lemma history_wf_append [simp]:
  "history_wf (cs @ [c]) \<longleftrightarrow>
     history_wf cs \<and> gen_nat (at_ownership_generation c) = sat64 (length cs + 2) \<and> attempt_wf c"
  by (auto simp: history_wf_def)

lemma at_state_last_update_first:
  assumes f: "\<And>x. at_state x \<noteq> s \<Longrightarrow> at_state (f x) \<noteq> s"
  shows "xs \<noteq> [] \<Longrightarrow> at_state (last xs) \<noteq> s \<Longrightarrow> at_state (last (update_first P f xs)) \<noteq> s"
  by (induction xs) (auto simp: f split: if_splits)

lemma last_not_superseded:
  assumes "xs \<noteq> []" "at_state (last xs) \<noteq> AttemptState.SUPERSEDED"
  shows "at_state (last (start_attempt a xs)) \<noteq> AttemptState.SUPERSEDED"
    and "at_state (last (complete_attempt a dg xs)) \<noteq> AttemptState.SUPERSEDED"
    and "to \<noteq> AttemptState.SUPERSEDED \<Longrightarrow> at_state (last (mark_current to c xs)) \<noteq> AttemptState.SUPERSEDED"
    and "at_state (last (lose_current c xs)) \<noteq> AttemptState.SUPERSEDED"
proof -
  show "at_state (last (start_attempt a xs)) \<noteq> AttemptState.SUPERSEDED"
    unfolding start_attempt_def using assms by (intro at_state_last_update_first) simp_all
  show "at_state (last (complete_attempt a dg xs)) \<noteq> AttemptState.SUPERSEDED"
    unfolding complete_attempt_def using assms by (intro at_state_last_update_first) simp_all
qed (use assms in \<open>simp_all add: mark_current_def lose_current_def last_map\<close>)

lemma is_terminal_iff:
  "ExecutionStateMachine_is_terminal s \<longleftrightarrow>
     s \<in> {COMMITTED, ExecutionState.FAILED, ExecutionState.CANCELLED, ExecutionState.SUPERSEDED,
          ExecutionState.TERMINAL}"
  by (auto simp: ExecutionStateMachine_is_terminal_def)

lemmas wf_defs = record_wf_def lifecycle_wf_def commit_wf_def ownership_wf_def

lemma wf_frame [simp]:
  "record_wf (r\<lparr>cancellation_generation := xg\<rparr>) = record_wf r"
  "record_wf (r\<lparr>preemption_generation := pg\<rparr>) = record_wf r"
  "record_wf (r\<lparr>resume_generation := rg\<rparr>) = record_wf r"
  by (simp_all add: wf_defs)

lemma wf_state:
  assumes "record_wf r" "state r \<noteq> COMMITTED" "state r = ExecutionState.CREATED \<longrightarrow> s = ExecutionState.CANCELLED"
    and "s \<notin> {ExecutionState.CREATED, COMMITTED, COMPLETION_PENDING, ExecutionState.COMPLETED,
              ExecutionState.FAILED, ExecutionState.TERMINAL}"
    and "s \<in> {ExecutionState.DISPATCHED, ExecutionState.RUNNING, AMBIGUOUS} \<longrightarrow> current_attempt_id r \<noteq> None"
    and "state r = ExecutionState.CANCELLED \<longrightarrow> s = ExecutionState.CANCELLED"
  shows "record_wf (r\<lparr>state := s\<rparr>)"
proof -
  have "lifecycle_wf (r\<lparr>state := s\<rparr>)" using assms by (auto simp: record_wf_def lifecycle_wf_def)
  moreover have "commit_wf (r\<lparr>state := s\<rparr>)" using assms by (auto simp: record_wf_def commit_wf_def)
  moreover have "ownership_wf (r\<lparr>state := s\<rparr>) (cores r)"
    using assms by (auto simp: record_wf_def ownership_wf_def split: if_splits)
  ultimately show ?thesis using assms(1) by (simp add: record_wf_def)
qed

lemma wf_attempts:
  assumes "record_wf r" "map at_core xs = cores r" 
    and "at_state (last (attempts r)) \<noteq> AttemptState.SUPERSEDED \<Longrightarrow> attempts r \<noteq> [] \<Longrightarrow> 
      at_state (last xs) \<noteq> AttemptState.SUPERSEDED"
  shows "record_wf (r\<lparr>attempts := xs\<rparr>)"
proof -
  have xs: "xs = [] \<longleftrightarrow> attempts r = []" using assms(2) by (auto simp: cores_def)
  have "cores (r\<lparr>attempts := xs\<rparr>) = cores r" using assms(2) by (simp add: cores_def)
  moreover have "current_attempt_id r \<noteq> None \<Longrightarrow> attempts r \<noteq> []"
    using assms(1) by (auto simp: record_wf_def dest: authority_wf_empty)
  ultimately show ?thesis using assms(1,3) xs by (auto simp: wf_defs)
qed

lemma wf_loops:
  assumes "record_wf r"
  shows "record_wf (r\<lparr>attempts := start_attempt a (attempts r)\<rparr>)"
    and "record_wf (r\<lparr>attempts := complete_attempt a dg (attempts r)\<rparr>)"
    and "to \<noteq> AttemptState.SUPERSEDED \<Longrightarrow> record_wf (r\<lparr>attempts := mark_current to c (attempts r)\<rparr>)"
    and "record_wf (r\<lparr>attempts := lose_current c (attempts r)\<rparr>)"
  using assms by (intro wf_attempts; simp add: last_not_superseded flip: cores_def)+

section \<open>Every operation keeps records well-formed\<close>

lemma wf_created: "record_wf (created_record i e now)"
  by (simp add: wf_defs created_record_def ExecutionRecord_init_def authority_wf_def cores_def gen_is_set_def)

lemma wf_activate: 
  assumes "record_wf r" shows "record_wf (snd (activate_rec r))"
proof (cases "state r = ExecutionState.CREATED")
  case True
  then have "attempts r = []" "current_attempt_id r = None"
    using assms by (auto simp: wf_defs dest: authority_wf_empty split: if_splits)
  then show ?thesis using assms True
    by (auto simp: activate_rec_def wf_defs authority_wf_no_current cores_def sat64_def)
qed (simp add: activate_rec_def assms)

lemma wf_run: "record_wf r \<Longrightarrow> record_wf (snd (mark_running_rec ep t r))"
  by (auto simp: mark_running_rec_def validate_start_def Let_def split_beta intro!: wf_state wf_loops)

lemma validate_ticket_allow:
  "code (validate_ticket ep rec t) = ALLOW \<longleftrightarrow>
     \<not> id_is_nil (ct_execution_id t) \<and> \<not> id_is_nil (ct_attempt_id t) \<and> \<not> id_is_nil (ct_worker_id t) \<and>
     \<not> id_is_nil (ct_worker_boot_id t) \<and> \<not> id_is_nil (ct_dispatch_id t) \<and>
     gen_is_set (ct_attempt_generation t) \<and> gen_is_set (ct_execution_generation t) \<and>
     gen_is_set (ct_ownership_generation t) \<and> gen_is_set (ct_fence_generation t) \<and>
     ct_epoch t = ep \<and> ct_epoch t = coordinator_epoch rec \<and>
     ct_execution_generation t = generation rec \<and>
     current_attempt_id rec = Some (ct_attempt_id t) \<and>
     current_attempt_generation rec = Some (ct_attempt_generation t) \<and>
     owner_worker rec = Some (ct_worker_id t) \<and> owner_worker_boot rec = Some (ct_worker_boot_id t) \<and>
     ct_ownership_generation t = ownership_generation rec \<and> ct_fence_generation t = fence_generation rec \<and>
     (\<forall>at \<in> set (attempts rec). at_id at = ct_attempt_id t \<longrightarrow> at_dispatch_id at = ct_dispatch_id t)"
  by (auto simp: validate_ticket_def list_ex_iff)

lemma wf_commit:
  "record_wf r \<Longrightarrow> state r \<notin> {ExecutionState.CREATED, COMMITTED, ExecutionState.CANCELLED} \<Longrightarrow> current_attempt_id r \<noteq> None \<Longrightarrow> \<not> ResultDigest_is_nil dg \<Longrightarrow>
   record_wf (r\<lparr>committed_digest := Some dg, commit_generation := gen_next (commit_generation r),
       committed_at := now, state := COMMITTED\<rparr>)"
  by (auto simp: wf_defs gen_next_def split: if_splits)

lemma wf_cancel: "record_wf r \<Longrightarrow> record_wf (snd (cancel_rec ep req r))"
  by (auto simp: cancel_rec_def is_terminal_iff Let_def intro!: wf_state)

lemma wf_finalize: "record_wf r \<Longrightarrow> record_wf (snd (finalize_cancel_rec ep e r))"
  by (auto simp: finalize_cancel_rec_def  intro!: wf_state wf_loops)

lemma wf_preempt: "record_wf r \<Longrightarrow> record_wf (snd (preempt_rec ep req r))"
  by (auto simp: preempt_rec_def is_terminal_iff intro!: wf_state)

lemma wf_acknowledge: "record_wf r \<Longrightarrow> record_wf (snd (acknowledge_preempt_rec ep e r))"
  by (auto simp: acknowledge_preempt_rec_def intro!: wf_state wf_loops)

lemma wf_resumable: "record_wf r \<Longrightarrow> record_wf (snd (mark_resumable_rec ep e r))"
  by (auto simp: mark_resumable_rec_def intro!: wf_state)

lemma wf_lost: "record_wf r \<Longrightarrow> record_wf (snd (mark_worker_lost_rec ep e w b r))"
  by (cases "current_attempt_id r")
   (auto simp: mark_worker_lost_rec_def is_terminal_iff Let_def split_beta record_wf_def [of r] authority_wf_def
      intro!: wf_state wf_loops)

lemma wf_complete: "record_wf r \<Longrightarrow> record_wf (snd (complete_rec ep now t r))"
  using wf_commit [OF wf_loops(2) [of r]]
  by (cases "state r") (auto simp: complete_rec_def validate_ticket_allow is_terminal_iff Let_def split_beta intro!: wf_loops)

lemma wf_clear:
  fixes g xs
  defines "clear \<equiv> \<lambda>r. r\<lparr>attempts := xs, generation := gen_next g, current_attempt_id := None,
     current_attempt_generation := None, owner_worker := None, owner_worker_boot := None\<rparr>"
  assumes "record_wf r" "map at_core xs = cores r" "state r \<noteq> COMMITTED"
  shows "state r \<notin> {ExecutionState.DISPATCHED, ExecutionState.RUNNING, AMBIGUOUS} \<Longrightarrow> record_wf (clear r)"
    and "state r \<notin> {ExecutionState.CREATED, ExecutionState.CANCELLED} \<Longrightarrow>
         record_wf ((clear r)\<lparr>state := ExecutionState.SUPERSEDED\<rparr>)"
proof -
  have "cores (r\<lparr>attempts := xs\<rparr>) = cores r" "xs = [] \<longleftrightarrow> attempts r = []"
    using assms(3) by (auto simp: cores_def)
  then show "state r \<notin> {ExecutionState.DISPATCHED, ExecutionState.RUNNING, AMBIGUOUS} \<Longrightarrow> record_wf (clear r)"
    and "state r \<notin> {ExecutionState.CREATED, ExecutionState.CANCELLED} \<Longrightarrow>
         record_wf ((clear r)\<lparr>state := ExecutionState.SUPERSEDED\<rparr>)"
    using assms(2,4) by (auto simp: clear_def wf_defs authority_wf_no_current split: if_splits)
qed

lemma wf_supersede: "record_wf r \<Longrightarrow> record_wf (snd (supersede_rec ep e r))"
  using wf_clear [of r "mark_current AttemptState.SUPERSEDED (current_attempt_id r) (attempts r)" "generation r"]
  by (cases "state r") (auto simp: supersede_rec_def Let_def split_beta is_terminal_iff cores_def)

lemma wf_install:
  assumes r: "record_wf r" "state r \<notin> {ExecutionState.CREATED, COMMITTED, ExecutionState.CANCELLED}"
    and xs: "map at_core xs = cores r"
  shows "record_wf (install_attempt (new_attempt (r\<lparr>attempts := xs\<rparr>) w b ra rd) (r\<lparr>attempts := xs\<rparr>))"
    (is "record_wf (install_attempt ?at ?r)")
proof -
  have own: "gen_nat (ownership_generation r) = sat64 (length (cores r) + 1)"
    and fence: "gen_value (fence_generation r) = gen_value (ownership_generation r)"
    using r by (auto simp: record_wf_def ownership_wf_def split: if_splits)
  have len: "length xs = length (cores r)" using arg_cong [OF xs, of length] by simp
  have cores: "cores (install_attempt ?at ?r) = cores r @ [at_core ?at]"
    using xs by (simp add: cores_def install_attempt_def)
  have at: "attempt_wf (at_core ?at)" and "gen_nat (at_ownership_generation ?at) = sat64 (length (cores r) + 2)"
    using fence gen_nat_next [OF own]
    by (auto simp: attempt_wf_def new_attempt_def gen_is_set_def [of "Gen 1"] gen_next_def [of "fence_generation r"] 
        gen_next_def [of "ownership_generation r"] split: option.split)
  then have "history_wf (cores r @ [at_core ?at])" using r by (simp add: record_wf_def)
  moreover have "ownership_wf (install_attempt ?at ?r) (cores r @ [at_core ?at])" 
    using r fence gen_nat_next [OF own] 
    by (auto simp: gen_next_def [of "fence_generation r"] gen_next_def [of "ownership_generation r"] 
       ownership_wf_def install_attempt_def new_attempt_def sat64_def)
  moreover have "lifecycle_wf (install_attempt ?at ?r)" "authority_wf (install_attempt ?at ?r) (cores r @ [at_core ?at])"
    "commit_wf (install_attempt ?at ?r)"
    using r by (auto simp: record_wf_def lifecycle_wf_def authority_wf_def commit_wf_def install_attempt_def new_attempt_def)
  moreover have "gen_is_set (generation (install_attempt ?at ?r))"
    using r by (simp add: record_wf_def install_attempt_def)
  ultimately show ?thesis unfolding record_wf_def cores by blast
qed

lemma wf_dispatch: 
  assumes "record_wf r" shows "record_wf (snd (snd (dispatch_rec ep w b ra rd tk r)))"
proof (cases "dispatch_refusal r")
  case None
  let ?r = "supersede_current r"
  define r' where "r' = install_attempt (new_attempt ?r w b ra rd) ?r"
  have st: "state r \<notin> {ExecutionState.CREATED, COMMITTED, ExecutionState.CANCELLED}"
    using None by (auto simp: dispatch_refusal_def Let_def split: if_splits)
  have "record_wf r'"
    using wf_install [OF assms st, of "attempts ?r"] unfolding r'_def
    by (cases "current_attempt_id r") (simp_all add: supersede_current_def cores_def)
  moreover have "state r' = state r" "current_attempt_id r' \<noteq> None"
    by (auto simp: r'_def install_attempt_def supersede_current_def split: option.split)
  ultimately have "record_wf (snd (transition r' ExecutionState.DISPATCHED))"
    using st by (auto intro!: wf_state)
  moreover have "snd (snd (dispatch_rec ep w b ra rd tk r)) = snd (transition r' ExecutionState.DISPATCHED)"
    by (simp add: dispatch_rec_def None Let_def split_beta r'_def del: snd_transition)
  ultimately show ?thesis by metis
qed (simp add: dispatch_rec_def assms)

lemma wf_resume: 
  assumes "record_wf r" shows "record_wf (snd (snd (resume_rec ep e w b g ra rd tk r)))"
proof (cases "state r = RESUMABLE")
  case True
  let ?r = "r\<lparr>resume_generation := g, attempts := supersede_preempted (current_attempt_id r) (attempts r)\<rparr>"
  define r' where "r' = install_attempt (new_attempt ?r w b ra rd) ?r"
  have "record_wf r'"
    using wf_install [of "r\<lparr>resume_generation := g\<rparr>" "supersede_preempted (current_attempt_id r) (attempts r)" w b ra rd]
     assms True unfolding r'_def by (simp add: cores_def)
  moreover have "state r' = RESUMABLE"
    using True by (auto simp: r'_def install_attempt_def)
  ultimately have "record_wf (snd (transition r' RESUMING))"
    by (auto intro!: wf_state)
  moreover have "snd (snd (resume_rec ep e w b g ra rd tk r)) \<in> {r, snd (transition r' RESUMING)}"
    by (simp add: resume_rec_def Let_def split_beta r'_def del: snd_transition)
  ultimately show ?thesis using assms by auto
qed (simp add: resume_rec_def assms)

lemmas wf_ops = wf_activate wf_dispatch wf_run wf_complete wf_cancel wf_finalize wf_preempt
  wf_acknowledge wf_resumable wf_resume wf_lost wf_supersede

lemma wf_record_effect: "record_wf r \<Longrightarrow> record_wf (record_effect ep ev r)"
  by (cases ev) (simp_all add: wf_ops)

section \<open>Progress of a record\<close>

text \<open>
  What no operation takes back: the identity and creation epoch of a record, its counters, the
  attempts of its history, and everything once its state is terminal.
\<close>

definition record_advances :: "ExecutionRecord \<Rightarrow> ExecutionRecord \<Rightarrow> bool" where
  "record_advances r r' \<longleftrightarrow>
     rec_id r' = rec_id r \<and> coordinator_epoch r' = coordinator_epoch r \<and> created_at r' = created_at r \<and>
     generation r \<le> generation r' \<and>
     ownership_generation r \<le> ownership_generation r' \<and>
     fence_generation r \<le> fence_generation r' \<and>
     cancellation_generation r \<le> cancellation_generation r' \<and>
     preemption_generation r \<le> preemption_generation r' \<and>
     resume_generation r \<le> resume_generation r' \<and>
     (\<exists>new. cores r' = cores r @ new) \<and>
     (ExecutionStateMachine_is_terminal (state r) \<longrightarrow> r' = r)"

lemma record_advances_refl [simp]: "record_advances r r"
  by (simp add: record_advances_def)

lemma record_advances_trans: "record_advances r r' \<Longrightarrow> record_advances r' r'' \<Longrightarrow> record_advances r r''"
  unfolding record_advances_def by (auto intro: order_trans)

lemma zero_gen_le [simp]: "Gen 0 \<le> g"
  by (simp add: less_eq_gen_def)

lemma advances_activate: "record_wf r \<Longrightarrow> record_advances r (snd (activate_rec r))"
  by (auto simp: record_advances_def activate_rec_def record_wf_def ownership_wf_def is_terminal_iff less_eq_gen_def split: if_splits)

lemma advances_transition: "record_advances r (snd (transition r s))"
  by (auto simp: record_advances_def is_terminal_iff)

lemma advances_install:
  assumes "\<not> ExecutionStateMachine_is_terminal (state r)" "map at_core xs = cores r"
  shows "record_advances r (install_attempt (new_attempt (r\<lparr>attempts := xs\<rparr>) w b ra rd) (r\<lparr>attempts := xs\<rparr>))"
  using assms by (simp add: record_advances_def install_attempt_def new_attempt_def cores_def)

lemma advances_dispatch: "record_advances r (snd (snd (dispatch_rec ep w b ra rd tk r)))"
proof (cases "dispatch_refusal r")
  case None
  let ?r = "supersede_current r"
  let ?r' = "install_attempt (new_attempt ?r w b ra rd) ?r"
  have "\<not> ExecutionStateMachine_is_terminal (state r)"
    using None by (auto simp: dispatch_refusal_def is_terminal_iff Let_def split: if_splits)
  from advances_install [OF this, of "attempts ?r"] have "record_advances r ?r'"
    by (cases "current_attempt_id r") (simp_all add: supersede_current_def cores_def)
  with advances_transition have "record_advances r (snd (transition ?r' ExecutionState.DISPATCHED))"
    by (rule record_advances_trans [rotated])
  then show ?thesis
    by (simp add: dispatch_rec_def None Let_def split_beta del: snd_transition)
qed (simp add: dispatch_rec_def)

lemma advances_resume: "record_advances r (snd (snd (resume_rec ep e w b g ra rd tk r)))"
  by (auto simp: record_advances_def resume_rec_def install_attempt_def new_attempt_def is_terminal_iff
      cores_def Let_def split_beta)

lemma advances_running: "record_advances r (snd (mark_running_rec ep st r))"
  by (auto simp: record_advances_def mark_running_rec_def is_terminal_iff Let_def split_beta)

lemma advances_complete: "record_advances r (snd (complete_rec ep now ct r))"
  by (auto simp: record_advances_def complete_rec_def is_terminal_iff Let_def split_beta)

lemma advances_cancel: "record_advances r (snd (cancel_rec ep req r))"
  by (auto simp: record_advances_def cancel_rec_def is_terminal_iff Let_def split_beta)

lemma advances_finalize: "record_advances r (snd (finalize_cancel_rec ep e r))"
  by (auto simp: record_advances_def finalize_cancel_rec_def is_terminal_iff Let_def split_beta)

lemma advances_preempt: "record_advances r (snd (preempt_rec ep req r))"
  by (auto simp: record_advances_def preempt_rec_def is_terminal_iff Let_def split_beta)

lemma advances_acknowledge: "record_advances r (snd (acknowledge_preempt_rec ep e r))"
  by (auto simp: record_advances_def acknowledge_preempt_rec_def is_terminal_iff Let_def split_beta)

lemma advances_resumable: "record_advances r (snd (mark_resumable_rec ep e r))"
  by (auto simp: record_advances_def mark_resumable_rec_def is_terminal_iff Let_def split_beta)

lemma advances_lost: "record_advances r (snd (mark_worker_lost_rec ep e w b r))"
  by (auto simp: record_advances_def mark_worker_lost_rec_def is_terminal_iff Let_def split_beta)

lemma advances_supersede: "record_advances r (snd (supersede_rec ep e r))"
  by (auto simp: record_advances_def supersede_rec_def is_terminal_iff Let_def split_beta)

lemma advances_record_effect: "record_wf r \<Longrightarrow> record_advances r (record_effect ep ev r)"
  by (cases ev) (simp_all add: advances_activate advances_dispatch advances_resume advances_running advances_complete advances_cancel advances_finalize advances_preempt
      advances_acknowledge advances_resumable advances_lost advances_supersede)
section \<open>The engine\<close>

text \<open>Every stored record is well-formed and stored under its own identity.\<close>

definition engine_wf :: "engine \<Rightarrow> bool" where
  "engine_wf eng \<longleftrightarrow>
     distinct (map fst (eng_records eng)) \<and>
     (\<forall>i r. find_record eng i = Some r \<longrightarrow>
        rec_id r = i \<and> record_wf r \<and> coordinator_epoch r \<le> eng_epoch eng)"

definition engine_advances :: "engine \<Rightarrow> engine \<Rightarrow> bool" where
  "engine_advances eng eng' \<longleftrightarrow>
     eng_epoch eng \<le> eng_epoch eng' \<and>
     (\<forall>i r. find_record eng i = Some r \<longrightarrow>
        (\<exists>r'. find_record eng' i = Some r' \<and> record_advances r r'))"

lemma distinct_store [simp]:
  "distinct (map fst (eng_records (store_record i r eng))) \<longleftrightarrow> distinct (map fst (eng_records eng))"
  by (simp add: store_record_def)

lemma records_adopt [simp]: "eng_records (adopt_epoch e eng) = eng_records eng"
  by (simp add: adopt_epoch_def)

lemma on_record_distinct:
  "on_record eng i unknown body = (d, eng') \<Longrightarrow>
     distinct (map fst (eng_records eng')) \<longleftrightarrow> distinct (map fst (eng_records eng))"
  by (auto simp: on_record_def split: option.splits prod.splits)

lemma engine_call_distinct:
  "engine_call eng ev = Inr (d, eng') \<Longrightarrow>
     distinct (map fst (eng_records eng')) \<longleftrightarrow> distinct (map fst (eng_records eng))"
  by (cases ev)
    (auto simp: engine_ops Let_def split_beta split: option.splits if_splits prod.splits sum.splits
      dest!: on_record_distinct)

lemma created_record_sel [simp]:
  "rec_id (created_record i e now) = i" "coordinator_epoch (created_record i e now) = e"
  "state (created_record i e now) = ExecutionState.CREATED"
  by (simp_all add: created_record_def)

lemma engine_create_epoch:
  "engine_call eng (Create i e now) = Inr (d, eng') \<Longrightarrow> e \<ge> eng_epoch eng \<Longrightarrow> eng_epoch eng' = max e (eng_epoch eng)"
  by (auto simp: create_def Let_def split: if_splits)

lemma engine_call_wf:
  assumes call: "engine_call eng ev = Inr (d, eng')" and wf: "engine_wf eng"
  shows "engine_wf eng'"
proof -
  have "rec_id r' = i \<and> record_wf r' \<and> coordinator_epoch r' \<le> eng_epoch eng'"
    if r': "find_record eng' i = Some r'" for i r'
  proof (cases "find_record eng i")
    case (Some r)
    then have r: "rec_id r = i" "record_wf r" "coordinator_epoch r \<le> eng_epoch eng"
      using wf by (auto simp: engine_wf_def)
    have "r' = r \<or> r' = record_effect (eng_epoch eng) ev r"
      using r' Some engine_call_records [OF call, of i] by (auto split: if_splits)
    then show ?thesis
      using r wf_record_effect [OF r(2)] advances_record_effect [OF r(2)] engine_call_epoch [OF call]
      by (fastforce simp: record_advances_def)
  next
    case None
    then obtain e now where ev: "ev = Create i e now" "\<not> e < eng_epoch eng"
        and "r' = created_record i (max e (eng_epoch eng)) now"
      using r' engine_call_records [OF call, of i]
      by (cases ev) (auto split: if_splits option.splits)
    then show ?thesis using wf_created engine_create_epoch call by (simp add: not_less)
  qed
  then show ?thesis
    using engine_call_distinct [OF call] wf by (simp add: engine_wf_def)
qed

lemma engine_call_advances:
  assumes call: "engine_call eng ev = Inr (d, eng')" and wf: "engine_wf eng"
  shows "engine_advances eng eng'"
  using engine_call_records [OF call] engine_call_epoch [OF call] wf
  by (auto simp: engine_advances_def engine_wf_def intro: advances_record_effect)

lemma engine_advances_trans: "engine_advances a b \<Longrightarrow> engine_advances b c \<Longrightarrow> engine_advances a c"
  unfolding engine_advances_def by (meson order_trans record_advances_trans)

interpretation engine_runs: step_preorder engine_step engine_wf engine_advances
proof
  show "engine_advances a c" if "engine_advances a b" "engine_advances b c" for a b c
    using that by (rule engine_advances_trans)
qed (auto simp: engine_step_def engine_advances_def [of s s for s] intro: engine_call_wf engine_call_advances)

lemma engine_wf_init: "engine_wf (ExecutionEngine e)"
  by (simp add: engine_wf_def ExecutionEngine_def find_record_def)

lemma reachable_wf: "engine_reachable eng \<Longrightarrow> engine_wf eng"
  by (induction rule: engine_reachable.induct) (auto intro: engine_wf_init engine_runs.inv_step)

lemma find_record_wf:
  "engine_wf eng \<Longrightarrow> find_record eng i = Some r \<Longrightarrow>
     rec_id r = i \<and> record_wf r \<and> coordinator_epoch r \<le> eng_epoch eng"
  by (simp add: engine_wf_def)

text \<open>A record of a well-formed engine and the record it has become after a run.\<close>

lemma run_record:
  assumes "engine_wf eng" "steps engine_step eng es eng'" "find_record eng i = Some r"
  obtains r' where "find_record eng' i = Some r'" "record_advances r r'" "record_wf r'"
proof -
  have "engine_advances eng eng'" "engine_wf eng'"
    using assms engine_runs.advances_steps engine_runs.inv_steps by blast+
  with assms(3) obtain r' where "find_record eng' i = Some r'" "record_advances r r'"
    unfolding engine_advances_def by blast
  then show thesis using that \<open>engine_wf eng'\<close> by (auto simp: engine_wf_def)
qed

end
