(* ===== verification/Authority.thy ===== *)
theory Authority
  imports Engine_Invariants
begin

text \<open>
  The contract of the engine: what it promises the rest of the fabric about one logical
  execution. A \<open>ledger\<close> is the abstract view of a record: the grants of authority made so far,
  the grant that holds authority now, the outcome, and whether the execution is closed. The
  detailed operations refine the ledger's four actions.
\<close>

section \<open>The ledger of an execution\<close>

record ledger =
  grants :: "AttemptRecord list"
  holder :: "AttemptRecord option"
  outcome :: "ResultDigest option"
  closed :: bool

definition ledger_of :: "ExecutionRecord \<Rightarrow> ledger" where
  "ledger_of r =
     \<lparr>grants = cores r,
      holder = (if current_attempt_id r = None then None else Some (last (cores r))),
      outcome = committed_digest r,
      closed = ExecutionStateMachine_is_terminal (state r)\<rparr>"

text \<open>The ticket carries the identity, the owner and every generation of the attempt.\<close>

definition ticket_names :: "CompletionTicket \<Rightarrow> AttemptRecord \<Rightarrow> bool" where
  "ticket_names t at \<longleftrightarrow>
     ct_attempt_id t = at_id at \<and> ct_attempt_generation t = at_generation at \<and>
     ct_worker_id t = at_worker_id at \<and> ct_worker_boot_id t = at_worker_boot_id at \<and>
     ct_dispatch_id t = at_dispatch_id at \<and>
     ct_ownership_generation t = at_ownership_generation at \<and>
     ct_fence_generation t = at_fence_generation at"

datatype ledger_action = Grant AttemptRecord | Revoke | Commit CompletionTicket | Close

inductive ledger_step :: "ledger \<Rightarrow> ledger_action \<Rightarrow> ledger \<Rightarrow> bool" where
  grant: "\<not> closed l \<Longrightarrow> ledger_step l (Grant at) (l\<lparr>grants := grants l @ [at], holder := Some at\<rparr>)"
| revoke: "\<not> closed l \<Longrightarrow> ledger_step l Revoke (l\<lparr>holder := None\<rparr>)"
| commit: "\<not> closed l \<Longrightarrow> holder l = Some at \<Longrightarrow> ticket_names t at \<Longrightarrow>
    has_result t \<Longrightarrow> \<not> ResultDigest_is_nil (ct_result_digest t) \<Longrightarrow>
    ledger_step l (Commit t) (l\<lparr>outcome := Some (ct_result_digest t), closed := True\<rparr>)"
| close: "\<not> closed l \<Longrightarrow> h = holder l \<or> h = None \<Longrightarrow> ledger_step l Close (l\<lparr>holder := h, closed := True\<rparr>)"

inductive_cases ledger_step_GrantE: "ledger_step l (Grant at) l'"
inductive_cases ledger_step_CommitE: "ledger_step l (Commit t) l'"

text \<open>Which action an event may take: only a completion commits, only a dispatch or resume grants.\<close>

fun event_action :: "engine_event \<Rightarrow> ledger_action \<Rightarrow> bool" where
  "event_action (Dispatch i w b e ra rd) (Grant at) = (at_worker_id at = w \<and> at_worker_boot_id at = b)"
| "event_action (Resume i w b e g ra rd) (Grant at) = (at_worker_id at = w \<and> at_worker_boot_id at = b)"
| "event_action (Complete t now) (Commit t') = (t' = t)"
| "event_action (Cancel req) Close = True"
| "event_action (FinalizeCancel i e) Close = True"
| "event_action (MarkWorkerLost i w b e) Close = True"
| "event_action (Supersede i e) Revoke = True"
| "event_action (Supersede i e) Close = True"
| "event_action _ _ = False"

section \<open>Completion\<close>

text \<open>The states in which a valid completion commits.\<close>

definition committable :: "ExecutionState set" where
  "committable = {ExecutionState.DISPATCHED, ExecutionState.RUNNING, CANCELLATION_REQUESTED,
     PREEMPTION_REQUESTED, AMBIGUOUS}"

definition completion_admitted :: "CoordinatorEpoch \<Rightarrow> CompletionTicket \<Rightarrow> ExecutionRecord \<Rightarrow> bool" where
  "completion_admitted ep t r \<longleftrightarrow>
     code (validate_ticket ep r t) = ALLOW \<and> \<not> ExecutionStateMachine_is_terminal (state r) \<and>
     state r \<noteq> ExecutionState.PREEMPTED \<and> has_result t \<and> \<not> ResultDigest_is_nil (ct_result_digest t)"

lemma snd_complete_rec:
  "snd (complete_rec ep now t r) =
     (if \<not> completion_admitted ep t r then r
      else let r' = r\<lparr>attempts := complete_attempt (ct_attempt_id t) (ct_result_digest t) (attempts r)\<rparr>
           in if ExecutionStateMachine_from (state r) ExecutionState.COMPLETED
              then r'\<lparr>committed_digest := Some (ct_result_digest t),
                      commit_generation := gen_next (commit_generation r), committed_at := now,
                      state := COMMITTED\<rparr>
              else r')"
  unfolding complete_rec_def completion_admitted_def Let_def split_beta
  by (cases "code (validate_ticket ep r t) = ALLOW") (simp_all add: is_terminal_iff)

lemma code_complete_rec:
  "code (fst (complete_rec ep now t r)) = ALLOW \<longleftrightarrow>
     completion_admitted ep t r \<and> ExecutionStateMachine_from (state r) ExecutionState.COMPLETED"
  unfolding complete_rec_def completion_admitted_def Let_def split_beta
  by (cases "code (validate_ticket ep r t) = ALLOW") (simp_all add: is_terminal_iff)

lemma committable_iff:
  "record_wf r \<Longrightarrow> ExecutionStateMachine_from (state r) ExecutionState.COMPLETED \<longleftrightarrow> state r \<in> committable"
  by (cases "state r") (simp_all add: committable_def record_wf_def lifecycle_wf_def)

lemma validate_ticket_holder:
  assumes wf: "record_wf r" and ok: "code (validate_ticket ep r t) = ALLOW"
  shows "holder (ledger_of r) = Some (last (cores r))" and "ticket_names t (last (cores r))"
proof -
  have cur: "current_attempt_id r = Some (ct_attempt_id t)" using ok by (simp add: validate_ticket_allow)
  then show "holder (ledger_of r) = Some (last (cores r))" by (simp add: ledger_of_def)
  have auth: "authority_wf r (cores r)" using wf by (simp add: record_wf_def)
  then have ne: "attempts r \<noteq> []" using cur by (auto simp: authority_wf_def)
  then have last: "last (cores r) = at_core (last (attempts r))" by (simp add: cores_def last_map)
  have "at_id (last (attempts r)) = ct_attempt_id t" using auth cur last by (simp add: authority_wf_def)
  then have "at_dispatch_id (last (attempts r)) = ct_dispatch_id t"
    using ok last_in_set [OF ne] by (simp add: validate_ticket_allow)
  then show "ticket_names t (last (cores r))"
    using ok auth cur last by (auto simp: validate_ticket_allow ticket_names_def authority_wf_def)
qed

section \<open>Refinement\<close>

definition refines :: "engine_event \<Rightarrow> ExecutionRecord \<Rightarrow> ExecutionRecord \<Rightarrow> bool" where
  "refines ev r r' \<longleftrightarrow>
     ledger_of r' = ledger_of r \<or>
     (\<exists>act. event_action ev act \<and> ledger_step (ledger_of r) act (ledger_of r'))"

lemma refines_stutter: "ledger_of r' = ledger_of r \<Longrightarrow> refines ev r r'"
  by (simp add: refines_def)

lemma refines_complete:
  assumes wf: "record_wf r"
  shows "refines (Complete t now) r (snd (complete_rec ep now t r))"
proof (cases "code (fst (complete_rec ep now t r)) = ALLOW")
  case True
  then have ok: "completion_admitted ep t r" "ExecutionStateMachine_from (state r) ExecutionState.COMPLETED"
    by (simp_all add: code_complete_rec)
  then have adm: "code (validate_ticket ep r t) = ALLOW" "has_result t"
      "\<not> ResultDigest_is_nil (ct_result_digest t)" and opn: "\<not> closed (ledger_of r)"
    by (simp_all add: completion_admitted_def ledger_of_def)
  have "ledger_of (snd (complete_rec ep now t r)) =
      (ledger_of r)\<lparr>outcome := Some (ct_result_digest t), closed := True\<rparr>"
    using ok by (simp add: snd_complete_rec Let_def ledger_of_def is_terminal_iff)
  with commit [OF opn validate_ticket_holder [OF wf adm(1)] adm(2,3)] show ?thesis
    by (auto simp: refines_def intro: exI [of _ "Commit t"])
next
  case False
  then show ?thesis
    by (simp add: refines_stutter code_complete_rec snd_complete_rec ledger_of_def Let_def)
qed

lemma ledger_of_frame [simp]:
  "ledger_of (r\<lparr>cancellation_generation := xg\<rparr>) = ledger_of r"
  "ledger_of (r\<lparr>preemption_generation := pg\<rparr>) = ledger_of r"
  "ledger_of (r\<lparr>resume_generation := rg\<rparr>) = ledger_of r"
  "ledger_of (r\<lparr>ownership_generation := og\<rparr>) = ledger_of r"
  "ledger_of (r\<lparr>fence_generation := fg\<rparr>) = ledger_of r"
  "ledger_of (r\<lparr>attempts := start_attempt a (attempts r)\<rparr>) = ledger_of r"
  "ledger_of (r\<lparr>attempts := mark_current to c (attempts r)\<rparr>) = ledger_of r"
  "ledger_of (r\<lparr>attempts := lose_current c (attempts r)\<rparr>) = ledger_of r"
  by (simp_all add: ledger_of_def)

lemma ledger_of_state:
  "ledger_of (r\<lparr>state := s\<rparr>) = (ledger_of r)\<lparr>closed := ExecutionStateMachine_is_terminal s\<rparr>"
  by (simp add: ledger_of_def)

lemma closed_ledger_of: "closed (ledger_of r) \<longleftrightarrow> ExecutionStateMachine_is_terminal (state r)"
  by (simp add: ledger_of_def)

text \<open>A transition to a state that is not terminal does not show in the ledger; one to a terminal state closes it.\<close>

lemma ledger_transition_open:
  "\<not> ExecutionStateMachine_is_terminal s \<Longrightarrow> ledger_of (snd (transition r s)) = ledger_of r"
  by (cases "state r") (simp_all add: ledger_of_def is_terminal_iff)

lemma refines_transition_close:
  assumes "event_action ev Close" "ledger_of r' = ledger_of r"
  shows "refines ev r (snd (transition r' s))"
proof (cases "ExecutionStateMachine_is_terminal s \<and> ExecutionStateMachine_from (state r') s")
  case True
  then have "\<not> closed (ledger_of r')"
    using execution_lifecycle.terminal_no_exit [of "state r'" s] by (auto simp: closed_ledger_of)
  then have "ledger_step (ledger_of r) Close ((ledger_of r)\<lparr>holder := holder (ledger_of r), closed := True\<rparr>)"
    using assms(2) by (intro close) simp_all
  then show ?thesis using True assms by (auto simp: refines_def ledger_of_state)
next
  case False
  then have "ledger_of (snd (transition r' s)) = ledger_of r'"
    using ledger_transition_open by (cases "ExecutionStateMachine_is_terminal s") auto
  then show ?thesis using assms by (simp add: refines_stutter)
qed

lemma refines_stutters:
  "refines ev r (snd (activate_rec r))"
  "refines ev r (snd (mark_running_rec ep st r))"
  "refines ev r (snd (preempt_rec ep req r))"
  "refines ev r (snd (acknowledge_preempt_rec ep e r))"
  "refines ev r (snd (mark_resumable_rec ep e r))"
  unfolding activate_rec_def mark_running_rec_def preempt_rec_def acknowledge_preempt_rec_def
    mark_resumable_rec_def Let_def split_beta
  by (rule refines_stutter, simp add: ledger_transition_open is_terminal_iff del: snd_transition)+

lemma refines_closing:
  "refines (Cancel req) r (snd (cancel_rec ep req r))"
  "refines (FinalizeCancel i e) r (snd (finalize_cancel_rec ep e r))"
  "refines (MarkWorkerLost i w b e) r (snd (mark_worker_lost_rec ep e w b r))"
  unfolding cancel_rec_def finalize_cancel_rec_def mark_worker_lost_rec_def Let_def split_beta
  by (simp_all add: refines_transition_close refines_stutter del: snd_transition)

lemma ledger_install:
  assumes "map at_core xs = cores r"
  shows "ledger_of (install_attempt at (r\<lparr>attempts := xs\<rparr>)) =
     (ledger_of r)\<lparr>grants := grants (ledger_of r) @ [at_core at], holder := Some (at_core at)\<rparr>"
  using assms by (simp add: ledger_of_def install_attempt_def cores_def)

lemma refines_install:
  assumes "map at_core xs = cores r" "\<not> ExecutionStateMachine_is_terminal (state r)"
    and "\<not> ExecutionStateMachine_is_terminal s" "event_action ev (Grant (at_core at))"
  shows "refines ev r (snd (transition (install_attempt at (r\<lparr>attempts := xs\<rparr>)) s))"
  using grant [of "ledger_of r" "at_core at"] assms
  by (auto simp: refines_def ledger_transition_open ledger_install closed_ledger_of simp del: snd_transition)

lemma refines_dispatch:
  "refines (Dispatch i w b e ra rd) r (snd (snd (dispatch_rec ep w b ra rd tk r)))"
proof (cases "dispatch_refusal r")
  case None
  let ?r = "supersede_current r"
  let ?at = "new_attempt ?r w b ra rd"
  have st: "\<not> ExecutionStateMachine_is_terminal (state r)"
    using None by (auto simp: dispatch_refusal_def is_terminal_iff Let_def split: if_splits)
  have r: "?r = r\<lparr>attempts := attempts ?r\<rparr>" "map at_core (attempts ?r) = cores r"
    by (cases "current_attempt_id r"; simp add: supersede_current_def cores_def)+
  have "refines (Dispatch i w b e ra rd) r
      (snd (transition (install_attempt ?at (r\<lparr>attempts := attempts ?r\<rparr>)) ExecutionState.DISPATCHED))"
    using r(2) st by (rule refines_install) (simp_all add: new_attempt_def is_terminal_iff)
  then show ?thesis
    by (simp add: dispatch_rec_def None Let_def split_beta flip: r(1) del: snd_transition)
qed (simp add: dispatch_rec_def refines_stutter)

lemma refines_resume:
  "refines (Resume i w b e g ra rd) r (snd (snd (resume_rec ep e w b g ra rd tk r)))"
proof (cases "state r = RESUMABLE")
  case True
  let ?q = "r\<lparr>resume_generation := g\<rparr>"
  let ?r = "?q\<lparr>attempts := supersede_preempted (current_attempt_id r) (attempts r)\<rparr>"
  let ?r' = "snd (transition (install_attempt (new_attempt ?r w b ra rd) ?r) RESUMING)"
  have "refines (Resume i w b e g ra rd) ?q ?r'"
    using True by (intro refines_install) (simp_all add: cores_def new_attempt_def is_terminal_iff)
  then have "refines (Resume i w b e g ra rd) r ?r'" by (simp only: refines_def ledger_of_frame)
  then show ?thesis
    by (auto simp: resume_rec_def refines_stutter Let_def split_beta simp del: snd_transition)
qed (simp add: resume_rec_def refines_stutter)

lemma refines_supersede:
  "refines (Supersede i e) r (snd (supersede_rec ep e r))"
proof (cases "ExecutionStateMachine_is_terminal (state r)")
  case False
  let ?m = "r\<lparr>attempts := mark_current AttemptState.SUPERSEDED (current_attempt_id r) (attempts r)\<rparr>"
  let ?q = "?m\<lparr>generation := gen_next (generation r), current_attempt_id := None,
      current_attempt_generation := None, owner_worker := None, owner_worker_boot := None\<rparr>"
  let ?r' = "snd (transition ?q ExecutionState.SUPERSEDED)"
  have q: "ledger_of ?q = (ledger_of r)\<lparr>holder := None\<rparr>" by (simp add: ledger_of_def)
  have "refines (Supersede i e) r ?r'"
  proof (cases "ExecutionStateMachine_from (state r) ExecutionState.SUPERSEDED")
    case True
    then have "ledger_of ?r' = (ledger_of r)\<lparr>holder := None, closed := True\<rparr>"
      by (simp add: ledger_of_def is_terminal_iff)
    with close [of "ledger_of r" None] False show ?thesis
      by (auto simp: refines_def closed_ledger_of intro!: exI [of _ Close])
  next
    case no: False
    then have "ledger_of ?r' = (ledger_of r)\<lparr>holder := None\<rparr>" using q by simp
    with revoke [of "ledger_of r"] False show ?thesis
      by (auto simp: refines_def closed_ledger_of intro!: exI [of _ Revoke])
  qed
  then show ?thesis by (auto simp: supersede_rec_def refines_stutter Let_def split_beta simp del: snd_transition)
qed (auto simp: supersede_rec_def refines_stutter is_terminal_iff)

lemma refines_record_effect: "record_wf r \<Longrightarrow> refines ev r (record_effect ep ev r)"
  by (cases ev)
    (simp_all add: refines_complete refines_stutters refines_closing refines_dispatch refines_resume
      refines_supersede refines_stutter)

end
