(* ===== verification/Engine_Facts.thy ===== *)
theory Engine_Facts
  imports Authority
begin

text \<open>
  What the engine operations do to the record they address, branch by branch: the lemmas that
  the properties of the engine share. Completion comes first, then dispatch and start, resume,
  the snapshot of the records, and records left behind by an epoch change.
\<close>

section \<open>Runs of the engine\<close>

lemma store_same: "find_record eng i = Some r \<Longrightarrow> store_record i r eng = eng"
  by (simp add: store_record_def find_record_def update_same)

lemma engine_advances_find:
  "engine_advances eng eng' \<Longrightarrow> find_record eng i = Some r \<Longrightarrow> find_record eng' i = Some r' \<Longrightarrow> record_advances r r'"
  by (force simp: engine_advances_def)

lemma terminal_find_run:
  assumes "engine_reachable eng" "find_record eng i = Some r" "ExecutionStateMachine_is_terminal (state r)"
    and "engine_run eng es = Some eng'"
  shows "find_record eng' i = Some r"
  using run_record [OF reachable_wf [OF assms(1)] assms(4)[unfolded engine_run_steps] assms(2)] assms(3)
  by (metis record_advances_def)

lemma record_advances_attempts:
  assumes "record_advances r r'"
  shows "length (attempts r) \<le> length (attempts r')"
proof -
  obtain new where "cores r' = cores r @ new" using assms by (auto simp: record_advances_def)
  from arg_cong [OF this, of length] show ?thesis by (simp add: cores_def)
qed

section \<open>Ownership generations\<close>

lemma attempt_ownership:
  assumes "record_wf r" "k < length (attempts r)"
  shows "gen_nat (at_ownership_generation (attempts r ! k)) = sat64 (k + 2)"
proof -
  have "map (\<lambda>at. gen_nat (at_ownership_generation at)) (cores r) ! k = map (\<lambda>i. sat64 (i + 2)) [0..<length (cores r)] ! k"
    using assms(1) by (simp add: record_wf_def history_wf_def)
  then show ?thesis using assms(2) by (simp add: cores_def)
qed

lemma attempt_fence:
  assumes "record_wf r" "k < length (attempts r)"
  shows "gen_nat (at_fence_generation (attempts r ! k)) = sat64 (k + 2)"
proof -
  have "at_core (attempts r ! k) \<in> set (cores r)" using assms(2) by (simp add: cores_def)
  then have "attempt_wf (at_core (attempts r ! k))" using assms(1) by (auto simp: record_wf_def history_wf_def)
  then show ?thesis using attempt_ownership [OF assms] by (simp add: attempt_wf_def)
qed

lemma record_ownership:
  assumes "record_wf r" "attempts r \<noteq> []"
  shows "gen_nat (ownership_generation r) = sat64 (length (attempts r) + 1)"
  using assms by (auto simp: record_wf_def ownership_wf_def cores_def split: if_splits)

section \<open>Completion\<close>

lemma complete_on_record:
  "find_record eng (ct_execution_id t) = Some r \<Longrightarrow>
     complete eng t now = (fst (complete_rec (eng_epoch eng) now t r),
       store_record (ct_execution_id t) (snd (complete_rec (eng_epoch eng) now t r)) eng)"
  by (simp add: complete_def on_record_def split_beta)

lemma complete_unchanged:
  "find_record eng (ct_execution_id t) = Some r \<Longrightarrow> \<not> completion_admitted (eng_epoch eng) t r \<Longrightarrow>
     code (fst (complete eng t now)) \<noteq> ALLOW \<and> snd (complete eng t now) = eng"
  using code_complete_rec [of "eng_epoch eng" now t r] snd_complete_rec [of "eng_epoch eng" now t r]
  by (simp add: complete_def on_record_def split_beta store_same)

lemma complete_unknown:
  "find_record eng (ct_execution_id t) = None \<Longrightarrow> code (fst (complete eng t now)) = REJECT_UNKNOWN_EXECUTION"
  by (simp add: complete_def on_record_def)

lemma validate_ticket_iff_holder:
  assumes wf: "record_wf r"
  shows "code (validate_ticket ep r t) = ALLOW \<longleftrightarrow>
     (\<exists>a. holder (ledger_of r) = Some a \<and> ticket_names t a) \<and>
     \<not> id_is_nil (ct_execution_id t) \<and> \<not> id_is_nil (ct_worker_id t) \<and> \<not> id_is_nil (ct_worker_boot_id t) \<and>
     ct_execution_generation t = generation r \<and> ct_epoch t = ep \<and> ct_epoch t = coordinator_epoch r \<and>
     (\<forall>at \<in> set (attempts r). at_id at = ct_attempt_id t \<longrightarrow> at_dispatch_id at = ct_dispatch_id t)"
    (is "?L \<longleftrightarrow> ?R")
proof
  assume ?L
  then show ?R using validate_ticket_holder [OF wf] by (auto simp: validate_ticket_allow)
next
  assume R: ?R
  then obtain a where cur: "current_attempt_id r \<noteq> None" and a: "a = last (cores r)" and t: "ticket_names t a"
    by (auto simp: ledger_of_def split: if_splits)
  have auth: "authority_wf r (cores r)" and hist: "history_wf (cores r)" using wf by (simp_all add: record_wf_def)
  have ne: "cores r \<noteq> []" using auth cur by (auto simp: authority_wf_def)
  then have "attempt_wf a" using hist a by (auto simp: history_wf_def)
  moreover have "gen_is_set (ownership_generation r)"
    using record_ownership [OF wf] ne by (auto simp: gen_is_set_nat)
  ultimately show ?L
    using R t a auth cur wf
    by (auto simp: validate_ticket_allow ticket_names_def attempt_wf_def authority_wf_def record_wf_def gen_is_set_def)
qed

lemma complete_authority:
  assumes "engine_wf eng"
  shows "code (fst (complete eng t now)) = ALLOW \<longleftrightarrow>
     (\<exists>r a. find_record eng (ct_execution_id t) = Some r \<and>
        holder (ledger_of r) = Some a \<and> ticket_names t a \<and>
        ct_execution_generation t = generation r \<and>
        ct_epoch t = eng_epoch eng \<and> ct_epoch t = coordinator_epoch r \<and>
        state r \<in> committable \<and>
        has_result t \<and> \<not> ResultDigest_is_nil (ct_result_digest t) \<and>
        \<not> id_is_nil (ct_execution_id t) \<and> \<not> id_is_nil (ct_worker_id t) \<and> \<not> id_is_nil (ct_worker_boot_id t) \<and>
        (\<forall>at \<in> set (attempts r). at_id at = ct_attempt_id t \<longrightarrow> at_dispatch_id at = ct_dispatch_id t))"
proof (cases "find_record eng (ct_execution_id t)")
  case (Some r)
  then have wf: "record_wf r" using find_record_wf [OF assms] by simp
  have "state r \<in> committable \<Longrightarrow> \<not> ExecutionStateMachine_is_terminal (state r) \<and> state r \<noteq> ExecutionState.PREEMPTED"
    by (auto simp: committable_def is_terminal_iff)
  then show ?thesis using Some
    by (auto simp: complete_on_record code_complete_rec completion_admitted_def committable_iff [OF wf] validate_ticket_iff_holder [OF wf])
qed (simp add: complete_unknown)

lemma complete_allow_record:
  assumes "code (fst (complete eng t now)) = ALLOW"
  obtains r where "find_record eng (ct_execution_id t) = Some r" "completion_admitted (eng_epoch eng) t r"
    "ExecutionStateMachine_from (state r) ExecutionState.COMPLETED"
    "snd (complete eng t now) = store_record (ct_execution_id t)
       (r\<lparr>attempts := complete_attempt (ct_attempt_id t) (ct_result_digest t) (attempts r),
         committed_digest := Some (ct_result_digest t), commit_generation := gen_next (commit_generation r), committed_at := now,
         state := COMMITTED\<rparr>) eng"
proof (cases "find_record eng (ct_execution_id t)")
  case None
  then show thesis using assms by (simp add: complete_unknown)
next
  case (Some r)
  then show thesis using assms that [of r]
    by (auto simp: complete_on_record code_complete_rec snd_complete_rec Let_def)
qed

lemma complete_committed:
  assumes "find_record eng (ct_execution_id t) = Some r" "state r = COMMITTED" "code (validate_ticket (eng_epoch eng) r t) = ALLOW"
  shows "code (fst (complete eng t now)) =
     (if has_result t \<and> committed_digest r = Some (ct_result_digest t)
      then REJECT_ALREADY_COMMITTED else REJECT_CONFLICTING_COMPLETION)"
    and "snd (complete eng t now) = eng"
  using assms by (simp_all add: complete_on_record complete_rec_def store_same)

lemma dispatch_match_cores:
  "(\<forall>at \<in> set (attempts r). at_id at = a \<longrightarrow> at_dispatch_id at = d) \<longleftrightarrow>
   (\<forall>at \<in> set (cores r). at_id at = a \<longrightarrow> at_dispatch_id at = d)"
  by (simp add: cores_def)

lemma validate_ticket_frame:
  assumes "code (validate_ticket ep r t) = ALLOW" "cores r' = cores r"
    "generation r' = generation r" "coordinator_epoch r' = coordinator_epoch r"
    "current_attempt_id r' = current_attempt_id r" "current_attempt_generation r' = current_attempt_generation r"
    "owner_worker r' = owner_worker r" "owner_worker_boot r' = owner_worker_boot r"
    "ownership_generation r' = ownership_generation r" "fence_generation r' = fence_generation r"
  shows "code (validate_ticket ep r' (t\<lparr>ct_result_digest := dg\<rparr>)) = ALLOW"
  using assms by (auto simp: validate_ticket_allow dispatch_match_cores)

lemma ledger_outcome_commit:
  "ledger_step l act l' \<Longrightarrow> outcome l' \<noteq> outcome l \<Longrightarrow> \<exists>t. act = Commit t"
  by (induction rule: ledger_step.induct) auto

text \<open>The step in which a record becomes committed is a completion that names the holder.\<close>

lemma commit_step:
  assumes wf: "engine_wf eng1" and call: "engine_call eng1 ev = Inr (d, eng)"
    and r1: "find_record eng1 i = Some r1" "state r1 \<noteq> COMMITTED"
    and r: "find_record eng i = Some r" "state r = COMMITTED"
  obtains t now where "ev = Complete t now" "ct_execution_id t = i" "state r1 \<in> committable"
    "holder (ledger_of r1) \<noteq> None" "ticket_names t (the (holder (ledger_of r1)))"
    "committed_digest r = Some (ct_result_digest t)"
proof -
  have wf1: "record_wf r1" using find_record_wf [OF wf r1(1)] by simp
  have eff: "r = record_effect (eng_epoch eng1) ev r1" and tgt: "event_target ev = Some i"
    using engine_call_records [OF call, of i] r1 r by (auto split: if_splits)
  have out: "outcome (ledger_of r) \<noteq> outcome (ledger_of r1)"
    using find_record_wf [OF engine_call_wf [OF call wf] r(1)] r1(2) r(2) wf1
    by (auto simp: ledger_of_def record_wf_def commit_wf_def)
  then obtain act where act: "event_action ev act" "ledger_step (ledger_of r1) act (ledger_of r)"
    using refines_record_effect [OF wf1, of ev "eng_epoch eng1"] eff by (auto simp: refines_def)
  then obtain t where t: "act = Commit t" using out ledger_outcome_commit by blast
  then obtain now where ev: "ev = Complete t now" using act(1) by (cases ev) auto
  have "state r1 \<in> committable"
    using eff ev r1(2) r(2) committable_iff [OF wf1]
    by (auto simp: snd_complete_rec Let_def split: if_splits)
  moreover have "holder (ledger_of r1) \<noteq> None" "ticket_names t (the (holder (ledger_of r1)))"
      "outcome (ledger_of r) = Some (ct_result_digest t)"
    using act(2) t by (auto elim: ledger_step_CommitE)
  ultimately show thesis using that ev tgt by (simp add: ledger_of_def)
qed

section \<open>Dispatch and start\<close>

lemma dispatch_on_record:
  assumes "find_record eng i = Some r" "\<not> e < eng_epoch eng" "\<not> e < coordinator_epoch r"
  shows "dispatch eng i w b e ra rd tk0 =
     (let (d, tk, r') = dispatch_rec e w b ra rd tk0 r
      in Inr (d, tk, store_record i r' (adopt_epoch e eng)))"
proof -
  have "eng_epoch (adopt_epoch e eng) = e" using assms(2) by (simp add: max_def)
  then show ?thesis using assms by (simp add: dispatch_def require_def)
qed

lemma dispatch_rec_allow:
  assumes "code (fst (dispatch_rec ep w b ra rd tk0 r)) = ALLOW"
  shows "dispatch_refusal r = None"
    and "snd (dispatch_rec ep w b ra rd tk0 r) =
      (let q = supersede_current r; at = new_attempt q w b ra rd; r' = (install_attempt at q)\<lparr>state := ExecutionState.DISPATCHED\<rparr>
       in (issue_ticket ep r' at, r'))"
proof -
  have "code d \<noteq> ALLOW" if "dispatch_refusal r = Some d" for d
    using that by (auto simp: dispatch_refusal_def Let_def split: if_splits)
  then show none: "dispatch_refusal r = None" using assms
    by (auto simp: dispatch_rec_def split: option.splits)
  show "snd (dispatch_rec ep w b ra rd tk0 r) =
      (let q = supersede_current r; at = new_attempt q w b ra rd; r' = (install_attempt at q)\<lparr>state := ExecutionState.DISPATCHED\<rparr>
       in (issue_ticket ep r' at, r'))"
    using assms none unfolding dispatch_rec_def Let_def split_beta
    by (simp add: install_attempt_def split: if_splits)
qed

lemma dispatch_refusal_iff:
  "dispatch_refusal r = None \<longleftrightarrow>
     state r \<in> {READY, ExecutionState.DISPATCHED, ExecutionState.RUNNING, AMBIGUOUS, RESUMING}"
  by (cases "state r") (simp_all add: dispatch_refusal_def Let_def)

lemma state_supersede_current [simp]: "state (supersede_current r) = state r"
  by (simp add: supersede_current_def split: option.split)

lemma state_install [simp]: "state (install_attempt at r) = state r"
  by (simp add: install_attempt_def)

lemma cores_install [simp]: "cores (install_attempt at r) = cores r @ [at_core at]"
  by (simp add: cores_def install_attempt_def)

lemma code_dispatch_rec:
  "code (fst (dispatch_rec ep w b ra rd tk0 r)) = ALLOW \<longleftrightarrow>
     state r \<in> {READY, ExecutionState.DISPATCHED, ExecutionState.RUNNING, AMBIGUOUS}"
proof (cases "dispatch_refusal r")
  case None
  then have "state r \<in> {READY, ExecutionState.DISPATCHED, ExecutionState.RUNNING, AMBIGUOUS, RESUMING}"
    by (simp add: dispatch_refusal_iff)
  then show ?thesis by (auto simp: dispatch_rec_def None Let_def split_beta)
next
  case (Some d)
  then have "code d \<noteq> ALLOW" by (auto simp: dispatch_refusal_def Let_def split: if_splits)
  then show ?thesis using Some dispatch_refusal_iff [of r] by (auto simp: dispatch_rec_def)
qed

lemma supersede_current_sel [simp]:
  "rec_id (supersede_current r) = rec_id r" "generation (supersede_current r) = generation r"
  "coordinator_epoch (supersede_current r) = coordinator_epoch r"
  "ownership_generation (supersede_current r) = ownership_generation r"
  "fence_generation (supersede_current r) = fence_generation r"
  "current_attempt_generation (supersede_current r) = current_attempt_generation r"
  "cores (supersede_current r) = cores r"
  by (simp_all add: supersede_current_def cores_def split: option.split)

text \<open>The ticket and the record that an authorised dispatch leaves.\<close>

lemma dispatch_granted:
  assumes disp: "dispatch eng i w b e ra rd tk0 = Inr (d, tk, eng')" and ok: "code d = ALLOW"
  obtains r r' at where "find_record eng i = Some r" "\<not> e < eng_epoch eng" "\<not> e < coordinator_epoch r"
    "state r \<in> {READY, ExecutionState.DISPATCHED, ExecutionState.RUNNING, AMBIGUOUS}"
    "at = new_attempt (supersede_current r) w b ra rd"
    "r' = (install_attempt at (supersede_current r))\<lparr>state := ExecutionState.DISPATCHED\<rparr>"
    "tk = issue_ticket e r' at" "eng' = store_record i r' (adopt_epoch e eng)"
proof -
  obtain r where r: "find_record eng i = Some r"
    using disp by (cases "find_record eng i") (auto simp: dispatch_def require_def)
  moreover have e: "\<not> e < eng_epoch eng" "\<not> e < coordinator_epoch r"
    using disp ok r by (auto simp: dispatch_def require_def split: if_splits)
  moreover have d: "d = fst (dispatch_rec e w b ra rd tk0 r)" "tk = fst (snd (dispatch_rec e w b ra rd tk0 r))"
      "eng' = store_record i (snd (snd (dispatch_rec e w b ra rd tk0 r))) (adopt_epoch e eng)"
    using disp by (auto simp: dispatch_on_record [OF r e] split_beta Let_def)
  moreover have ok': "code (fst (dispatch_rec e w b ra rd tk0 r)) = ALLOW" using ok d(1) by simp
  ultimately show thesis
    using that [of r] dispatch_rec_allow(2) [OF ok'] code_dispatch_rec [of e w b ra rd tk0 r] by (simp add: Let_def)
qed

lemma validate_start_allow:
  "code (validate_start ep r t) = ALLOW \<longleftrightarrow>
     st_epoch t = ep \<and> st_execution_generation t = generation r \<and>
     current_attempt_id r = Some (st_attempt_id t) \<and>
     current_attempt_generation r = Some (st_attempt_generation t) \<and>
     owner_worker r = Some (st_worker_id t) \<and> owner_worker_boot r = Some (st_worker_boot_id t) \<and>
     st_ownership_generation t = ownership_generation r \<and> st_fence_generation t = fence_generation r"
  by (auto simp: validate_start_def)

lemma mark_running_granted:
  assumes r: "find_record eng (st_execution_id t) = Some r" and "state r \<in> {ExecutionState.DISPATCHED, RESUMING}"
    and v: "code (validate_start (eng_epoch eng) r t) = ALLOW"
  shows "code (fst (mark_running eng t)) = ALLOW"
    and "snd (mark_running eng t) =
      store_record (st_execution_id t)
        (r\<lparr>attempts := start_attempt (st_attempt_id t) (attempts r), state := ExecutionState.RUNNING\<rparr>) eng"
  using assms by (auto simp: mark_running_def on_record_def mark_running_rec_def Let_def split_beta)

lemma fresh_attempt_unique:
  assumes "cores r' = cores r @ [at_core at]" "at_id at \<notin> at_id ` set (attempts r)"
    and "a \<in> set (attempts r')" "at_id a = at_id at"
  shows "at_dispatch_id a = at_dispatch_id at"
proof -
  have "at_core a \<in> set (cores r')" using assms(3) by (simp add: cores_def)
  moreover have "at_core a \<notin> set (cores r)"
    using assms(2,4) by (auto simp: cores_def dest: arg_cong [where f = at_id])
  ultimately have "at_core a = at_core at" using assms(1) by simp
  then show ?thesis by (metis at_core_sel(5))
qed

lemma mark_running_call:
  "engine_step eng (MarkRunning t) (snd (mark_running eng t))"
  by (auto simp: engine_step_def intro: prod.collapse [symmetric])

lemma dispatch_call:
  "dispatch eng i w b e ra rd DispatchTicket_init = Inr (d, tk, eng') \<Longrightarrow> engine_step eng (Dispatch i w b e ra rd) eng'"
  by (simp add: engine_step_def)

text \<open>
  A ticket issued for the attempt that a record has just been given starts the attempt; the
  started attempt then holds authority and its completion ticket names it.
\<close>

lemma started_attempt:
  assumes r: "find_record eng i = Some r" and id: "rec_id r = i"
    and st: "state r \<in> {ExecutionState.DISPATCHED, RESUMING}"
    and cur: "current_attempt_id r = Some (at_id at)" "current_attempt_generation r = Some (at_generation at)"
      "owner_worker r = Some (at_worker_id at)" "owner_worker_boot r = Some (at_worker_boot_id at)"
      "ownership_generation r = at_ownership_generation at" "fence_generation r = at_fence_generation at"
    and cs: "cores r = cs @ [at_core at]"
    and tk: "tk = issue_ticket (eng_epoch eng) r at"
  obtains d r' where "mark_running eng (start_ticket_of tk) = (d, store_record i r' eng)" "code d = ALLOW"
    "state r' = ExecutionState.RUNNING" "cores r' = cs @ [at_core at]"
    "holder (ledger_of r') = Some (at_core at)" "generation r' = generation r"
    "coordinator_epoch r' = coordinator_epoch r" "commit_generation r' = commit_generation r"
    "ticket_names (completion_ticket_of tk dg) (at_core at)"
proof -
  let ?t = "start_ticket_of tk"
  let ?r' = "r\<lparr>attempts := start_attempt (st_attempt_id ?t) (attempts r), state := ExecutionState.RUNNING\<rparr>"
  have t: "st_execution_id ?t = i" by (simp add: start_ticket_of_def tk issue_ticket_def id)
  have "code (validate_start (eng_epoch eng) r ?t) = ALLOW"
    by (simp add: validate_start_allow start_ticket_of_def tk issue_ticket_def cur)
  from mark_running_granted [OF _ st this] r t
  have run: "code (fst (mark_running eng ?t)) = ALLOW" "snd (mark_running eng ?t) = store_record i ?r' eng"
    by simp_all
  have "holder (ledger_of ?r') = Some (at_core at)" by (simp add: ledger_of_def cs cur)
  moreover have "ticket_names (completion_ticket_of tk dg) (at_core at)"
    by (simp add: ticket_names_def completion_ticket_of_def tk issue_ticket_def)
  moreover have "mark_running eng ?t = (fst (mark_running eng ?t), store_record i ?r' eng)"
    using run(2) by (simp add: prod_eq_iff)
  ultimately show thesis using that [of "fst (mark_running eng ?t)" ?r'] run(1) by (simp add: cs)
qed

text \<open>The completion of a running attempt commits.\<close>

lemma running_can_commit:
  assumes wf: "engine_wf eng" and r: "find_record eng i = Some r" "state r = ExecutionState.RUNNING"
    and ep: "coordinator_epoch r = eng_epoch eng"
    and hold: "holder (ledger_of r) = Some (at_core at)" "cores r = cs @ [at_core at]"
    and fresh: "\<And>a. a \<in> set cs \<Longrightarrow> at_id a \<noteq> at_id at"
    and ct: "ticket_names ct (at_core at)" "ct_execution_id ct = i" "ct_execution_generation ct = generation r"
      "ct_epoch ct = eng_epoch eng" "has_result ct" "\<not> ResultDigest_is_nil (ct_result_digest ct)"
    and ids: "\<not> id_is_nil i" "\<not> id_is_nil (at_worker_id at)" "\<not> id_is_nil (at_worker_boot_id at)"
  obtains d eng' r' where "complete eng ct now = (d, eng')" "code d = ALLOW" "find_record eng' i = Some r'"
    "state r' = COMMITTED" "committed_digest r' = Some (ct_result_digest ct)" "commit_generation r' = Gen 1"
proof -
  have uniq: "\<forall>a \<in> set (cores r). at_id a = ct_attempt_id ct \<longrightarrow> at_dispatch_id a = ct_dispatch_id ct"
    using fresh ct(1) unfolding hold(2) ticket_names_def by auto
  have w: "ct_worker_id ct = at_worker_id at" "ct_worker_boot_id ct = at_worker_boot_id at"
    using ct(1) by (simp_all add: ticket_names_def)
  have ok: "code (fst (complete eng ct now)) = ALLOW"
    unfolding complete_authority [OF wf] dispatch_match_cores
    by (intro exI [of _ r] exI [of _ "at_core at"] conjI;
        (rule uniq ct(1) | simp add: hold(1) r ep ct(2-) ids w committable_def))
  let ?r' = "snd (complete_rec (eng_epoch eng) now ct r)"
  have c: "complete eng ct now = (fst (complete_rec (eng_epoch eng) now ct r), store_record i ?r' eng)"
    using complete_on_record [of eng ct r now] r(1) ct(2) by simp
  then have "completion_admitted (eng_epoch eng) ct r" using ok by (simp add: code_complete_rec)
  moreover have "commit_generation r = Gen 0"
    using find_record_wf [OF wf r(1)] r(2) by (simp add: record_wf_def commit_wf_def)
  ultimately have "state ?r' = COMMITTED" "committed_digest ?r' = Some (ct_result_digest ct)" "commit_generation ?r' = Gen 1"
    by (simp_all add: snd_complete_rec Let_def r(2) gen_next_def)
  then show thesis using that c ok by simp
qed

text \<open>Dispatch, start and completion, one after the other.\<close>

lemma dispatched_worker_commits:
  assumes wf: "engine_wf eng" and r0: "find_record eng i = Some r0"
    and st: "state r0 \<in> {READY, ExecutionState.DISPATCHED, ExecutionState.RUNNING, AMBIGUOUS}"
    and ep: "coordinator_epoch r0 = eng_epoch eng"
    and ids: "\<not> id_is_nil i" "\<not> id_is_nil w" "\<not> id_is_nil b" and fresh: "id_random ra \<notin> at_id ` set (attempts r0)"
    and dg: "\<not> ResultDigest_is_nil dg"
  shows "\<exists>d1 tk eng1 d2 eng2 d3 eng3 r.
     dispatch eng i w b (eng_epoch eng) ra rd DispatchTicket_init = Inr (d1, tk, eng1) \<and> code d1 = ALLOW \<and>
     mark_running eng1 (start_ticket_of tk) = (d2, eng2) \<and> code d2 = ALLOW \<and>
     complete eng2 (completion_ticket_of tk dg) now = (d3, eng3) \<and> code d3 = ALLOW \<and>
     find_record eng3 i = Some r \<and> state r = COMMITTED \<and> committed_digest r = Some dg \<and>
     commit_generation r = Gen 1"
proof -
  obtain d1 tk eng1 where disp: "dispatch eng i w b (eng_epoch eng) ra rd DispatchTicket_init = Inr (d1, tk, eng1)"
      and ok1: "code d1 = ALLOW"
    using st ep code_dispatch_rec [of "eng_epoch eng" w b ra rd DispatchTicket_init r0]
      dispatch_on_record [OF r0, of "eng_epoch eng" w b ra rd DispatchTicket_init]
    by (auto simp: split_beta Let_def)
  obtain r1 at where g: "at = new_attempt (supersede_current r0) w b ra rd"
    "r1 = (install_attempt at (supersede_current r0))\<lparr>state := ExecutionState.DISPATCHED\<rparr>"
    "tk = issue_ticket (eng_epoch eng) r1 at" "eng1 = store_record i r1 (adopt_epoch (eng_epoch eng) eng)"
    using dispatch_granted [OF disp ok1] r0 by (metis option.inject)
  have at: "at_id at = id_random ra" "at_worker_id at = w" "at_worker_boot_id at = b"
    by (simp_all add: g(1) new_attempt_def)
  have id: "rec_id r1 = i" using find_record_wf [OF wf r0] by (simp add: g(2) install_attempt_def)
  have e1: "eng_epoch eng1 = eng_epoch eng" "find_record eng1 i = Some r1" by (simp_all add: g(4))
  obtain d2 r2 where s: "mark_running eng1 (start_ticket_of tk) = (d2, store_record i r2 eng1)" "code d2 = ALLOW"
    "state r2 = ExecutionState.RUNNING" "cores r2 = cores r0 @ [at_core at]" "holder (ledger_of r2) = Some (at_core at)"
    "generation r2 = generation r1" "coordinator_epoch r2 = coordinator_epoch r1"
    "ticket_names (completion_ticket_of tk dg) (at_core at)"
    by (rule started_attempt [OF e1(2) id, of at "cores r0" tk dg])
      (simp_all add: e1 g(2,3) install_attempt_def, simp_all add: cores_def supersede_current_def split: option.split)
  let ?eng2 = "store_record i r2 eng1"
  have wf2: "engine_wf ?eng2"
    using wf dispatch_call [OF disp] mark_running_call [of eng1 "start_ticket_of tk"] s(1)
    by (auto dest: engine_runs.inv_step)
  let ?ct = "completion_ticket_of tk dg"
  have ct: "ct_execution_id ?ct = i" "ct_execution_generation ?ct = generation r2" "ct_epoch ?ct = eng_epoch ?eng2"
      "has_result ?ct" "ct_result_digest ?ct = dg"
    by (simp_all add: completion_ticket_of_def g(3) issue_ticket_def id s(6) e1)
  have r2: "find_record ?eng2 i = Some r2" "coordinator_epoch r2 = eng_epoch ?eng2"
    by (simp_all add: s(7) e1 ep g(2) install_attempt_def)
  have "at_id at \<notin> at_id ` set (cores r0)" using fresh by (simp add: at cores_def image_image)
  then have "at_id a \<noteq> at_id at" if "a \<in> set (cores r0)" for a
    using imageI [OF that, of at_id] by auto
  from running_can_commit [OF wf2 r2(1) s(3) r2(2) s(5,4) this s(8) ct(1-4), of now]
  obtain d3 eng3 r3 where "complete ?eng2 ?ct now = (d3, eng3)" "code d3 = ALLOW"
      "find_record eng3 i = Some r3" "state r3 = COMMITTED" "committed_digest r3 = Some dg" "commit_generation r3 = Gen 1"
    using ids dg at ct(5) by auto
  then show ?thesis using disp ok1 s(1,2) by blast
qed

lemma complete_nil_digest:
  assumes "ResultDigest_is_nil (ct_result_digest t)"
  shows "snd (complete eng t now) = eng"
  using assms by (auto simp: complete_def on_record_def complete_rec_def Let_def store_same split: option.split)

text \<open>Whatever the digest, the report of a dispatched and started worker decides about the commit.\<close>

lemma dispatched_worker_reports:
  assumes "engine_wf eng" "find_record eng i = Some r0"
    "state r0 \<in> {READY, ExecutionState.DISPATCHED, ExecutionState.RUNNING, AMBIGUOUS}"
    "coordinator_epoch r0 = eng_epoch eng" "\<not> id_is_nil i" "\<not> id_is_nil w" "\<not> id_is_nil b"
    "id_random ra \<notin> at_id ` set (attempts r0)"
  shows "\<exists>d1 tk eng1 r.
     dispatch eng i w b (eng_epoch eng) ra rd DispatchTicket_init = Inr (d1, tk, eng1) \<and> code d1 = ALLOW \<and>
     find_record (snd (complete (snd (mark_running eng1 (start_ticket_of tk))) (completion_ticket_of tk dg) now)) i = Some r \<and>
     (if ResultDigest_is_nil dg then state r \<noteq> COMMITTED else state r = COMMITTED \<and> committed_digest r = Some dg)"
proof (cases "ResultDigest_is_nil dg")
  case False
  from dispatched_worker_commits [OF assms False, of rd now] False show ?thesis by fastforce
next
  case True
  have nn: "\<not> ResultDigest_is_nil (ResultDigest (to_array [1]))" by code_simp
  obtain d1 tk eng1 d2 eng2 d3 eng3 where
    d: "dispatch eng i w b (eng_epoch eng) ra rd DispatchTicket_init = Inr (d1, tk, eng1)" "code d1 = ALLOW"
    and m: "mark_running eng1 (start_ticket_of tk) = (d2, eng2)"
    and c: "complete eng2 (completion_ticket_of tk (ResultDigest (to_array [1]))) now = (d3, eng3)" "code d3 = ALLOW"
    using dispatched_worker_commits [OF assms nn, of rd now] by blast
  have "engine_wf eng2"
    using assms(1) dispatch_call [OF d(1)] mark_running_call [of eng1 "start_ticket_of tk"] m
    by (auto dest: engine_runs.inv_step)
  from complete_authority [OF this, of "completion_ticket_of tk (ResultDigest (to_array [1]))" now] c
  obtain r where r: "find_record eng2 (dt_execution_id tk) = Some r" "state r \<in> committable"
    by (auto simp: completion_ticket_of_def)
  obtain r1 at where tk: "r1 = (install_attempt at (supersede_current r0))\<lparr>state := ExecutionState.DISPATCHED\<rparr>"
      "tk = issue_ticket (eng_epoch eng) r1 at"
    using dispatch_granted [OF d] assms(2) by (metis option.inject)
  have "dt_execution_id tk = i"
    using find_record_wf [OF assms(1,2)] by (simp add: tk issue_ticket_def install_attempt_def)
  moreover have "snd (complete eng2 (completion_ticket_of tk dg) now) = eng2"
    by (rule complete_nil_digest) (simp add: completion_ticket_of_def True)
  ultimately have "find_record (snd (complete (snd (mark_running eng1 (start_ticket_of tk))) (completion_ticket_of tk dg) now)) i = Some r"
    using r(1) m by simp
  moreover have "state r \<noteq> COMMITTED" using r(2) by (auto simp: committable_def)
  ultimately show ?thesis using True d by (metis (full_types))
qed

section \<open>Resume\<close>

lemma preempted_to_resumable:
  assumes r: "find_record eng i = Some r" "state r = ExecutionState.RUNNING"
    and e: "coordinator_epoch r = eng_epoch eng"
    and req: "req_execution_id req = i" "req_epoch req = eng_epoch eng" "authority_generation req = ownership_generation r"
  shows "engine_run eng [Preempt req, AcknowledgePreempt i (eng_epoch eng), MarkResumable i (eng_epoch eng)] =
    Some (store_record i (r\<lparr>preemption_generation := gen_next (preemption_generation r),
      attempts := mark_current AttemptState.PREEMPTED (current_attempt_id r) (attempts r), state := RESUMABLE\<rparr>) eng)"
proof -
  have "store_record i a (store_record i b' eng) = store_record i a eng" for a b'
    by (simp add: store_record_def)
  then show ?thesis using assms
    by (simp add: preempt_def acknowledge_preempt_def mark_resumable_def on_record_def preempt_rec_def
        acknowledge_preempt_rec_def mark_resumable_rec_def split_beta is_terminal_iff)
qed

lemma resume_granted:
  assumes q: "find_record eng i = Some q" "state q = RESUMABLE" and e: "coordinator_epoch q = eng_epoch eng"
  obtains d p at where
    "resume eng i w b (eng_epoch eng) (gen_next (resume_generation q)) ra rd tk0 =
       (d, issue_ticket (eng_epoch eng) p at, store_record i p eng)"
    "code d = RESUME_ALLOWED" "state p = RESUMING" "rec_id p = rec_id q" "cores p = cores q @ [at_core at]"
    "coordinator_epoch p = coordinator_epoch q"
    "at_worker_id at = w" "at_worker_boot_id at = b"
    "current_attempt_id p = Some (at_id at)" "current_attempt_generation p = Some (at_generation at)"
    "owner_worker p = Some (at_worker_id at)" "owner_worker_boot p = Some (at_worker_boot_id at)"
    "ownership_generation p = at_ownership_generation at" "fence_generation p = at_fence_generation at"
proof -
  let ?q = "q\<lparr>resume_generation := gen_next (resume_generation q),
    attempts := supersede_preempted (current_attempt_id q) (attempts q)\<rparr>"
  define at where "at = new_attempt ?q w b ra rd"
  define p where "p = (install_attempt at ?q)\<lparr>state := RESUMING\<rparr>"
  have at: "at_worker_id at = w" "at_worker_boot_id at = b" by (simp_all add: at_def new_attempt_def)
  have "cores p = cores q @ [at_core at]" by (simp add: p_def, simp add: cores_def)
  moreover have "resume eng i w b (eng_epoch eng) (gen_next (resume_generation q)) ra rd tk0 =
      (decide p RESUME_ALLOWED ''resume authorised: fresh attempt supersedes preempted attempt'',
       issue_ticket (eng_epoch eng) p at, store_record i p eng)"
    using q e by (simp add: resume_def resume_rec_def transition_def Let_def p_def at_def install_attempt_def)
  moreover have "state p = RESUMING" "rec_id p = rec_id q" "coordinator_epoch p = coordinator_epoch q"
    "current_attempt_id p = Some (at_id at)" "current_attempt_generation p = Some (at_generation at)"
    "owner_worker p = Some (at_worker_id at)" "owner_worker_boot p = Some (at_worker_boot_id at)"
    "ownership_generation p = at_ownership_generation at" "fence_generation p = at_fence_generation at"
    by (simp_all add: p_def install_attempt_def)
  ultimately show thesis using that [of "decide p RESUME_ALLOWED _" p at] at by simp
qed

section \<open>Records left behind by an epoch change\<close>

lemma old_record_run:
  assumes "engine_reachable eng" "find_record eng i = Some r" "coordinator_epoch r < eng_epoch eng"
    "engine_run eng es = Some eng'"
  obtains r' where "find_record eng' i = Some r'" "coordinator_epoch r' < eng_epoch eng'" "record_wf r'" "record_advances r r'"
proof -
  have wf: "engine_wf eng" using assms(1) by (rule reachable_wf)
  obtain r' where r': "find_record eng' i = Some r'" "record_advances r r'" "record_wf r'"
    using run_record [OF wf assms(4)[unfolded engine_run_steps] assms(2)] by blast
  moreover have "eng_epoch eng \<le> eng_epoch eng'"
    using engine_runs.advances_steps [OF assms(4)[unfolded engine_run_steps] wf] by (simp add: engine_advances_def)
  ultimately show thesis using that assms(3) by (auto simp: record_advances_def)
qed

section \<open>Snapshots of the records\<close>

lemma in_records:
  "engine_wf eng \<Longrightarrow> r \<in> set (records eng) \<longleftrightarrow> (\<exists>i. find_record eng i = Some r)"
  by (force simp: engine_wf_def records_def find_record_def map_of_eq_Some_iff)

lemma records_distinct: "engine_wf eng \<Longrightarrow> distinct (map rec_id (records eng))"
proof -
  assume wf: "engine_wf eng"
  then have "map rec_id (map snd (eng_records eng)) = map fst (eng_records eng)"
    by (auto simp: engine_wf_def find_record_def map_of_eq_Some_iff)
  then have "distinct (map rec_id (map snd (eng_records eng)))"
    using wf unfolding engine_wf_def by argo
  then show ?thesis 
    unfolding records_def  by (metis distinct_map distinct_sort set_sort)
qed

lemma emplace_distinct:
  "distinct (map rec_id rs) \<Longrightarrow> rec_id ` set rs \<inter> fst ` set al = {} \<Longrightarrow>
     fold emplace rs al = al @ map (\<lambda>r. (rec_id r, r)) rs"
proof (induction rs arbitrary: al)
  case (Cons r rs)
  then have "map_of al (rec_id r) = None" by (auto simp: map_of_eq_None_iff)
  then have "emplace r al = al @ [(rec_id r, r)]" by (simp add: emplace_def)
  moreover have "rec_id ` set rs \<inter> fst ` set (al @ [(rec_id r, r)]) = {}" using Cons.prems by auto
  ultimately show ?case using Cons by simp
qed simp

lemma fold_epoch_ge:
  "e \<le> fold (\<lambda>kv e. if coordinator_epoch (snd kv) > e then coordinator_epoch (snd kv) else e) al e"
  by (induction al arbitrary: e) (auto intro: order_trans less_imp_le)

lemma fold_epoch_bound:
  "kv \<in> set al \<Longrightarrow>
     coordinator_epoch (snd kv) \<le> fold (\<lambda>kv e. if coordinator_epoch (snd kv) > e then coordinator_epoch (snd kv) else e) al e"
proof (induction al arbitrary: e)
  case (Cons kv' al)
  then show ?case using fold_epoch_ge [of "max e (coordinator_epoch (snd kv'))" al]
    by (auto simp: max_def not_less split: if_splits intro: order_trans)
qed simp

lemma replace_records_find:
  assumes wf: "engine_wf eng"
  shows "find_record (replace_records (records eng) eng0) i = find_record eng i \<and>
    eng_epoch eng0 \<le> eng_epoch (replace_records (records eng) eng0) \<and>
    (\<forall>r. find_record eng i = Some r \<longrightarrow> coordinator_epoch r \<le> eng_epoch (replace_records (records eng) eng0))"
proof -
  let ?al = "map (\<lambda>r. (rec_id r, r)) (records eng)"
  have al: "fold emplace (records eng) [] = ?al"
    using emplace_distinct [of "records eng" "[]"] records_distinct [OF wf] by simp
  have in_al: "(i, r) \<in> set ?al \<longleftrightarrow> find_record eng i = Some r" for i r
    using in_records [OF wf] find_record_wf [OF wf] by auto
  have "distinct (map fst ?al)" using records_distinct [OF wf] by (simp add: comp_def)
  then have "map_of ?al i = Some r \<longleftrightarrow> find_record eng i = Some r" for r using in_al by simp
  then have "map_of ?al i = find_record eng i" by (metis not_Some_eq)
  then have "find_record (replace_records (records eng) eng0) i = find_record eng i"
    by (simp add: replace_records_def find_record_def al Let_def)
  moreover have "eng_epoch eng0 \<le> eng_epoch (replace_records (records eng) eng0)"
    by (simp add: replace_records_def al fold_epoch_ge Let_def)
  moreover have "coordinator_epoch r \<le> eng_epoch (replace_records (records eng) eng0)" if "find_record eng i = Some r" for r
    using fold_epoch_bound [of "(i, r)" ?al] in_al that by (simp add: replace_records_def al Let_def)
  ultimately show ?thesis by blast
qed

lemma replace_records_wf:
  assumes wf: "engine_wf eng"
  shows "engine_wf (replace_records (records eng) eng0)"
proof -
  have "eng_records (replace_records (records eng) eng0) = map (\<lambda>r. (rec_id r, r)) (records eng)"
    using emplace_distinct [of "records eng" "[]"] records_distinct [OF wf] by (simp add: replace_records_def Let_def)
  then have "distinct (map fst (eng_records (replace_records (records eng) eng0)))"
    using records_distinct [OF wf] by (simp add: comp_def)
  then show ?thesis
    using replace_records_find [OF wf, of eng0] find_record_wf [OF wf] unfolding engine_wf_def by metis
qed

end
