(* ===== verification/Recovery.thy ===== *)
theory Recovery
  imports Snapshot Engine_Facts
begin

text \<open>
  Between the engine and the store: which records of a reachable engine the decoder accepts, and
  what one record that it refuses does to the whole snapshot.
\<close>

section \<open>Which engine records are valid\<close>

lemma check_attempts_None:
  "check_attempts A D ats = None \<longleftrightarrow>
     distinct (map at_id ats) \<and> distinct (map at_dispatch_id ats) \<and>
     at_id ` set ats \<inter> A = {} \<and> at_dispatch_id ` set ats \<inter> D = {} \<and>
     (\<forall>at \<in> set ats. gen_is_set (at_generation at) \<and> gen_is_set (at_dispatch_generation at))"
  by (induction ats arbitrary: A D) auto

lemma check_current_absent:
  "c \<notin> at_id ` set ats \<Longrightarrow> check_current c (Some g) True ats = None"
  by (induction ats) auto

lemma check_current_last:
  assumes "distinct (map at_id ats)" "ats \<noteq> []"
  shows "check_current (at_id (last ats)) (Some (at_generation (last ats))) False ats = None"
  using assms
proof (induction ats)
  case (Cons at ats)
  then show ?case
  proof (cases "ats = []")
    case False
    then have "at_id at \<noteq> at_id (last ats)" using Cons.prems(1) by (metis distinct.simps(2) image_eqI last_in_set list.map(2) set_map)
    then show ?thesis using False Cons by simp
  qed simp
qed simp

lemma record_wf_validate:
  assumes wf: "record_wf r" and ids: "distinct (map at_id (attempts r))" "distinct (map at_dispatch_id (attempts r))"
  shows "validate_record r = check_owner r"
proof -
  have gens: "gen_is_set (at_generation at) \<and> gen_is_set (at_dispatch_generation at)" if "at \<in> set (attempts r)" for at
  proof -
    have "at_core at \<in> set (cores r)" using that by (simp add: cores_def)
    then have "attempt_wf (at_core at)" using wf by (auto simp: record_wf_def history_wf_def)
    then show ?thesis by (simp add: attempt_wf_def gen_is_set_def)
  qed
  then have "check_attempts {} {} (attempts r) = None" using ids by (simp add: check_attempts_None)
  moreover have "check_current c (current_attempt_generation r) False (attempts r) = None"
    if c: "current_attempt_id r = Some c" for c
  proof -
    have auth: "authority_wf r (cores r)" using wf by (simp add: record_wf_def)
    then have ne: "attempts r \<noteq> []" using c by (auto simp: authority_wf_def)
    then have "c = at_id (last (attempts r))" "current_attempt_generation r = Some (at_generation (last (attempts r)))"
      using auth c by (auto simp: authority_wf_def cores_def last_map)
    then show ?thesis using check_current_last [OF ids(1) ne] by simp
  qed
  moreover have "check_committed r = None" "gen_is_set (generation r)"
    using wf by (auto simp: record_wf_def commit_wf_def check_committed_def gen_is_set_def split: if_splits)
  ultimately show ?thesis by (simp add: validate_record_def split: option.split)
qed

lemma record_wf_check_owner:
  assumes wf: "record_wf r"
  shows "check_owner r = None \<longleftrightarrow>
     (state r \<in> {RESUMING, CANCELLATION_REQUESTED, PREEMPTION_REQUESTED} \<longrightarrow> current_attempt_id r \<noteq> None)"
proof -
  have "authority_wf r (cores r)" and life: "lifecycle_wf r" using wf by (simp_all add: record_wf_def)
  then have own: "current_attempt_id r \<noteq> None \<Longrightarrow> owner_worker r \<noteq> None \<and> owner_worker_boot r \<noteq> None"
    by (auto simp: authority_wf_def)
  have "state r = ExecutionState.DISPATCHED \<or> state r = ExecutionState.RUNNING \<Longrightarrow> current_attempt_id r \<noteq> None"
    using life by (auto simp: lifecycle_wf_def)
  with own show ?thesis
    unfolding check_owner_def by (cases "current_attempt_id r = None"; cases "state r") simp_all
qed

section \<open>One invalid record spoils the snapshot\<close>

definition payload_fits :: "ExecutionRecord \<Rightarrow> bool" where
  "payload_fits rec \<longleftrightarrow> fits_record rec \<and> length (encode_record rec) \<le> kMaxRecordPayload"

lemma load_invalid_frame:
  assumes fit: "payload_fits rec" and bad: "validate_record rec = Some e"
  shows "load_records ep (Suc n) ids recs (ByteReader (frame_record rec @ rest)) =
     Inl (''load: malformed record ('' @ e @ '')'', ep)"
proof -
  have enc: "decode_record (encode_record rec) = Inl e"
    using assms by (intro decode_record_reports) (simp_all add: payload_fits_def)
  have len: "unat (word_of_nat (length (encode_record rec)) :: u32) = length (encode_record rec)"
      "unat (word_of_nat (length (encode_record rec)) + 8 :: u32) = length (encode_record rec) + 8"
    using fit by (simp_all only: payload_length payload_fits_def)
  have "(word_of_nat (length (encode_record rec)) :: u32) \<noteq> 0"
    using len(1) encode_record_nonempty [of rec] by (metis less_irrefl unat_0)
  moreover have "length (encode_record rec) \<le> kMaxRecordPayload" using fit by (simp add: payload_fits_def)
  ultimately show ?thesis
    by (simp add: frame_record_def Let_def codec_rt len enc cong: rd_cong)
qed

lemma load_records_invalid:
  assumes "list_all payload_fits rs" "distinct (map rec_id rs)" "rec_id ` set rs \<inter> ids = {}"
    and "\<exists>r \<in> set rs. validate_record r \<noteq> None"
  shows "\<exists>e. load_records ep (length rs) ids recs (ByteReader (concat (map frame_record rs))) =
     Inl (''load: malformed record ('' @ e @ '')'', ep)"
  using assms
proof (induction rs arbitrary: ids recs)
  case (Cons rec rs)
  show ?case
  proof (cases "validate_record rec")
    case None
    then have "storable rec" using Cons.prems(1) by (simp add: storable_def payload_fits_def)
    moreover have "rec_id rec \<notin> ids" "rec_id ` set rs \<inter> insert (rec_id rec) ids = {}" using Cons.prems by auto
    ultimately show ?thesis
      using Cons.IH [of "insert (rec_id rec) ids" "recs @ [rec]"] Cons.prems None load_frame [of rec ids ep "length rs" recs] by simp
  next
    case (Some e)
    then show ?thesis using load_invalid_frame [of rec e ep "length rs" ids recs] Cons.prems(1) by auto
  qed
qed simp

lemma load_bytes_invalid:
  assumes "list_all payload_fits rs" "distinct (map rec_id rs)" "length rs \<le> kMaxCount"
    and "\<exists>r \<in> set rs. validate_record r \<noteq> None"
  shows "\<exists>e. load_bytes epoch0 (snapshot_bytes rs ep) = Inl (''load: malformed record ('' @ e @ '')'', ep)"
proof -
  have n: "unat (word_of_nat (length rs) :: u32) = length rs"
    using assms(3) by (intro unat_word_of_nat_u32) (simp add: kMaxCount_def kMaxVector_def)
  obtain e where "load_records ep (length rs) {} [] (ByteReader (concat (map frame_record rs))) =
      Inl (''load: malformed record ('' @ e @ '')'', ep)"
    using load_records_invalid [OF assms(1,2) _ assms(4), of "{}" ep "[]"] by auto
  then have "load_body epoch0 (snapshot_body rs ep) = Inl (''load: malformed record ('' @ e @ '')'', ep)"
    using assms(3) by (simp add: load_body_def snapshot_body_def rd_magic codec_rt n cong: rd_cong)
  moreover have "kHeaderSize \<le> length (snapshot_body rs ep)" by (simp add: snapshot_body_def kHeaderSize_def)
  ultimately show ?thesis
    by (simp add: load_bytes_def snapshot_bytes_def Let_def kTrailerSize_def rd_u64_last)
qed

end
