(* ===== verification/Sha256.thy ===== *)
theory Sha256
  imports Decision
begin

text \<open>
  \<^verbatim>\<open>include/execution_fabric/sha256.hpp\<close>: the streaming hash behind result digests. The state is
  the chaining value \<^verbatim>\<open>h_\<close>, the 64-byte buffer with its fill level and the byte counter
  \<^verbatim>\<open>total_len_\<close>. The buffer is not initialised by the constructor; its content there is an argument.

  The lemmas relate the byte-wise state machine to hashing the padded message block by block, and
  show which length field the code pads with.
\<close>

section \<open>The compression function\<close>

definition rotr :: "u32 \<Rightarrow> nat \<Rightarrow> u32" where
  "rotr x n = drop_bit n x OR push_bit (32 - n) x"

text \<open>The table of round constants, row by row as in the code.\<close>

definition sha_K :: "u32 list" where
  "sha_K = concat
    [[0x428a2f98, 0x71374491, 0xb5c0fbcf, 0xe9b5dba5, 0x3956c25b, 0x59f111f1, 0x923f82a4, 0xab1c5ed5],
     [0xd807aa98, 0x12835b01, 0x243185be, 0x550c7dc3, 0x72be5d74, 0x80deb1fe, 0x9bdc06a7, 0xc19bf174],
     [0xe49b69c1, 0xefbe4786, 0x0fc19dc6, 0x240ca1cc, 0x2de92c6f, 0x4a7484aa, 0x5cb0a9dc, 0x76f988da],
     [0x983e5152, 0xa831c66c, 0xb00327c8, 0xbf597fc7, 0xc6e00bf3, 0xd5a79147, 0x06ca6351, 0x14292967],
     [0x27b70a85, 0x2e1b2138, 0x4d2c6dfc, 0x53380d13, 0x650a7354, 0x766a0abb, 0x81c2c92e, 0x92722c85],
     [0xa2bfe8a1, 0xa81a664b, 0xc24b8b70, 0xc76c51a3, 0xd192e819, 0xd6990624, 0xf40e3585, 0x106aa070],
     [0x19a4c116, 0x1e376c08, 0x2748774c, 0x34b0bcb5, 0x391c0cb3, 0x4ed8aa4a, 0x5b9cca4f, 0x682e6ff3],
     [0x748f82ee, 0x78a5636f, 0x84c87814, 0x8cc70208, 0x90befffa, 0xa4506ceb, 0xbef9a3f7, 0xc67178f2]]"

definition be_word :: "u8 list \<Rightarrow> nat \<Rightarrow> u32" where
  "be_word p i =
     push_bit 24 (ucast (p ! (i * 4))) OR push_bit 16 (ucast (p ! (i * 4 + 1)))
     OR push_bit 8 (ucast (p ! (i * 4 + 2))) OR ucast (p ! (i * 4 + 3))"

definition schedule_word :: "u32 list \<Rightarrow> nat \<Rightarrow> u32" where
  "schedule_word w i =
     (let s0 = rotr (w ! (i - 15)) 7 XOR rotr (w ! (i - 15)) 18 XOR drop_bit 3 (w ! (i - 15));
          s1 = rotr (w ! (i - 2)) 17 XOR rotr (w ! (i - 2)) 19 XOR drop_bit 10 (w ! (i - 2))
      in w ! (i - 16) + s0 + w ! (i - 7) + s1)"

definition message_schedule :: "u8 list \<Rightarrow> u32 list" where
  "message_schedule p = fold (\<lambda>i w. w @ [schedule_word w i]) [16..<64] (map (be_word p) [0..<16])"

type_synonym sha_regs = "u32 \<times> u32 \<times> u32 \<times> u32 \<times> u32 \<times> u32 \<times> u32 \<times> u32"

text \<open>One round and the compression, over a table of round constants; the code's table is \<open>sha_K\<close>.\<close>

definition sha_round :: "u32 list \<Rightarrow> u32 list \<Rightarrow> nat \<Rightarrow> sha_regs \<Rightarrow> sha_regs" where
  "sha_round K w i = (\<lambda>(a, b, c, d, e, f, g, h).
     (let S1 = rotr e 6 XOR rotr e 11 XOR rotr e 25;
          ch = (e AND f) XOR (NOT e AND g);
          t1 = h + S1 + ch + K ! i + w ! i;
          S0 = rotr a 2 XOR rotr a 13 XOR rotr a 22;
          maj = (a AND b) XOR (a AND c) XOR (b AND c);
          t2 = S0 + maj
      in (t1 + t2, a, b, c, d + t1, e, f, g)))"

definition sha_compress_with :: "u32 list \<Rightarrow> u32 list \<Rightarrow> u8 list \<Rightarrow> u32 list" where
  "sha_compress_with K hs p =
     (let w = message_schedule p;
          (a, b, c, d, e, f, g, h) =
            fold (sha_round K w) [0..<64] (hs ! 0, hs ! 1, hs ! 2, hs ! 3, hs ! 4, hs ! 5, hs ! 6, hs ! 7)
      in [hs ! 0 + a, hs ! 1 + b, hs ! 2 + c, hs ! 3 + d, hs ! 4 + e, hs ! 5 + f, hs ! 6 + g, hs ! 7 + h])"

definition sha_compress :: "u32 list \<Rightarrow> u8 list \<Rightarrow> u32 list" where
  "sha_compress = sha_compress_with sha_K"

section \<open>The hash object\<close>

record sha256 =
  sha_h :: "u32 list"
  sha_buf :: "u8 list"
  sha_buf_len :: nat
  sha_total_len :: u64

definition sha_H0 :: "u32 list" where
  "sha_H0 = [0x6a09e667, 0xbb67ae85, 0x3c6ef372, 0xa54ff53a, 0x510e527f, 0x9b05688c, 0x1f83d9ab, 0x5be0cd19]"

definition Sha256 :: "u8 list \<Rightarrow> sha256" where
  "Sha256 junk = \<lparr>sha_h = sha_H0, sha_buf = junk, sha_buf_len = 0, sha_total_len = 0\<rparr>"

definition sha_transform :: "u8 list \<Rightarrow> sha256 \<Rightarrow> sha256" where
  "sha_transform p s = s\<lparr>sha_h := sha_compress (sha_h s) p, sha_total_len := sha_total_len s + 64\<rparr>"

text \<open>\<^verbatim>\<open>buf_[buf_len_++] = b\<close>\<close>

definition sha_push :: "u8 \<Rightarrow> sha256 \<Rightarrow> sha256" where
  "sha_push b s = s\<lparr>sha_buf := (sha_buf s)[sha_buf_len s := b], sha_buf_len := sha_buf_len s + 1\<rparr>"

definition sha_byte :: "u8 \<Rightarrow> sha256 \<Rightarrow> sha256" where
  "sha_byte b s =
     (let s = sha_push b s
      in if sha_buf_len s = 64 then (sha_transform (sha_buf s) s)\<lparr>sha_buf_len := 0\<rparr> else s)"

definition sha_update :: "u8 list \<Rightarrow> sha256 \<Rightarrow> sha256" where
  "sha_update bs s = fold sha_byte bs s"

text \<open>\<^verbatim>\<open>while (buf_len_ < n) { buf_[buf_len_++] = 0; }\<close>\<close>

function sha_zero_fill :: "nat \<Rightarrow> sha256 \<Rightarrow> sha256" where
  "sha_zero_fill n s = (if sha_buf_len s < n then sha_zero_fill n (sha_push 0 s) else s)"
  by pat_completeness auto
termination
  by (relation "measure (\<lambda>(n, s). n - sha_buf_len s)") (auto simp: sha_push_def)

declare sha_zero_fill.simps [simp del]

definition sha_output :: "u32 list \<Rightarrow> u8 list" where
  "sha_output hs = concat (map (\<lambda>h. [ucast (drop_bit 24 h), ucast (drop_bit 16 h), ucast (drop_bit 8 h), ucast h]) hs)"

definition sha_final :: "sha256 \<Rightarrow> u8 list" where
  "sha_final s =
     (let bitlen = sha_total_len s * 8;
          s = sha_push 0x80 s;
          s = (if sha_buf_len s > 56
               then (let s = sha_zero_fill 64 s in (sha_transform (sha_buf s) s)\<lparr>sha_buf_len := 0\<rparr>)
               else s);
          s = sha_zero_fill 56 s;
          s = s\<lparr>sha_buf := fold (\<lambda>i buf. buf[63 - i := ucast (drop_bit (8 * i) bitlen)]) [0..<8] (sha_buf s)\<rparr>;
          s = sha_transform (sha_buf s) s
      in sha_output (sha_h s))"

definition sha256_digest :: "u8 list \<Rightarrow> u8 list \<Rightarrow> u8 list" where
  "sha256_digest junk bs = sha_final (sha_update bs (Sha256 junk))"

text \<open>\<^verbatim>\<open>ResultDigest::of_buffer\<close>.\<close>

definition of_buffer :: "u8 list \<Rightarrow> u8 list \<Rightarrow> ResultDigest" where
  "of_buffer junk v = ResultDigest (to_array (sha256_digest junk v))"

section \<open>Hashing block by block\<close>

fun hash_blocks :: "(u32 list \<Rightarrow> u8 list \<Rightarrow> u32 list) \<Rightarrow> u32 list \<Rightarrow> u8 list \<Rightarrow> u32 list" where
  "hash_blocks compress hs bs =
     (if length bs < 64 then hs else hash_blocks compress (compress hs (take 64 bs)) (drop 64 bs))"

declare hash_blocks.simps [simp del]

text \<open>The padded message with a given number in its length field.\<close>

definition be64 :: "u64 \<Rightarrow> u8 list" where
  "be64 v = map (\<lambda>i. ucast (drop_bit (8 * (7 - i)) v)) [0..<8]"

definition padding_zeros :: "nat \<Rightarrow> nat" where
  "padding_zeros n = (119 - n mod 64) mod 64"

definition sha_pad :: "u64 \<Rightarrow> u8 list \<Rightarrow> u8 list" where
  "sha_pad bitlen bs = bs @ [0x80] @ replicate (padding_zeros (length bs)) 0 @ be64 bitlen"

text \<open>
  The hash of FIPS 180-4: the round constants are the first 32 bits of the fractional parts of the
  cube roots of the first 64 primes, and the length field is the number of bits of the message.
\<close>

definition first_primes :: "int list" where
  "first_primes =
     [2, 3, 5, 7, 11, 13, 17, 19, 23, 29, 31, 37, 41, 43, 47, 53, 59, 61, 67, 71, 73, 79, 83, 89, 97, 101,
      103, 107, 109, 113, 127, 131, 137, 139, 149, 151, 157, 163, 167, 173, 179, 181, 191, 193, 197, 199,
      211, 223, 227, 229, 233, 239, 241, 251, 257, 263, 269, 271, 277, 281, 283, 293, 307, 311]"

definition cube_root_fraction :: "int \<Rightarrow> u32 \<Rightarrow> bool" where
  "cube_root_fraction p k \<longleftrightarrow>
     list_ex (\<lambda>a. (a * 2 ^ 32 + uint k) ^ 3 \<le> p * 2 ^ 96 \<and> p * 2 ^ 96 < (a * 2 ^ 32 + uint k + 1) ^ 3) [1, 2, 3, 4, 5, 6]"

definition standard_K :: "u32 list" where
  "standard_K = sha_K[25 := 0xa831c66d]"

definition SHA256_standard :: "u8 list \<Rightarrow> u8 list" where
  "SHA256_standard bs =
     sha_output (hash_blocks (sha_compress_with standard_K) sha_H0 (sha_pad (word_of_nat (length bs) * 8) bs))"

lemma hash_blocks_short [simp]: "length bs < 64 \<Longrightarrow> hash_blocks f hs bs = hs"
  by (simp add: hash_blocks.simps)

lemma hash_blocks_block: "length p = 64 \<Longrightarrow> hash_blocks f hs (p @ bs) = hash_blocks f (f hs p) bs"
  by (simp add: hash_blocks.simps [of f hs "p @ bs"])

lemma hash_blocks_append: "length xs = 64 * n \<Longrightarrow> hash_blocks f hs (xs @ ys) = hash_blocks f (hash_blocks f hs xs) ys"
proof (induction n arbitrary: hs xs)
  case (Suc n)
  have "length (take 64 xs) = 64" using Suc.prems by simp
  note step = hash_blocks_block [OF this, of f hs]
  have "hash_blocks f hs (take 64 xs @ drop 64 xs @ ys) = hash_blocks f (f hs (take 64 xs)) (drop 64 xs @ ys)"
    by (rule step)
  also have "\<dots> = hash_blocks f (hash_blocks f (f hs (take 64 xs)) (drop 64 xs)) ys"
    using Suc.prems by (intro Suc.IH) simp
  finally show ?case using step [of "drop 64 xs"] by (simp flip: append.assoc)
qed simp

section \<open>The stream invariant\<close>

text \<open>After the message \<open>msg\<close>: whole blocks are hashed and counted, the rest is in the buffer.\<close>

definition whole :: "u8 list \<Rightarrow> u8 list" where
  "whole msg = take (64 * (length msg div 64)) msg"

definition sha_stream :: "u8 list \<Rightarrow> sha256 \<Rightarrow> bool" where
  "sha_stream msg s \<longleftrightarrow>
     length (sha_buf s) = 64 \<and> sha_buf_len s < 64 \<and>
     sha_h s = hash_blocks sha_compress sha_H0 (whole msg) \<and> sha_total_len s = word_of_nat (length (whole msg)) \<and>
     msg = whole msg @ take (sha_buf_len s) (sha_buf s)"

lemma length_whole: "length (whole msg) = 64 * (length msg div 64)"
  by (simp add: whole_def)

lemma whole_append:
  assumes "length w = 64 * n" "length t < 64"
  shows "whole (w @ t) = w"
proof -
  have "length (w @ t) div 64 = n" using assms by simp
  then show ?thesis using assms by (simp add: whole_def)
qed

lemma sha_stream_mod:
  assumes "sha_stream msg s"
  shows "length msg mod 64 = sha_buf_len s"
proof -
  have "length msg = length (whole msg @ take (sha_buf_len s) (sha_buf s))" "sha_buf_len s < 64" "length (sha_buf s) = 64"
    using assms by (simp_all only: sha_stream_def)
  then have "length msg = 64 * (length msg div 64) + sha_buf_len s" by (simp add: length_whole)
  then show ?thesis by (metis add_left_cancel mult_div_mod_eq)
qed

lemma take_push: "n < length xs \<Longrightarrow> take (Suc n) (xs[n := b]) = take n xs @ [b]"
  by (simp add: take_Suc_conv_app_nth)

lemma sha_byte_stream:
  assumes "sha_stream msg s"
  shows "sha_stream (msg @ [b]) (sha_byte b s)"
proof -
  let ?n = "sha_buf_len s"
  let ?w = "whole msg" and ?t = "take ?n (sha_buf s) @ [b]"
  have s: "length (sha_buf s) = 64" "?n < 64" "sha_h s = hash_blocks sha_compress sha_H0 ?w"
      "sha_total_len s = word_of_nat (length ?w)" "msg = ?w @ take ?n (sha_buf s)"
    using assms by (simp_all only: sha_stream_def)
  have msg: "msg @ [b] = ?w @ ?t" using s(5) by (metis append.assoc)
  have t: "take (Suc ?n) ((sha_buf s)[?n := b]) = ?t" using s by (simp add: take_push)
  show ?thesis
  proof (cases "Suc ?n = 64")
    case True
    then have p: "(sha_buf s)[?n := b] = ?t" using t s(1) by simp
    have len: "length ?t = 64" using True s by simp
    have w: "whole (msg @ [b]) = ?w @ ?t"
      using whole_append [of "?w @ ?t" "Suc (length msg div 64)" "[]"] len by (simp add: msg length_whole)
    have "hash_blocks sha_compress sha_H0 (?w @ ?t) = sha_compress (sha_h s) ?t"
      using hash_blocks_append [OF length_whole, of sha_compress sha_H0 msg ?t] hash_blocks_block [OF len, of sha_compress _ "[]"] s(3) by simp
    then show ?thesis
      using s(1-4) True len p msg unfolding sha_stream_def w by (simp add: sha_byte_def sha_push_def sha_transform_def Let_def)
  next
    case False
    have "length ?t < 64" using False s by simp
    then have w: "whole (msg @ [b]) = ?w" unfolding msg by (rule whole_append [OF length_whole])
    show ?thesis using s(1-4) False t msg unfolding sha_stream_def w
      by (simp add: sha_byte_def sha_push_def Let_def)
  qed
qed

lemma sha_update_stream:
  assumes "length junk = 64"
  shows "sha_stream msg (sha_update msg (Sha256 junk))"
proof (induction msg rule: rev_induct)
  case Nil
  then show ?case using assms by (simp add: sha_stream_def sha_update_def Sha256_def whole_def)
next
  case (snoc b msg)
  then show ?case using sha_byte_stream by (simp add: sha_update_def)
qed

section \<open>Padding\<close>

lemma padding_zeros_eq: "padding_zeros n = (if n mod 64 < 56 then 55 - n mod 64 else 63 - n mod 64 + 56)"
proof (cases "n mod 64 < 56")
  case True
  then have "119 - n mod 64 = 64 + (55 - n mod 64)" by linarith
  moreover have "(64 + (55 - n mod 64)) mod 64 = 55 - n mod 64" by simp
  ultimately show ?thesis using True by (simp only: padding_zeros_def if_True)
next
  case False
  moreover have "n mod 64 < 64" by simp
  ultimately have "119 - n mod 64 = 63 - n mod 64 + 56" "63 - n mod 64 + 56 < 64" by linarith+
  then show ?thesis using False by (simp only: padding_zeros_def mod_less if_False)
qed

lemma sha_zero_fill_eq:
  assumes "sha_buf_len s \<le> n" "n \<le> length (sha_buf s)"
  shows "\<exists>buf. length buf = length (sha_buf s) \<and>
    take n buf = take (sha_buf_len s) (sha_buf s) @ replicate (n - sha_buf_len s) 0 \<and>
    sha_zero_fill n s = s\<lparr>sha_buf := buf, sha_buf_len := n\<rparr>"
  using assms
proof (induction n s rule: sha_zero_fill.induct)
  case (1 n s)
  show ?case
  proof (cases "sha_buf_len s < n")
    case True
    let ?s = "sha_push 0 s"
    have l: "sha_buf_len ?s = Suc (sha_buf_len s)" "length (sha_buf ?s) = length (sha_buf s)"
      by (simp_all add: sha_push_def)
    have t: "take (sha_buf_len ?s) (sha_buf ?s) = take (sha_buf_len s) (sha_buf s) @ [0]"
      using True 1(3) by (simp add: sha_push_def take_push)
    have r: "replicate (n - sha_buf_len s) (0 :: u8) = 0 # replicate (n - Suc (sha_buf_len s)) 0"
      using True by (simp flip: replicate_Suc add: Suc_diff_Suc)
    obtain buf where "length buf = length (sha_buf s)"
        "take n buf = take (sha_buf_len s) (sha_buf s) @ replicate (n - sha_buf_len s) 0"
        "sha_zero_fill n ?s = ?s\<lparr>sha_buf := buf, sha_buf_len := n\<rparr>"
      using 1(1) [OF True] True 1(3) l t r by auto
    then show ?thesis using True by (auto simp: sha_zero_fill.simps [of n s] sha_push_def)
  next
    case False
    then have "sha_buf_len s = n" using 1(2) by simp
    then show ?thesis using False by (auto simp: sha_zero_fill.simps [of n s] intro!: exI [of _ "sha_buf s"])
  qed
qed

lemma length_be64 [simp]: "length (be64 v) = 8"
  by (simp add: be64_def)

lemma be64_store:
  assumes "length buf = 64"
  shows "fold (\<lambda>i buf. buf[63 - i := ucast (drop_bit (8 * i) v)]) [0..<8] buf = take 56 buf @ be64 v"
proof -
  have "length (drop 56 buf) = Suc (Suc (Suc (Suc (Suc (Suc (Suc (Suc 0)))))))" using assms by simp
  then obtain a b c d e f g h where "drop 56 buf = [a, b, c, d, e, f, g, h]"
    unfolding length_Suc_conv by auto
  then have "buf = take 56 buf @ [a, b, c, d, e, f, g, h]" by (metis append_take_drop_id)
  moreover have "length (take 56 buf) = 56" using assms by simp
  ultimately obtain p where "buf = p @ [a, b, c, d, e, f, g, h]" "length p = 56" by blast
  then show ?thesis by (simp add: be64_def upt_rec list_update_append)
qed

lemma sha_final_one_block:
  assumes "sha_stream msg s" "sha_buf_len s < 56"
  shows "sha_final s = sha_output (hash_blocks sha_compress sha_H0 (sha_pad (sha_total_len s * 8) msg))"
proof -
  let ?n = "sha_buf_len s"
  let ?s = "sha_push 0x80 s"
  have s: "length (sha_buf s) = 64" "sha_h s = hash_blocks sha_compress sha_H0 (whole msg)" "msg = whole msg @ take ?n (sha_buf s)"
    using assms(1) by (simp_all only: sha_stream_def)
  have p: "sha_buf_len ?s = Suc ?n" "length (sha_buf ?s) = 64" "take (Suc ?n) (sha_buf ?s) = take ?n (sha_buf s) @ [0x80]"
      "sha_h ?s = sha_h s"
    using s(1) assms(2) by (simp_all add: sha_push_def take_push)
  obtain buf where buf: "length buf = 64" "take 56 buf = take ?n (sha_buf s) @ [0x80] @ replicate (55 - ?n) 0"
      "sha_zero_fill 56 ?s = ?s\<lparr>sha_buf := buf, sha_buf_len := 56\<rparr>"
    using sha_zero_fill_eq [of ?s 56] p assms(2) by auto
  let ?block = "take 56 buf @ be64 (sha_total_len s * 8)"
  have len: "length msg mod 64 = ?n" by (rule sha_stream_mod [OF assms(1)])
  have z: "padding_zeros (length msg) = 55 - ?n" using assms(2) by (simp add: padding_zeros_eq len)
  have "sha_pad (sha_total_len s * 8) msg = whole msg @ ?block"
    using arg_cong [OF s(3), of "\<lambda>m. m @ [0x80] @ replicate (55 - ?n) 0 @ be64 (sha_total_len s * 8)"]
    by (simp add: sha_pad_def z buf(2))
  moreover have "hash_blocks sha_compress (sha_h s) ?block = sha_compress (sha_h s) ?block"
    using hash_blocks_block [of ?block sha_compress "sha_h s" "[]"] buf(1) by simp
  ultimately have "hash_blocks sha_compress sha_H0 (sha_pad (sha_total_len s * 8) msg) = sha_compress (sha_h s) ?block"
    using hash_blocks_append [OF length_whole, of sha_compress sha_H0 msg ?block] s(2) by simp
  then show ?thesis
    using p(1,4) assms(2) buf(1,3) by (simp add: sha_final_def Let_def be64_store sha_transform_def del: upt_rec_numeral)
qed

lemma sha_final_two_blocks:
  assumes "sha_stream msg s" "56 \<le> sha_buf_len s"
  shows "sha_final s = sha_output (hash_blocks sha_compress sha_H0 (sha_pad (sha_total_len s * 8) msg))"
proof -
  let ?n = "sha_buf_len s"
  let ?s = "sha_push 0x80 s"
  have s: "length (sha_buf s) = 64" "?n < 64" "sha_h s = hash_blocks sha_compress sha_H0 (whole msg)" "msg = whole msg @ take ?n (sha_buf s)"
    using assms(1) by (simp_all only: sha_stream_def)
  have p: "sha_buf_len ?s = Suc ?n" "length (sha_buf ?s) = 64" "take (Suc ?n) (sha_buf ?s) = take ?n (sha_buf s) @ [0x80]"
      "sha_h ?s = sha_h s"
    using s(1,2) by (simp_all add: sha_push_def take_push)
  obtain buf where buf: "length buf = 64" "buf = take ?n (sha_buf s) @ [0x80] @ replicate (63 - ?n) 0"
      "sha_zero_fill 64 ?s = ?s\<lparr>sha_buf := buf, sha_buf_len := 64\<rparr>"
    using sha_zero_fill_eq [of ?s 64] p s(2) by auto
  let ?s1 = "(sha_transform buf (?s\<lparr>sha_buf := buf, sha_buf_len := 64\<rparr>))\<lparr>sha_buf_len := 0\<rparr>"
  have s1: "sha_buf_len ?s1 = 0" "length (sha_buf ?s1) = 64" "sha_h ?s1 = sha_compress (sha_h s) buf"
    using buf(1) p(4) by (simp_all add: sha_transform_def)
  obtain buf2 where buf2: "length buf2 = 64" "take 56 buf2 = replicate 56 0"
      "sha_zero_fill 56 ?s1 = ?s1\<lparr>sha_buf := buf2, sha_buf_len := 56\<rparr>"
    using sha_zero_fill_eq [of ?s1 56] s1 by auto
  let ?block = "take 56 buf2 @ be64 (sha_total_len s * 8)"
  have len: "length msg mod 64 = ?n" by (rule sha_stream_mod [OF assms(1)])
  have z: "padding_zeros (length msg) = (63 - ?n) + 56"
    using assms(2) by (simp add: padding_zeros_eq len)
  have "sha_pad (sha_total_len s * 8) msg = msg @ [0x80] @ replicate (63 - ?n) 0 @ ?block"
    by (simp only: sha_pad_def z buf2(2) replicate_add append.assoc)
  also have "\<dots> = whole msg @ (take ?n (sha_buf s) @ [0x80] @ replicate (63 - ?n) 0) @ ?block"
    using arg_cong [OF s(4), of "\<lambda>m. m @ [0x80] @ replicate (63 - ?n) 0 @ ?block"] by (simp only: append.assoc)
  finally have "sha_pad (sha_total_len s * 8) msg = whole msg @ buf @ ?block" by (simp only: buf(2) [symmetric])
  moreover have "hash_blocks sha_compress (sha_h s) (buf @ ?block) = sha_compress (sha_compress (sha_h s) buf) ?block"
    using hash_blocks_block [OF buf(1), of sha_compress "sha_h s" ?block] hash_blocks_block [of ?block sha_compress "sha_compress (sha_h s) buf" "[]"] buf2(1)
    by simp
  ultimately have "hash_blocks sha_compress sha_H0 (sha_pad (sha_total_len s * 8) msg) = sha_compress (sha_compress (sha_h s) buf) ?block"
    using hash_blocks_append [OF length_whole, of sha_compress sha_H0 msg "buf @ ?block"] s(3) by simp
  moreover have "sha_final s = sha_output (sha_compress (sha_h ?s1) ?block)"
    using p(1) assms(2) buf(3) buf2(1,3) unfolding sha_final_def Let_def
    by (simp add: be64_store sha_transform_def del: upt_rec_numeral)
  ultimately show ?thesis using s1(3) by simp
qed

text \<open>What the code hashes: the padded message whose length field counts whole blocks only.\<close>

lemma sha256_digest_eq:
  assumes "length junk = 64"
  shows "sha256_digest junk msg =
    sha_output (hash_blocks sha_compress sha_H0 (sha_pad (word_of_nat (64 * (length msg div 64)) * 8) msg))"
proof -
  let ?s = "sha_update msg (Sha256 junk)"
  have s: "sha_stream msg ?s" by (rule sha_update_stream [OF assms])
  then have "sha_total_len ?s = word_of_nat (64 * (length msg div 64))" by (simp add: sha_stream_def length_whole)
  then show ?thesis
    using sha_final_one_block [OF s] sha_final_two_blocks [OF s] unfolding sha256_digest_def by (cases "sha_buf_len ?s < 56") auto
qed

section \<open>Comparison with the standard\<close>

lemma standard_K_cube_roots: "list_all2 cube_root_fraction first_primes standard_K"
  by code_simp

lemma sha_round_inj: "sha_round K w i x = sha_round K w i y \<Longrightarrow> x = y"
  by (cases x; cases y) (auto simp: sha_round_def Let_def)

lemma sha_rounds_inj: "fold (sha_round K w) is x = fold (sha_round K w) is y \<Longrightarrow> x = y"
proof (induction "is" arbitrary: x y)
  case (Cons i "is")
  then show ?case unfolding fold_simps using sha_round_inj by metis
qed simp

lemma sha_round_25: "sha_round sha_K w 25 x \<noteq> sha_round standard_K w 25 x"
proof -
  have "sha_K ! 25 \<noteq> standard_K ! 25" by (simp add: standard_K_def sha_K_def)
  then show ?thesis by (auto simp: sha_round_def Let_def split: prod.splits)
qed

lemma sha_round_other: "i \<noteq> 25 \<Longrightarrow> sha_round standard_K w i = sha_round sha_K w i"
  by (simp add: sha_round_def standard_K_def)

lemma sha_rounds_other: "25 \<notin> set is \<Longrightarrow> fold (sha_round standard_K w) is x = fold (sha_round sha_K w) is x"
  by (induction "is" arbitrary: x) (auto simp: sha_round_other)

text \<open>The wrong constant changes the result of every compression.\<close>

lemma sha_rounds_differ: "fold (sha_round sha_K w) [0..<64] x \<noteq> fold (sha_round standard_K w) [0..<64] x"
proof -
  have split: "[0..<64] = [0..<25] @ 25 # [26..<64]" by (simp add: upt_rec)
  let ?x = "fold (sha_round sha_K w) [0..<25] x"
  have "fold (sha_round sha_K w) [26..<64] (sha_round sha_K w 25 ?x) \<noteq>
      fold (sha_round sha_K w) [26..<64] (sha_round standard_K w 25 ?x)"
    using sha_rounds_inj sha_round_25 by blast
  moreover have "25 \<notin> set [0..<25]" "25 \<notin> set [26..<64]" by simp_all
  ultimately show ?thesis
    unfolding split fold_append fold_simps comp_apply by (simp only: sha_rounds_other not_False_eq_True)
qed

lemma sha_compress_differs: "sha_compress hs p \<noteq> sha_compress_with standard_K hs p"
  using sha_rounds_differ [of "message_schedule p" "(hs ! 0, hs ! 1, hs ! 2, hs ! 3, hs ! 4, hs ! 5, hs ! 6, hs ! 7)"]
  unfolding sha_compress_def sha_compress_with_def Let_def by (auto split: prod.splits)

lemma word_bytes_inj:
  assumes "(ucast (drop_bit 24 v) :: u8) = ucast (drop_bit 24 w)" "(ucast (drop_bit 16 v) :: u8) = ucast (drop_bit 16 w)"
    "(ucast (drop_bit 8 v) :: u8) = ucast (drop_bit 8 w)" "(ucast v :: u8) = ucast w"
  shows "v = (w :: u32)"
proof (rule bit_word_eqI)
  fix n assume n: "n < LENGTH(32)"
  have bits: "bit (ucast (drop_bit k v) :: u8) (n - k) = bit (ucast (drop_bit k w) :: u8) (n - k)"
    if "(ucast (drop_bit k v) :: u8) = ucast (drop_bit k w)" for k
    using that by simp
  from n consider "24 \<le> n" "n - 24 < 8" | "16 \<le> n" "n - 16 < 8" | "8 \<le> n" "n - 8 < 8" | "n < 8" by fastforce
  then show "bit v n = bit w n"
    using bits [OF assms(1)] bits [OF assms(2)] bits [OF assms(3)] bits [of 0, unfolded drop_bit_0 id_apply, OF assms(4)]
    by cases (simp_all add: bit_simps)
qed

lemma sha_output_inj: "length hs = length hs' \<Longrightarrow> sha_output hs = sha_output hs' \<Longrightarrow> hs = hs'"
proof (induction hs hs' rule: list_induct2)
  case (Cons h hs h' hs')
  then show ?case by (auto simp: sha_output_def intro: word_bytes_inj)
qed simp

lemma length_sha_compress [simp]: "length (sha_compress_with K hs p) = 8"
  by (simp add: sha_compress_with_def Let_def split: prod.splits)

lemma length_sha_pad_empty: "length (sha_pad v []) = 64"
  by (simp add: sha_pad_def padding_zeros_def)

lemma sha256_empty_differs:
  assumes "length junk = 64"
  shows "sha256_digest junk [] \<noteq> SHA256_standard []"
proof -
  have "hash_blocks f sha_H0 (sha_pad 0 []) = f sha_H0 (sha_pad 0 [])" for f
    using hash_blocks_block [OF length_sha_pad_empty, of f sha_H0 0 "[]"] by simp
  then show ?thesis
    using sha_compress_differs [of sha_H0 "sha_pad 0 []"]
    by (auto simp: sha256_digest_eq [OF assms] SHA256_standard_def sha_compress_def dest: sha_output_inj [rotated])
qed

end
