(* ===== verification/Protocol.thy ===== *)
theory Protocol
  imports Persistence Sha256
begin

text \<open>
  \<^verbatim>\<open>protocol/protocol.hpp\<close> and \<^verbatim>\<open>protocol/protocol.cpp\<close>: message types, frames and the payload
  of every message. A \<open>pack\<close> function is the list of bytes it writes; an \<open>unpack\<close> function
  returns the payload or the error text. When only the final check fails (a sticky reader error or
  trailing bytes) the code returns false without a text, here the empty one.

  An enumeration field that the code may send without ever assigning it (the state in two
  acknowledgements) is kept as its byte.

  Two locales carry the round trips: \<open>field_codec\<close> for a compound field inside a message and
  \<open>message_codec\<close> for a whole payload.
\<close>

section \<open>Message types\<close>

datatype MsgType =
  HELLO | WELCOME | REGISTER_WORKER | REGISTER_ACK | SUBMIT | SUBMIT_ACK | DISPATCH
  | DISPATCH_ACK | WORKER_DISPATCH | WORKER_DISPATCH_ACK | START | COMPLETE | COMPLETE_ACK
  | CANCEL | CANCEL_ACK | PREEMPT | PREEMPT_ACK | ACK_PREEMPT | MARK_RESUMABLE | RESUME
  | RESUME_ACK | WORKER_LOST | QUERY | QUERY_RESPONSE | PING | PONG | SHUTDOWN

definition MsgType_list :: "MsgType list" where
  "MsgType_list =
     [HELLO, WELCOME, REGISTER_WORKER, REGISTER_ACK, SUBMIT, SUBMIT_ACK, DISPATCH, DISPATCH_ACK,
      WORKER_DISPATCH, WORKER_DISPATCH_ACK, START, COMPLETE, COMPLETE_ACK, CANCEL, CANCEL_ACK,
      PREEMPT, PREEMPT_ACK, ACK_PREEMPT, MARK_RESUMABLE, RESUME, RESUME_ACK, WORKER_LOST, QUERY,
      QUERY_RESPONSE, PING, PONG, SHUTDOWN]"

fun MsgType_value :: "MsgType \<Rightarrow> u8" where
  "MsgType_value HELLO = 0"
| "MsgType_value WELCOME = 1"
| "MsgType_value REGISTER_WORKER = 2"
| "MsgType_value REGISTER_ACK = 3"
| "MsgType_value SUBMIT = 4"
| "MsgType_value SUBMIT_ACK = 5"
| "MsgType_value DISPATCH = 6"
| "MsgType_value DISPATCH_ACK = 7"
| "MsgType_value WORKER_DISPATCH = 8"
| "MsgType_value WORKER_DISPATCH_ACK = 9"
| "MsgType_value START = 10"
| "MsgType_value COMPLETE = 11"
| "MsgType_value COMPLETE_ACK = 12"
| "MsgType_value CANCEL = 13"
| "MsgType_value CANCEL_ACK = 14"
| "MsgType_value PREEMPT = 15"
| "MsgType_value PREEMPT_ACK = 16"
| "MsgType_value ACK_PREEMPT = 17"
| "MsgType_value MARK_RESUMABLE = 18"
| "MsgType_value RESUME = 19"
| "MsgType_value RESUME_ACK = 20"
| "MsgType_value WORKER_LOST = 21"
| "MsgType_value QUERY = 22"
| "MsgType_value QUERY_RESPONSE = 23"
| "MsgType_value PING = 24"
| "MsgType_value PONG = 25"
| "MsgType_value SHUTDOWN = 26"

fun MsgType_to_string :: "MsgType \<Rightarrow> string" where
  "MsgType_to_string HELLO = ''HELLO''"
| "MsgType_to_string WELCOME = ''WELCOME''"
| "MsgType_to_string REGISTER_WORKER = ''REGISTER_WORKER''"
| "MsgType_to_string REGISTER_ACK = ''REGISTER_ACK''"
| "MsgType_to_string SUBMIT = ''SUBMIT''"
| "MsgType_to_string SUBMIT_ACK = ''SUBMIT_ACK''"
| "MsgType_to_string DISPATCH = ''DISPATCH''"
| "MsgType_to_string DISPATCH_ACK = ''DISPATCH_ACK''"
| "MsgType_to_string WORKER_DISPATCH = ''WORKER_DISPATCH''"
| "MsgType_to_string WORKER_DISPATCH_ACK = ''WORKER_DISPATCH_ACK''"
| "MsgType_to_string START = ''START''"
| "MsgType_to_string COMPLETE = ''COMPLETE''"
| "MsgType_to_string COMPLETE_ACK = ''COMPLETE_ACK''"
| "MsgType_to_string CANCEL = ''CANCEL''"
| "MsgType_to_string CANCEL_ACK = ''CANCEL_ACK''"
| "MsgType_to_string PREEMPT = ''PREEMPT''"
| "MsgType_to_string PREEMPT_ACK = ''PREEMPT_ACK''"
| "MsgType_to_string ACK_PREEMPT = ''ACK_PREEMPT''"
| "MsgType_to_string MARK_RESUMABLE = ''MARK_RESUMABLE''"
| "MsgType_to_string RESUME = ''RESUME''"
| "MsgType_to_string RESUME_ACK = ''RESUME_ACK''"
| "MsgType_to_string WORKER_LOST = ''WORKER_LOST''"
| "MsgType_to_string QUERY = ''QUERY''"
| "MsgType_to_string QUERY_RESPONSE = ''QUERY_RESPONSE''"
| "MsgType_to_string PING = ''PING''"
| "MsgType_to_string PONG = ''PONG''"
| "MsgType_to_string SHUTDOWN = ''SHUTDOWN''"

section \<open>Payloads\<close>

record HelloPayload =
  hp_role :: u8
  hp_protocol_version :: u8
  hp_worker_id :: WorkerId
  hp_worker_boot_id :: WorkerBootId
  hp_tag :: string

record WelcomePayload =
  wp_epoch :: CoordinatorEpoch
  wp_coordinator_id :: string
  wp_protocol_version :: u32

record RegisterAckPayload =
  ra_accepted :: bool
  ra_reason :: string

record SubmitPayload =
  sp_execution_id :: ExecutionId
  sp_epoch :: CoordinatorEpoch

record SubmitAckPayload =
  sa_accepted :: bool
  sa_execution_id :: ExecutionId
  sa_generation :: ExecutionGeneration
  sa_state :: u8
  sa_reason :: string

record DispatchRequestPayload =
  dr_execution_id :: ExecutionId
  dr_epoch :: CoordinatorEpoch
  dr_worker_id :: WorkerId
  dr_worker_boot_id :: WorkerBootId

record DispatchAckPayload =
  da_accepted :: bool
  da_decision :: DecisionCode
  da_reason :: string
  da_ticket :: DispatchTicket

record WorkerDispatchPayload =
  wd_ticket :: DispatchTicket
  work_bytes :: u32
  work_seed :: u32

record StartPayload =
  start_ticket :: StartTicket

record CompletePayload =
  completion_ticket :: CompletionTicket
  result_bytes :: "u8 list"

record CompleteAckPayload =
  ca_decision :: DecisionCode
  ca_reason :: string
  ca_committed :: bool
  ca_committed_digest :: ResultDigest

record CancelPayload =
  cancel_request :: ControlRequest

record AckPreemptPayload =
  ap_execution_id :: ExecutionId
  ap_epoch :: CoordinatorEpoch

record MarkResumablePayload =
  mr_execution_id :: ExecutionId
  mr_epoch :: CoordinatorEpoch

record ResumeRequestPayload =
  rr_execution_id :: ExecutionId
  rr_epoch :: CoordinatorEpoch
  resume_gen :: ResumeGeneration
  rr_worker_id :: WorkerId
  rr_worker_boot_id :: WorkerBootId

record WorkerLostPayload =
  wl_execution_id :: ExecutionId
  wl_worker_id :: WorkerId
  wl_worker_boot_id :: WorkerBootId
  wl_epoch :: CoordinatorEpoch

record QueryPayload =
  qp_execution_id :: ExecutionId

record QueryResponsePayload =
  qr_found :: bool
  qr_execution_id :: ExecutionId
  qr_state :: u8
  qr_generation :: ExecutionGeneration
  qr_epoch :: CoordinatorEpoch
  qr_current_attempt :: "AttemptId option"
  qr_current_attempt_generation :: "AttemptGeneration option"
  attempt_count :: u64
  qr_committed_digest :: "ResultDigest option"
  qr_detail :: string

section \<open>Fields\<close>

text \<open>The protocol's \<^verbatim>\<open>get_id\<close> and \<^verbatim>\<open>get_gen\<close> report one text for every field.\<close>

definition rd_id :: "('tag ident \<Rightarrow> (string, 'b) parser) \<Rightarrow> (string, 'b) parser" where
  "rd_id = rd get_id ''truncated uuid''"

definition rd_gen :: "('tag gen \<Rightarrow> (string, 'b) parser) \<Rightarrow> (string, 'b) parser" where
  "rd_gen = rd get_gen ''truncated generation''"

definition rd_opt_id :: "('tag ident option \<Rightarrow> (string, 'b) parser) \<Rightarrow> (string, 'b) parser" where
  "rd_opt_id = rd_opt get_id ''truncated opt'' ''truncated uuid''"

definition rd_opt_gen :: "('tag gen option \<Rightarrow> (string, 'b) parser) \<Rightarrow> (string, 'b) parser" where
  "rd_opt_gen = rd_opt get_gen ''truncated opt'' ''truncated generation''"

definition rd_decision_code :: "(DecisionCode \<Rightarrow> (string, 'b) parser) \<Rightarrow> (string, 'b) parser" where
  "rd_decision_code k =
     rd get_u8 ''truncated decision'' (\<lambda>dc.
       if dc > DecisionCode_value RETRY_REJECTED then (\<lambda>_. Inl ''invalid decision enum'')
       else k (DecisionCode_list ! unat dc))"

definition rd_state_byte :: "(u8 \<Rightarrow> (string, 'b) parser) \<Rightarrow> (string, 'b) parser" where
  "rd_state_byte k =
     rd get_u8 ''truncated state'' (\<lambda>s.
       if s > ExecutionState_value ExecutionState.TERMINAL then (\<lambda>_. Inl ''invalid state enum'') else k s)"

text \<open>\<^verbatim>\<open>return r.ok() && r.remaining() == 0\<close>\<close>

definition finish :: "'a \<Rightarrow> (string, 'a) parser" where
  "finish p r = (if rd_ok r \<and> remaining r = 0 then Inr p else Inl [])"

section \<open>Tickets\<close>

definition put_dispatch_ticket :: "DispatchTicket \<Rightarrow> u8 list" where
  "put_dispatch_ticket t =
     put_id (dt_execution_id t) @ put_gen (dt_execution_generation t) @ put_id (dt_attempt_id t)
     @ put_gen (dt_attempt_generation t) @ put_id (dt_worker_id t) @ put_id (dt_worker_boot_id t)
     @ put_gen (dt_epoch t) @ put_id (dt_dispatch_id t) @ put_gen (dt_dispatch_generation t)
     @ put_gen (dt_ownership_generation t) @ put_gen (dt_fence_generation t)"

definition rd_dispatch_ticket :: "(DispatchTicket \<Rightarrow> (string, 'b) parser) \<Rightarrow> (string, 'b) parser" where
  "rd_dispatch_ticket k =
     rd_id (\<lambda>ei. rd_gen (\<lambda>eg. rd_id (\<lambda>ai. rd_gen (\<lambda>ag. rd_id (\<lambda>w. rd_id (\<lambda>b.
     rd_gen (\<lambda>ep. rd_id (\<lambda>di. rd_gen (\<lambda>dg. rd_gen (\<lambda>og. rd_gen (\<lambda>fg.
       k \<lparr>dt_execution_id = ei, dt_execution_generation = eg, dt_attempt_id = ai,
          dt_attempt_generation = ag, dt_worker_id = w, dt_worker_boot_id = b, dt_epoch = ep,
          dt_dispatch_id = di, dt_dispatch_generation = dg, dt_ownership_generation = og,
          dt_fence_generation = fg\<rparr>)))))))))))"

definition put_start_ticket :: "StartTicket \<Rightarrow> u8 list" where
  "put_start_ticket t =
     put_id (st_execution_id t) @ put_gen (st_execution_generation t) @ put_id (st_attempt_id t)
     @ put_gen (st_attempt_generation t) @ put_id (st_worker_id t) @ put_id (st_worker_boot_id t)
     @ put_gen (st_epoch t) @ put_id (st_dispatch_id t) @ put_gen (st_dispatch_generation t)
     @ put_gen (st_ownership_generation t) @ put_gen (st_fence_generation t)"

definition rd_start_ticket :: "(StartTicket \<Rightarrow> (string, 'b) parser) \<Rightarrow> (string, 'b) parser" where
  "rd_start_ticket k =
     rd_id (\<lambda>ei. rd_gen (\<lambda>eg. rd_id (\<lambda>ai. rd_gen (\<lambda>ag. rd_id (\<lambda>w. rd_id (\<lambda>b.
     rd_gen (\<lambda>ep. rd_id (\<lambda>di. rd_gen (\<lambda>dg. rd_gen (\<lambda>og. rd_gen (\<lambda>fg.
       k \<lparr>st_execution_id = ei, st_execution_generation = eg, st_attempt_id = ai,
          st_attempt_generation = ag, st_worker_id = w, st_worker_boot_id = b, st_epoch = ep,
          st_dispatch_id = di, st_dispatch_generation = dg, st_ownership_generation = og,
          st_fence_generation = fg\<rparr>)))))))))))"

definition put_completion_ticket :: "CompletionTicket \<Rightarrow> u8 list" where
  "put_completion_ticket t =
     put_id (ct_execution_id t) @ put_gen (ct_execution_generation t) @ put_id (ct_attempt_id t)
     @ put_gen (ct_attempt_generation t) @ put_id (ct_worker_id t) @ put_id (ct_worker_boot_id t)
     @ put_gen (ct_epoch t) @ put_id (ct_dispatch_id t) @ put_gen (ct_dispatch_generation t)
     @ put_gen (ct_ownership_generation t) @ put_gen (ct_fence_generation t)
     @ put_gen (ct_completion_generation t) @ put_bool (has_result t)
     @ (if has_result t then put_digest (ct_result_digest t) else [])"

definition rd_completion_ticket :: "(CompletionTicket \<Rightarrow> (string, 'b) parser) \<Rightarrow> (string, 'b) parser" where
  "rd_completion_ticket k =
     rd_id (\<lambda>ei. rd_gen (\<lambda>eg. rd_id (\<lambda>ai. rd_gen (\<lambda>ag. rd_id (\<lambda>w. rd_id (\<lambda>b.
     rd_gen (\<lambda>ep. rd_id (\<lambda>di. rd_gen (\<lambda>dg. rd_gen (\<lambda>og. rd_gen (\<lambda>fg.
     rd_gen (\<lambda>cg. rd get_bool ''truncated has_result'' (\<lambda>has.
     (if has then rd get_digest ''truncated digest'' else (\<lambda>k. k ResultDigest_nil)) (\<lambda>d.
       k \<lparr>ct_execution_id = ei, ct_execution_generation = eg, ct_attempt_id = ai,
          ct_attempt_generation = ag, ct_worker_id = w, ct_worker_boot_id = b, ct_epoch = ep,
          ct_dispatch_id = di, ct_dispatch_generation = dg, ct_ownership_generation = og,
          ct_fence_generation = fg, ct_completion_generation = cg, has_result = has,
          ct_result_digest = d\<rparr>))))))))))))))"

text \<open>The execution generation of a control request is not sent; the receiver keeps its initial value.\<close>

definition put_control_request :: "ControlRequest \<Rightarrow> u8 list" where
  "put_control_request req =
     put_id (req_execution_id req) @ put_gen (req_epoch req) @ put_gen (authority_generation req)
     @ put_gen (req_cancellation_generation req) @ put_gen (req_preemption_generation req)
     @ put_gen (req_resume_generation req)"

definition rd_control_request :: "(ControlRequest \<Rightarrow> (string, 'b) parser) \<Rightarrow> (string, 'b) parser" where
  "rd_control_request k =
     rd_id (\<lambda>i. rd_gen (\<lambda>ep. rd_gen (\<lambda>a. rd_gen (\<lambda>c. rd_gen (\<lambda>p. rd_gen (\<lambda>r.
       k \<lparr>req_execution_id = i, req_execution_generation = Gen 0, req_epoch = ep, authority_generation = a,
          req_cancellation_generation = c, req_preemption_generation = p, req_resume_generation = r\<rparr>))))))"

section \<open>Packing and unpacking payloads\<close>

definition pack_hello :: "HelloPayload \<Rightarrow> u8 list" where
  "pack_hello p =
     put_u8 (hp_role p) @ put_u8 (hp_protocol_version p) @ put_id (hp_worker_id p)
     @ put_id (hp_worker_boot_id p) @ put_string (hp_tag p)"

definition unpack_hello :: "u8 list \<Rightarrow> string + HelloPayload" where
  "unpack_hello b =
     rd get_u8 ''truncated role'' (\<lambda>r. rd get_u8 ''truncated version'' (\<lambda>v. rd_id (\<lambda>w. rd_id (\<lambda>bo.
     rd get_string ''truncated tag'' (\<lambda>t. finish
       \<lparr>hp_role = r, hp_protocol_version = v, hp_worker_id = w, hp_worker_boot_id = bo, hp_tag = t\<rparr>)))))
     (ByteReader b)"

definition pack_welcome :: "WelcomePayload \<Rightarrow> u8 list" where
  "pack_welcome p = put_gen (wp_epoch p) @ put_string (wp_coordinator_id p) @ put_u32 (wp_protocol_version p)"

definition unpack_welcome :: "u8 list \<Rightarrow> string + WelcomePayload" where
  "unpack_welcome b =
     rd_gen (\<lambda>e. rd get_string ''truncated coordinator id'' (\<lambda>c.
     rd get_u32 ''truncated protocol version'' (\<lambda>v. finish
       \<lparr>wp_epoch = e, wp_coordinator_id = c, wp_protocol_version = v\<rparr>))) (ByteReader b)"

definition pack_register_ack :: "RegisterAckPayload \<Rightarrow> u8 list" where
  "pack_register_ack p = put_bool (ra_accepted p) @ put_string (ra_reason p)"

definition unpack_register_ack :: "u8 list \<Rightarrow> string + RegisterAckPayload" where
  "unpack_register_ack b =
     rd get_bool ''truncated accepted'' (\<lambda>a. rd get_string ''truncated reason'' (\<lambda>r.
     finish \<lparr>ra_accepted = a, ra_reason = r\<rparr>)) (ByteReader b)"

definition pack_submit :: "SubmitPayload \<Rightarrow> u8 list" where
  "pack_submit p = put_id (sp_execution_id p) @ put_gen (sp_epoch p)"

definition unpack_submit :: "u8 list \<Rightarrow> string + SubmitPayload" where
  "unpack_submit b =
     rd_id (\<lambda>i. rd_gen (\<lambda>e. finish \<lparr>sp_execution_id = i, sp_epoch = e\<rparr>)) (ByteReader b)"

definition pack_submit_ack :: "SubmitAckPayload \<Rightarrow> u8 list" where
  "pack_submit_ack p =
     put_bool (sa_accepted p) @ put_id (sa_execution_id p) @ put_gen (sa_generation p)
     @ put_u8 (sa_state p) @ put_string (sa_reason p)"

definition unpack_submit_ack :: "u8 list \<Rightarrow> string + SubmitAckPayload" where
  "unpack_submit_ack b =
     rd get_bool ''truncated accepted'' (\<lambda>a. rd_id (\<lambda>i. rd_gen (\<lambda>g. rd_state_byte (\<lambda>s.
     rd get_string ''truncated reason'' (\<lambda>r. finish
       \<lparr>sa_accepted = a, sa_execution_id = i, sa_generation = g, sa_state = s, sa_reason = r\<rparr>)))))
     (ByteReader b)"

definition pack_dispatch :: "DispatchRequestPayload \<Rightarrow> u8 list" where
  "pack_dispatch p =
     put_id (dr_execution_id p) @ put_gen (dr_epoch p) @ put_id (dr_worker_id p) @ put_id (dr_worker_boot_id p)"

definition unpack_dispatch :: "u8 list \<Rightarrow> string + DispatchRequestPayload" where
  "unpack_dispatch b =
     rd_id (\<lambda>i. rd_gen (\<lambda>e. rd_id (\<lambda>w. rd_id (\<lambda>bo. finish
       \<lparr>dr_execution_id = i, dr_epoch = e, dr_worker_id = w, dr_worker_boot_id = bo\<rparr>)))) (ByteReader b)"

definition pack_dispatch_ack :: "DispatchAckPayload \<Rightarrow> u8 list" where
  "pack_dispatch_ack p =
     put_bool (da_accepted p) @ put_u8 (DecisionCode_value (da_decision p)) @ put_string (da_reason p)
     @ put_dispatch_ticket (da_ticket p)"

definition unpack_dispatch_ack :: "u8 list \<Rightarrow> string + DispatchAckPayload" where
  "unpack_dispatch_ack b =
     rd get_bool ''truncated accepted'' (\<lambda>a. rd_decision_code (\<lambda>d. rd get_string ''truncated reason'' (\<lambda>r.
     rd_dispatch_ticket (\<lambda>t. finish
       \<lparr>da_accepted = a, da_decision = d, da_reason = r, da_ticket = t\<rparr>)))) (ByteReader b)"

definition pack_worker_dispatch :: "WorkerDispatchPayload \<Rightarrow> u8 list" where
  "pack_worker_dispatch p = put_dispatch_ticket (wd_ticket p) @ put_u32 (work_bytes p) @ put_u32 (work_seed p)"

definition unpack_worker_dispatch :: "u8 list \<Rightarrow> string + WorkerDispatchPayload" where
  "unpack_worker_dispatch b =
     rd_dispatch_ticket (\<lambda>t. rd get_u32 ''truncated work hint'' (\<lambda>n. rd get_u32 ''truncated work hint'' (\<lambda>s.
     finish \<lparr>wd_ticket = t, work_bytes = n, work_seed = s\<rparr>))) (ByteReader b)"

definition pack_start :: "StartPayload \<Rightarrow> u8 list" where
  "pack_start p = put_start_ticket (start_ticket p)"

definition unpack_start :: "u8 list \<Rightarrow> string + StartPayload" where
  "unpack_start b = rd_start_ticket (\<lambda>t. finish \<lparr>start_ticket = t\<rparr>) (ByteReader b)"

definition pack_complete :: "CompletePayload \<Rightarrow> u8 list" where
  "pack_complete p =
     put_completion_ticket (completion_ticket p) @ put_u32 (word_of_nat (length (result_bytes p))) @ result_bytes p"

definition unpack_complete :: "u8 list \<Rightarrow> string + CompletePayload" where
  "unpack_complete b =
     rd_completion_ticket (\<lambda>t. rd get_u32 ''truncated result length'' (\<lambda>n.
     if unat n > kMaxVector then (\<lambda>_. Inl ''result too large'')
     else rd (get_vector (unat n)) ''truncated result'' (\<lambda>v.
       finish \<lparr>completion_ticket = t, result_bytes = v\<rparr>))) (ByteReader b)"

definition pack_complete_ack :: "CompleteAckPayload \<Rightarrow> u8 list" where
  "pack_complete_ack p =
     put_u8 (DecisionCode_value (ca_decision p)) @ put_string (ca_reason p) @ put_bool (ca_committed p)
     @ (if ca_committed p then put_digest (ca_committed_digest p) else [])"

definition unpack_complete_ack :: "u8 list \<Rightarrow> string + CompleteAckPayload" where
  "unpack_complete_ack b =
     rd_decision_code (\<lambda>d. rd get_string ''truncated reason'' (\<lambda>r. rd get_bool ''truncated committed'' (\<lambda>c.
     (if c then rd get_digest ''truncated committed digest'' else (\<lambda>k. k ResultDigest_nil)) (\<lambda>dg. finish
       \<lparr>ca_decision = d, ca_reason = r, ca_committed = c, ca_committed_digest = dg\<rparr>)))) (ByteReader b)"

definition pack_decision :: "Decision \<Rightarrow> u8 list" where
  "pack_decision d =
     put_u8 (DecisionCode_value (code d)) @ put_string (reason d) @ put_opt put_id (d_execution_id d)
     @ put_opt put_gen (d_execution_generation d)"

definition unpack_decision :: "u8 list \<Rightarrow> string + Decision" where
  "unpack_decision b =
     rd_decision_code (\<lambda>c. rd get_string ''truncated reason'' (\<lambda>r. rd_opt_id (\<lambda>i. rd_opt_gen (\<lambda>g. finish
       (Decision_init\<lparr>code := c, reason := r, d_execution_id := i, d_execution_generation := g\<rparr>)))))
     (ByteReader b)"

definition pack_cancel :: "CancelPayload \<Rightarrow> u8 list" where
  "pack_cancel p = put_control_request (cancel_request p)"

definition unpack_cancel :: "u8 list \<Rightarrow> string + CancelPayload" where
  "unpack_cancel b = rd_control_request (\<lambda>r. finish \<lparr>cancel_request = r\<rparr>) (ByteReader b)"

definition pack_preempt :: "CancelPayload \<Rightarrow> u8 list" where
  "pack_preempt p = pack_cancel p"

definition pack_ack_preempt :: "AckPreemptPayload \<Rightarrow> u8 list" where
  "pack_ack_preempt p = put_id (ap_execution_id p) @ put_gen (ap_epoch p)"

definition unpack_ack_preempt :: "u8 list \<Rightarrow> string + AckPreemptPayload" where
  "unpack_ack_preempt b =
     rd_id (\<lambda>i. rd_gen (\<lambda>e. finish \<lparr>ap_execution_id = i, ap_epoch = e\<rparr>)) (ByteReader b)"

definition pack_mark_resumable :: "MarkResumablePayload \<Rightarrow> u8 list" where
  "pack_mark_resumable p = put_id (mr_execution_id p) @ put_gen (mr_epoch p)"

definition unpack_mark_resumable :: "u8 list \<Rightarrow> string + MarkResumablePayload" where
  "unpack_mark_resumable b =
     rd_id (\<lambda>i. rd_gen (\<lambda>e. finish \<lparr>mr_execution_id = i, mr_epoch = e\<rparr>)) (ByteReader b)"

definition pack_resume :: "ResumeRequestPayload \<Rightarrow> u8 list" where
  "pack_resume p =
     put_id (rr_execution_id p) @ put_gen (rr_epoch p) @ put_gen (resume_gen p)
     @ put_id (rr_worker_id p) @ put_id (rr_worker_boot_id p)"

definition unpack_resume :: "u8 list \<Rightarrow> string + ResumeRequestPayload" where
  "unpack_resume b =
     rd_id (\<lambda>i. rd_gen (\<lambda>e. rd_gen (\<lambda>g. rd_id (\<lambda>w. rd_id (\<lambda>bo. finish
       \<lparr>rr_execution_id = i, rr_epoch = e, resume_gen = g, rr_worker_id = w, rr_worker_boot_id = bo\<rparr>)))))
     (ByteReader b)"

definition pack_worker_lost :: "WorkerLostPayload \<Rightarrow> u8 list" where
  "pack_worker_lost p =
     put_id (wl_execution_id p) @ put_id (wl_worker_id p) @ put_id (wl_worker_boot_id p) @ put_gen (wl_epoch p)"

definition unpack_worker_lost :: "u8 list \<Rightarrow> string + WorkerLostPayload" where
  "unpack_worker_lost b =
     rd_id (\<lambda>i. rd_id (\<lambda>w. rd_id (\<lambda>bo. rd_gen (\<lambda>e. finish
       \<lparr>wl_execution_id = i, wl_worker_id = w, wl_worker_boot_id = bo, wl_epoch = e\<rparr>)))) (ByteReader b)"

definition pack_query :: "QueryPayload \<Rightarrow> u8 list" where
  "pack_query p = put_id (qp_execution_id p)"

definition unpack_query :: "u8 list \<Rightarrow> string + QueryPayload" where
  "unpack_query b = rd_id (\<lambda>i. finish \<lparr>qp_execution_id = i\<rparr>) (ByteReader b)"

definition pack_query_response :: "QueryResponsePayload \<Rightarrow> u8 list" where
  "pack_query_response p =
     put_bool (qr_found p) @ put_id (qr_execution_id p) @ put_u8 (qr_state p)
     @ put_gen (qr_generation p) @ put_gen (qr_epoch p)
     @ put_opt put_id (qr_current_attempt p) @ put_opt put_gen (qr_current_attempt_generation p)
     @ put_u64 (attempt_count p) @ put_opt put_digest (qr_committed_digest p) @ put_string (qr_detail p)"

definition unpack_query_response :: "u8 list \<Rightarrow> string + QueryResponsePayload" where
  "unpack_query_response b =
     rd get_bool ''truncated found'' (\<lambda>f. rd_id (\<lambda>i. rd_state_byte (\<lambda>s. rd_gen (\<lambda>g. rd_gen (\<lambda>e.
     rd_opt_id (\<lambda>ca. rd_opt_gen (\<lambda>cg. rd get_u64 ''truncated count'' (\<lambda>n.
     rd_opt get_digest ''truncated opt'' ''truncated digest'' (\<lambda>d. rd get_string ''truncated detail'' (\<lambda>t. finish
       \<lparr>qr_found = f, qr_execution_id = i, qr_state = s, qr_generation = g, qr_epoch = e,
        qr_current_attempt = ca, qr_current_attempt_generation = cg, attempt_count = n,
        qr_committed_digest = d, qr_detail = t\<rparr>)))))))))) (ByteReader b)"

section \<open>The codec contracts of fields and messages\<close>

locale field_codec =
  fixes put :: "'a \<Rightarrow> u8 list"
    and field :: "('a \<Rightarrow> (string, 'b) parser) \<Rightarrow> (string, 'b) parser"
    and valid :: "'a \<Rightarrow> bool"
  assumes field_put: "valid x \<Longrightarrow> field k (ByteReader (put x @ rest)) = k x (ByteReader rest)"

locale message_codec =
  fixes pack :: "'a \<Rightarrow> u8 list"
    and unpack :: "u8 list \<Rightarrow> string + 'a"
    and fits :: "'a \<Rightarrow> bool"
  assumes unpack_pack_append: "fits x \<Longrightarrow> unpack (pack x @ extra) = (if extra = [] then Inr x else Inl [])"
begin

lemma unpack_pack: "fits x \<Longrightarrow> unpack (pack x) = Inr x"
  using unpack_pack_append [of x "[]"] by simp

lemma trailing_rejected: "fits x \<Longrightarrow> extra \<noteq> [] \<Longrightarrow> unpack (pack x @ extra) = Inl []"
  using unpack_pack_append [of x extra] by simp

lemma pack_inj: "fits x \<Longrightarrow> fits y \<Longrightarrow> pack x = pack y \<Longrightarrow> x = y"
  using unpack_pack [of x] unpack_pack [of y] by (metis sum.inject(2))

end

text \<open>A primitive codec is a field codec, whatever error text its reader reports.\<close>

sublocale codec \<subseteq> field: field_codec put "rd get e" valid for e :: string
  by unfold_locales (rule rd_put)

lemma finish_end [codec_rt]: "finish p (ByteReader extra) = (if extra = [] then Inr p else Inl [])"
  by (simp add: finish_def ByteReader_def remaining_def)

lemma rd_id_put [codec_rt]: "rd_id k (ByteReader (put_id i @ rest)) = k i (ByteReader rest)"
  by (simp add: rd_id_def id_codec.rd_put)

lemma rd_gen_put [codec_rt]: "rd_gen k (ByteReader (put_gen g @ rest)) = k g (ByteReader rest)"
  by (simp add: rd_gen_def gen_codec.rd_put)

lemma rd_opt_id_put [codec_rt]: "rd_opt_id k (ByteReader (put_opt put_id i @ rest)) = k i (ByteReader rest)"
  by (simp add: rd_opt_id_def codec_opt_reads)

lemma rd_opt_gen_put [codec_rt]: "rd_opt_gen k (ByteReader (put_opt put_gen i @ rest)) = k i (ByteReader rest)"
  by (simp add: rd_opt_gen_def codec_opt_reads)

lemma rd_decision_code_put [codec_rt]:
  "rd_decision_code k (ByteReader (put_u8 (DecisionCode_value c) @ rest)) = k c (ByteReader rest)"
  by (cases c) (simp_all add: rd_decision_code_def u8_codec.rd_put DecisionCode_list_def)

lemma rd_state_byte_put [codec_rt]:
  "valid_exec_state s \<Longrightarrow> rd_state_byte k (ByteReader (put_u8 s @ rest)) = k s (ByteReader rest)"
  by (auto simp: rd_state_byte_def u8_codec.rd_put valid_exec_state_def dest: leD)

lemma rd_id_cong: "r = r' \<Longrightarrow> rd_id k r = rd_id k r'"
  by simp

lemma rd_gen_cong: "r = r' \<Longrightarrow> rd_gen k r = rd_gen k r'"
  by simp

lemma rd_opt_id_cong: "r = r' \<Longrightarrow> rd_opt_id k r = rd_opt_id k r'"
  by simp

lemma rd_opt_gen_cong: "r = r' \<Longrightarrow> rd_opt_gen k r = rd_opt_gen k r'"
  by simp

lemmas field_congs = parser_congs rd_id_cong rd_gen_cong rd_opt_id_cong rd_opt_gen_cong

interpretation dispatch_ticket_codec: field_codec put_dispatch_ticket rd_dispatch_ticket "\<lambda>_. True"
proof
  fix t :: DispatchTicket and k :: "DispatchTicket \<Rightarrow> (string, 'b) parser" and rest
  show "rd_dispatch_ticket k (ByteReader (put_dispatch_ticket t @ rest)) = k t (ByteReader rest)"
    by (cases t) (simp add: put_dispatch_ticket_def rd_dispatch_ticket_def codec_rt cong: field_congs)
qed

interpretation start_ticket_codec: field_codec put_start_ticket rd_start_ticket "\<lambda>_. True"
proof
  fix t :: StartTicket and k :: "StartTicket \<Rightarrow> (string, 'b) parser" and rest
  show "rd_start_ticket k (ByteReader (put_start_ticket t @ rest)) = k t (ByteReader rest)"
    by (cases t) (simp add: put_start_ticket_def rd_start_ticket_def codec_rt cong: field_congs)
qed

text \<open>A ticket without result travels without digest, so the receiver sees the nil digest.\<close>

interpretation completion_ticket_codec: field_codec put_completion_ticket rd_completion_ticket
    "\<lambda>t. \<not> has_result t \<longrightarrow> ct_result_digest t = ResultDigest_nil"
proof
  fix t :: CompletionTicket and k :: "CompletionTicket \<Rightarrow> (string, 'b) parser" and rest
  assume "\<not> has_result t \<longrightarrow> ct_result_digest t = ResultDigest_nil"
  then show "rd_completion_ticket k (ByteReader (put_completion_ticket t @ rest)) = k t (ByteReader rest)"
    by (cases t; cases "has_result t") (simp_all add: put_completion_ticket_def rd_completion_ticket_def codec_rt cong: field_congs)
qed

interpretation control_request_codec: field_codec put_control_request rd_control_request
    "\<lambda>req. req_execution_generation req = Gen 0"
proof
  fix req :: ControlRequest and k :: "ControlRequest \<Rightarrow> (string, 'b) parser" and rest
  assume "req_execution_generation req = Gen 0"
  then show "rd_control_request k (ByteReader (put_control_request req @ rest)) = k req (ByteReader rest)"
    by (cases req) (simp add: put_control_request_def rd_control_request_def codec_rt cong: field_congs)
qed

lemmas ticket_reads [codec_rt] =
  dispatch_ticket_codec.field_put start_ticket_codec.field_put completion_ticket_codec.field_put
  control_request_codec.field_put

subsection \<open>The messages\<close>

interpretation hello_codec: message_codec pack_hello unpack_hello "\<lambda>p. length (hp_tag p) \<le> kMaxString"
  by standard (simp add: pack_hello_def unpack_hello_def codec_rt cong: field_congs)

interpretation welcome_codec: message_codec pack_welcome unpack_welcome "\<lambda>p. length (wp_coordinator_id p) \<le> kMaxString"
  by standard (simp add: pack_welcome_def unpack_welcome_def codec_rt cong: field_congs)

interpretation register_ack_codec: message_codec pack_register_ack unpack_register_ack "\<lambda>p. length (ra_reason p) \<le> kMaxString"
  by standard (simp add: pack_register_ack_def unpack_register_ack_def codec_rt cong: field_congs)

interpretation submit_codec: message_codec pack_submit unpack_submit "\<lambda>_. True"
  by standard (simp add: pack_submit_def unpack_submit_def codec_rt cong: field_congs)

interpretation submit_ack_codec: message_codec pack_submit_ack unpack_submit_ack
    "\<lambda>p. valid_exec_state (sa_state p) \<and> length (sa_reason p) \<le> kMaxString"
  by standard (simp add: pack_submit_ack_def unpack_submit_ack_def codec_rt cong: field_congs)

interpretation dispatch_codec: message_codec pack_dispatch unpack_dispatch "\<lambda>_. True"
  by standard (simp add: pack_dispatch_def unpack_dispatch_def codec_rt cong: field_congs)

interpretation dispatch_ack_codec: message_codec pack_dispatch_ack unpack_dispatch_ack "\<lambda>p. length (da_reason p) \<le> kMaxString"
  by standard (simp add: pack_dispatch_ack_def unpack_dispatch_ack_def codec_rt cong: field_congs)

interpretation worker_dispatch_codec: message_codec pack_worker_dispatch unpack_worker_dispatch "\<lambda>_. True"
  by standard (simp add: pack_worker_dispatch_def unpack_worker_dispatch_def codec_rt cong: field_congs)

interpretation start_codec: message_codec pack_start unpack_start "\<lambda>_. True"
  by standard (simp add: pack_start_def unpack_start_def codec_rt cong: field_congs)

definition complete_fits :: "CompletePayload \<Rightarrow> bool" where
  "complete_fits p \<longleftrightarrow>
     (\<not> has_result (completion_ticket p) \<longrightarrow> ct_result_digest (completion_ticket p) = ResultDigest_nil) \<and>
     length (result_bytes p) \<le> kMaxVector"

lemma rd_vector: "length v \<le> kMaxVector \<Longrightarrow> rd (get_vector (length v)) e k (ByteReader (v @ rest)) = k v (ByteReader rest)"
  by (simp add: rd_def vector_get)

interpretation complete_codec: message_codec pack_complete unpack_complete complete_fits
proof
  fix p extra
  assume p: "complete_fits p"
  then have n: "unat (word_of_nat (length (result_bytes p)) :: u32) = length (result_bytes p)"
    by (intro unat_word_of_nat_u32) (simp add: complete_fits_def)
  show "unpack_complete (pack_complete p @ extra) = (if extra = [] then Inr p else Inl [])"
    using p by (simp add: pack_complete_def unpack_complete_def complete_fits_def codec_rt n rd_vector cong: field_congs)
qed

interpretation complete_ack_codec: message_codec pack_complete_ack unpack_complete_ack
    "\<lambda>p. length (ca_reason p) \<le> kMaxString \<and> (\<not> ca_committed p \<longrightarrow> ca_committed_digest p = ResultDigest_nil)"
proof
  fix p :: CompleteAckPayload and extra
  assume "length (ca_reason p) \<le> kMaxString \<and> (\<not> ca_committed p \<longrightarrow> ca_committed_digest p = ResultDigest_nil)"
  then show "unpack_complete_ack (pack_complete_ack p @ extra) = (if extra = [] then Inr p else Inl [])"
    by (cases "ca_committed p") (simp_all add: pack_complete_ack_def unpack_complete_ack_def codec_rt cong: field_congs)
qed

text \<open>Of a decision only its code, reason, execution and generation are sent.\<close>

definition wire_decision :: "Decision \<Rightarrow> Decision" where
  "wire_decision d =
     Decision_init\<lparr>code := code d, reason := reason d, d_execution_id := d_execution_id d,
       d_execution_generation := d_execution_generation d\<rparr>"

lemma unpack_decision_pack:
  "length (reason d) \<le> kMaxString \<Longrightarrow>
   unpack_decision (pack_decision d @ extra) = (if extra = [] then Inr (wire_decision d) else Inl [])"
  by (simp add: pack_decision_def unpack_decision_def wire_decision_def codec_rt cong: field_congs)

interpretation decision_codec: message_codec pack_decision unpack_decision
    "\<lambda>d. length (reason d) \<le> kMaxString \<and> wire_decision d = d"
  by standard (simp add: unpack_decision_pack)

interpretation cancel_codec: message_codec pack_cancel unpack_cancel "\<lambda>p. req_execution_generation (cancel_request p) = Gen 0"
  by standard (simp add: pack_cancel_def unpack_cancel_def codec_rt cong: field_congs)

interpretation preempt_codec: message_codec pack_preempt unpack_cancel "\<lambda>p. req_execution_generation (cancel_request p) = Gen 0"
  by standard (simp add: pack_preempt_def cancel_codec.unpack_pack_append)

interpretation ack_preempt_codec: message_codec pack_ack_preempt unpack_ack_preempt "\<lambda>_. True"
  by standard (simp add: pack_ack_preempt_def unpack_ack_preempt_def codec_rt cong: field_congs)

interpretation mark_resumable_codec: message_codec pack_mark_resumable unpack_mark_resumable "\<lambda>_. True"
  by standard (simp add: pack_mark_resumable_def unpack_mark_resumable_def codec_rt cong: field_congs)

interpretation resume_codec: message_codec pack_resume unpack_resume "\<lambda>_. True"
  by standard (simp add: pack_resume_def unpack_resume_def codec_rt cong: field_congs)

interpretation worker_lost_codec: message_codec pack_worker_lost unpack_worker_lost "\<lambda>_. True"
  by standard (simp add: pack_worker_lost_def unpack_worker_lost_def codec_rt cong: field_congs)

interpretation query_codec: message_codec pack_query unpack_query "\<lambda>_. True"
  by standard (simp add: pack_query_def unpack_query_def codec_rt cong: field_congs)

interpretation query_response_codec: message_codec pack_query_response unpack_query_response
    "\<lambda>p. valid_exec_state (qr_state p) \<and> length (qr_detail p) \<le> kMaxString"
  by standard (simp add: pack_query_response_def unpack_query_response_def codec_rt cong: field_congs)

section \<open>Payloads outside the format\<close>

text \<open>
  What the receiver makes of any control request and of any completion: the execution generation of a
  request is not sent, nor the digest of a ticket without a result.
\<close>

lemma unpack_pack_cancel:
  "unpack_cancel (pack_cancel c) = Inr (c\<lparr>cancel_request := (cancel_request c)\<lparr>req_execution_generation := Gen 0\<rparr>\<rparr>)"
proof -
  let ?c = "c\<lparr>cancel_request := (cancel_request c)\<lparr>req_execution_generation := Gen 0\<rparr>\<rparr>"
  have "pack_cancel c = pack_cancel ?c" by (simp add: pack_cancel_def put_control_request_def)
  then show ?thesis using cancel_codec.unpack_pack [of ?c] by simp
qed

definition received_completion :: "CompletePayload \<Rightarrow> CompletePayload" where
  "received_completion cp =
     cp\<lparr>completion_ticket := (completion_ticket cp)\<lparr>ct_result_digest :=
       (if has_result (completion_ticket cp) then ct_result_digest (completion_ticket cp) else ResultDigest_nil)\<rparr>\<rparr>"

lemma unpack_pack_complete:
  assumes "length (result_bytes cp) \<le> kMaxVector"
  shows "unpack_complete (pack_complete cp) = Inr (received_completion cp)"
proof -
  have "pack_complete cp = pack_complete (received_completion cp)"
    by (simp add: pack_complete_def put_completion_ticket_def received_completion_def)
  then show ?thesis
    using complete_codec.unpack_pack [of "received_completion cp"] assms by (simp add: complete_fits_def received_completion_def)
qed

text \<open>A message with a state byte is refused exactly when the byte is no state.\<close>

definition with_state :: "('a \<Rightarrow> u8) \<Rightarrow> 'a \<Rightarrow> string + 'a" where
  "with_state st a = (if valid_exec_state (st a) then Inr a else Inl ''invalid state enum'')"

lemma rd_state_byte_refused:
  "\<not> valid_exec_state s \<Longrightarrow> rd_state_byte k (ByteReader (put_u8 s @ rest)) = Inl ''invalid state enum''"
  by (simp add: rd_state_byte_def u8_codec.rd_put valid_exec_state_def not_le)

lemma unpack_pack_submit_ack:
  "length (sa_reason a) \<le> kMaxString \<Longrightarrow> unpack_submit_ack (pack_submit_ack a) = with_state sa_state a"
  using submit_ack_codec.unpack_pack [of a]
  by (cases "valid_exec_state (sa_state a)")
    (simp_all add: with_state_def pack_submit_ack_def unpack_submit_ack_def codec_rt rd_state_byte_refused cong: field_congs)

lemma unpack_pack_query_response:
  "length (qr_detail a) \<le> kMaxString \<Longrightarrow> unpack_query_response (pack_query_response a) = with_state qr_state a"
  using query_response_codec.unpack_pack [of a]
  by (cases "valid_exec_state (qr_state a)")
    (simp_all add: with_state_def pack_query_response_def unpack_query_response_def codec_rt rd_state_byte_refused cong: field_congs)

end
