(* ===== verification/Frames.thy ===== *)
theory Frames
  imports Protocol Crc64
begin

text \<open>
  The frame layer of \<^verbatim>\<open>protocol/protocol.cpp\<close>: magic, version, message type, payload length,
  checksum of the payload, payload. Decoding succeeds exactly on the bytes that encoding produces,
  and the lemmas say which damaged headers are noticed.
\<close>

definition kFrameMagic :: u32 where
  "kFrameMagic = 0x44465845"

definition kFrameVersion :: u8 where
  "kFrameVersion = 1"

definition kFrameHeaderLen :: nat where
  "kFrameHeaderLen = 4 + 1 + 1 + 4 + 8"

definition kMaxPayload :: nat where
  "kMaxPayload = 64 * 1024 * 1024"

record DecodedFrame =
  frame_type :: MsgType
  frame_payload :: "u8 list"

definition encode_frame :: "MsgType \<Rightarrow> u8 list \<Rightarrow> u8 list" where
  "encode_frame type payload =
     put_u32 kFrameMagic @ put_u8 kFrameVersion @ put_u8 (MsgType_value type)
     @ put_u32 (word_of_nat (length payload)) @ put_u64 (crc64 payload) @ payload"

text \<open>The decoded frame and the number of bytes consumed, or the error text.\<close>

definition decode_frame :: "u8 list \<Rightarrow> string + DecodedFrame \<times> nat" where
  "decode_frame data =
     (if length data < kFrameHeaderLen then Inl ''frame too short'' else
      rd get_u32 ''bad frame magic'' (\<lambda>magic.
        if magic \<noteq> kFrameMagic then (\<lambda>_. Inl ''bad frame magic'') else
      rd get_u8 ''bad frame version'' (\<lambda>ver.
        if ver \<noteq> kFrameVersion then (\<lambda>_. Inl ''bad frame version'') else
      rd get_u8 ''bad frame type'' (\<lambda>ty.
        if ty > MsgType_value SHUTDOWN then (\<lambda>_. Inl ''invalid message type'') else
      rd get_u32 ''bad frame length'' (\<lambda>len.
        if unat len > kMaxPayload then (\<lambda>_. Inl ''frame length exceeds limit'')
        else if kFrameHeaderLen + unat len > length data then (\<lambda>_. Inl ''frame payload truncated'') else
      rd get_u64 ''bad frame crc'' (\<lambda>crc _.
        let payload = take (unat len) (drop kFrameHeaderLen data) in
        if crc64 payload \<noteq> crc then Inl ''frame checksum mismatch''
        else Inr (\<lparr>frame_type = MsgType_list ! unat ty, frame_payload = payload\<rparr>, kFrameHeaderLen + unat len))))))
      (ByteReader data))"

section \<open>Message type bytes\<close>

lemma MsgType_list_value [simp]: "MsgType_list ! unat (MsgType_value t) = t"
  by (cases t) (simp_all add: MsgType_list_def)

lemma MsgType_value_le [simp]: "\<not> 26 < MsgType_value t"
  by (cases t) simp_all

lemma MsgType_value_surj:
  assumes "\<not> v > MsgType_value SHUTDOWN"
  shows "MsgType_value (MsgType_list ! unat v) = v"
proof -
  have "unat v \<le> 26" using assms by (simp add: word_less_nat_alt)
  then have "unat v \<in> {0..<27}" by simp
  then have "word_of_nat (unat v) \<in> (word_of_nat :: nat \<Rightarrow> u8) ` set [0..<27]" unfolding atLeastLessThan_upt by (rule imageI)
  then have "v \<in> word_of_nat ` set [0..<27]" by simp
  then show ?thesis by (auto simp: upt_rec MsgType_list_def)
qed

section \<open>The header\<close>

lemma length_encode_frame [simp]: "length (encode_frame t p) = kFrameHeaderLen + length p"
  by (simp add: encode_frame_def kFrameHeaderLen_def)

lemma unat_payload_length: "length p \<le> kMaxPayload \<Longrightarrow> unat (word_of_nat (length p) :: u32) = length p"
  by (simp add: kMaxPayload_def unsigned_of_nat take_bit_nat_eq_self)

text \<open>Decoding in terms of the five header fields.\<close>

lemma decode_frame_header:
  "decode_frame (put_u32 m @ put_u8 v @ put_u8 ty @ put_u32 len @ put_u64 crc @ rest) =
     (if m \<noteq> kFrameMagic then Inl ''bad frame magic''
      else if v \<noteq> kFrameVersion then Inl ''bad frame version''
      else if ty > MsgType_value SHUTDOWN then Inl ''invalid message type''
      else if unat len > kMaxPayload then Inl ''frame length exceeds limit''
      else if unat len > length rest then Inl ''frame payload truncated''
      else if crc64 (take (unat len) rest) \<noteq> crc then Inl ''frame checksum mismatch''
      else Inr (\<lparr>frame_type = MsgType_list ! unat ty, frame_payload = take (unat len) rest\<rparr>, kFrameHeaderLen + unat len))"
  by (simp add: decode_frame_def codec_rt kFrameHeaderLen_def Let_def cong: rd_cong)

lemma frame_header_cases:
  assumes "\<not> length data < kFrameHeaderLen"
  obtains m v ty len crc rest where "data = put_u32 m @ put_u8 v @ put_u8 ty @ put_u32 len @ put_u64 crc @ rest"
proof -
  have piece: "\<exists>xs ys. data = xs @ ys \<and> length xs = n" if "n \<le> length data" for n and data :: "u8 list"
    using that by (intro exI [of _ "take n data"] exI [of _ "drop n data"]) simp
  have n: "18 \<le> length data" using assms by (simp add: kFrameHeaderLen_def)
  obtain a r1 where 1: "data = a @ r1" "length a = 4" using piece [of 4 data] n by auto
  obtain b r2 where 2: "r1 = b @ r2" "length b = 1" using piece [of 1 r1] n 1 by auto
  obtain c r3 where 3: "r2 = c @ r3" "length c = 1" using piece [of 1 r2] n 1 2 by auto
  obtain d r4 where 4: "r3 = d @ r4" "length d = 4" using piece [of 4 r3] n 1 2 3 by auto
  obtain e r5 where 5: "r4 = e @ r5" "length e = 8" using piece [of 8 r4] n 1 2 3 4 by auto
  from put_u32_surj [OF 1(2)] put_u8_surj [OF 2(2)] put_u8_surj [OF 3(2)] put_u32_surj [OF 4(2)] put_u64_surj [OF 5(2)]
  show thesis using that 1(1) 2(1) 3(1) 4(1) 5(1) by auto
qed

section \<open>Decoding inverts encoding\<close>

lemma decode_encode_frame:
  assumes "length p \<le> kMaxPayload"
  shows "decode_frame (encode_frame t p @ rest) =
    Inr (\<lparr>frame_type = t, frame_payload = p\<rparr>, kFrameHeaderLen + length p)"
  using assms by (simp add: encode_frame_def decode_frame_header unat_payload_length)

lemma decode_frame_canonical:
  assumes "decode_frame data = Inr (f, n)"
  shows "length (frame_payload f) \<le> kMaxPayload \<and> n = kFrameHeaderLen + length (frame_payload f) \<and>
    n \<le> length data \<and> take n data = encode_frame (frame_type f) (frame_payload f)"
proof -
  have "\<not> length data < kFrameHeaderLen" using assms by (auto simp: decode_frame_def)
  then obtain m v ty len crc rest
    where d: "data = put_u32 m @ put_u8 v @ put_u8 ty @ put_u32 len @ put_u64 crc @ rest" by (rule frame_header_cases)
  have ok: "m = kFrameMagic" "v = kFrameVersion" "\<not> ty > MsgType_value SHUTDOWN" "unat len \<le> kMaxPayload"
      "unat len \<le> length rest" "crc = crc64 (take (unat len) rest)"
      "f = \<lparr>frame_type = MsgType_list ! unat ty, frame_payload = take (unat len) rest\<rparr>" "n = kFrameHeaderLen + unat len"
    using assms unfolding d decode_frame_header by (simp_all split: if_splits)
  have "take n data = put_u32 m @ put_u8 v @ put_u8 ty @ put_u32 len @ put_u64 crc @ take (unat len) rest"
    unfolding d ok(8) by (simp add: kFrameHeaderLen_def)
  then show ?thesis using ok MsgType_value_surj [OF ok(3)] d
    by (simp add: encode_frame_def kFrameHeaderLen_def)
qed

section \<open>Damaged frames\<close>

lemma put_u32_changed: "i < 4 \<Longrightarrow> b \<noteq> put_u32 v ! i \<Longrightarrow> \<exists>v'. v' \<noteq> v \<and> (put_u32 v)[i := b] = put_u32 v'"
  using put_u32_surj [of "(put_u32 v)[i := b]"] by (metis length_list_update length_put(3) nth_list_update_eq)

lemma put_u64_changed: "i < 8 \<Longrightarrow> b \<noteq> put_u64 v ! i \<Longrightarrow> \<exists>v'. v' \<noteq> v \<and> (put_u64 v)[i := b] = put_u64 v'"
  using put_u64_surj [of "(put_u64 v)[i := b]"] by (metis length_list_update length_put(4) nth_list_update_eq)

text \<open>A changed byte of the magic, the version, the checksum or the payload is noticed.\<close>

lemma decode_frame_damaged:
  assumes p: "length p \<le> kMaxPayload" and i: "i < length (encode_frame t p)" "i < 5 \<or> 10 \<le> i"
    and b: "b \<noteq> encode_frame t p ! i"
  shows "\<exists>e. decode_frame ((encode_frame t p)[i := b]) = Inl e"
proof -
  note frame = encode_frame_def [of t p]
  consider (magic) "i < 4" | (version) "i = 4" | (crc) "10 \<le> i" "i < 18" | (payload) "18 \<le> i"
    using i by fastforce
  then show ?thesis
  proof cases
    case magic
    then have "b \<noteq> put_u32 kFrameMagic ! i" using b by (simp add: frame nth_append)
    from put_u32_changed [OF magic this] obtain m where "m \<noteq> kFrameMagic" "(put_u32 kFrameMagic)[i := b] = put_u32 m" by blast
    then show ?thesis using magic by (simp add: frame list_update_append decode_frame_header)
  next
    case version
    then have "b \<noteq> kFrameVersion" using b by (simp add: frame nth_append put_u8_def)
    moreover have "(put_u8 kFrameVersion)[0 := b] = put_u8 b" by (simp add: put_u8_def)
    ultimately show ?thesis using version by (simp add: frame list_update_append decode_frame_header)
  next
    case crc
    then have j: "i - 10 < 8" and ge: "\<not> i < 4" "\<not> i - 4 < 1" "\<not> i - 5 < 1" "\<not> i - 6 < 4" by linarith+
    then have "b \<noteq> put_u64 (crc64 p) ! (i - 10)" using b by (simp add: frame nth_append)
    from put_u64_changed [OF j this] obtain c where "c \<noteq> crc64 p" "(put_u64 (crc64 p))[i - 10 := b] = put_u64 c" by blast
    then show ?thesis using j ge p by (simp add: frame list_update_append decode_frame_header unat_payload_length)
  next
    case payload
    then have ge: "\<not> i < 4" "\<not> i - 4 < 1" "\<not> i - 5 < 1" "\<not> i - 6 < 4" "\<not> i - 10 < 8" by linarith+
    have j: "i - 18 < length p" using i(1) payload by (simp add: kFrameHeaderLen_def)
    have "b \<noteq> p ! (i - 18)" using b ge by (simp add: frame nth_append)
    with j have "crc64 (p[i - 18 := b]) \<noteq> crc64 p" by (rule crc64_single_byte)
    then show ?thesis using ge p by (simp add: frame list_update_append decode_frame_header unat_payload_length)
  qed
qed

text \<open>The message type is not covered by the checksum: a changed type byte yields another valid frame.\<close>

lemma decode_frame_retyped:
  assumes "length p \<le> kMaxPayload"
  shows "decode_frame ((encode_frame t p)[5 := MsgType_value t']) =
    Inr (\<lparr>frame_type = t', frame_payload = p\<rparr>, kFrameHeaderLen + length p)"
proof -
  have "(put_u8 (MsgType_value t))[0 := MsgType_value t'] = put_u8 (MsgType_value t')" by (simp add: put_u8_def)
  then have "(encode_frame t p)[5 := MsgType_value t'] = encode_frame t' p" by (simp add: encode_frame_def list_update_append)
  then show ?thesis using decode_encode_frame [OF assms, of t' "[]"] by simp
qed

end
