(* ===== verification/Coordinator.thy ===== *)
theory Coordinator
  imports Recovery Frames Engine_Facts
begin

text \<open>
  \<^verbatim>\<open>coordinator/coordinator.cpp\<close>: the process around the engine. Its state is the engine, the epoch
  it was started with, the snapshot store and its file system, the table of connections, the queue
  between reader threads and decision thread, and the frames handed to connections.

  The hash map of connections is an association list whose order stands for the iteration order.
  What a handler takes from outside (clock, random numbers, outcome of file operations, contents of
  uninitialised memory) is the record \<open>environment\<close>. A handler that lets an exception escape ends the
  process: \<open>Inl\<close>. Frames sent are recorded in \<open>outbox\<close>; whether a send fails is ignored by the code.

  The actions of the acceptor, reader and decision threads that are atomic under the code's mutexes
  are the steps of \<open>coordinator_step\<close>.
\<close>

section \<open>State\<close>

record conn_entry =
  ce_conn :: bool
  is_worker :: bool
  ce_worker_id :: WorkerId
  ce_boot :: WorkerBootId
  active_execution :: "ExecutionId option"
  active_attempt :: "AttemptId option"

definition ConnEntry :: conn_entry where
  "ConnEntry =
     \<lparr>ce_conn = False, is_worker = False, ce_worker_id = id_nil, ce_boot = id_nil,
      active_execution = None, active_attempt = None\<rparr>"

record inbound =
  in_conn :: u64
  in_type :: MsgType
  in_payload :: "u8 list"

record coordinator =
  co_epoch :: CoordinatorEpoch
  co_engine :: engine
  co_store :: "file_store option"
  co_fs :: fs
  co_running :: bool
  next_conn_id :: u64
  conns :: "(u64 \<times> conn_entry) list"
  co_queue :: "inbound list"
  outbox :: "(u64 \<times> MsgType \<times> u8 list) list"

record environment =
  env_now :: string
  env_attempt_draws :: draws
  env_dispatch_draws :: draws
  env_io :: io_outcome
  env_junk :: "u8 list"
  env_uninit :: u8

text \<open>The constructor recovers the records of the snapshot, when it can be read and loaded.\<close>

definition Coordinator :: "read_outcome \<Rightarrow> string \<Rightarrow> CoordinatorEpoch \<Rightarrow> fs \<Rightarrow> coordinator" where
  "Coordinator ro persistence_path epoch fs =
     (let c = \<lparr>co_epoch = epoch, co_engine = ExecutionEngine epoch, co_store = None, co_fs = fs,
               co_running = False, next_conn_id = 1, conns = [], co_queue = [], outbox = []\<rparr>
      in if persistence_path = [] then c
         else case load ro (Gen 0) (FilePersistenceStore persistence_path) fs of
           (ok, recovered, rec_epoch, st) \<Rightarrow>
             let c = c\<lparr>co_store := Some st\<rparr> in
             if ok
             then let c = c\<lparr>co_engine := replace_records recovered (co_engine c)\<rparr> in
               (if rec_epoch > epoch
                then c\<lparr>co_epoch := rec_epoch, co_engine := raise_epoch rec_epoch (co_engine c)\<rparr> else c)
             else c)"

section \<open>Helpers of the handlers\<close>

definition coordinator_start :: "coordinator \<Rightarrow> coordinator" where
  "coordinator_start c = c\<lparr>co_running := True\<rparr>"

definition send_to :: "u64 \<Rightarrow> MsgType \<Rightarrow> u8 list \<Rightarrow> coordinator \<Rightarrow> coordinator" where
  "send_to conn type payload c =
     (case map_of (conns c) conn of
        None \<Rightarrow> c
      | Some e \<Rightarrow> if \<not> ce_conn e then c else c\<lparr>outbox := outbox c @ [(conn, type, payload)]\<rparr>)"

definition persist :: "io_outcome \<Rightarrow> coordinator \<Rightarrow> coordinator" where
  "persist io c =
     (case co_store c of
        None \<Rightarrow> c
      | Some st \<Rightarrow>
          (case save io (records (co_engine c)) (co_epoch c) st (co_fs c) of
             (_, st, fs) \<Rightarrow> c\<lparr>co_store := Some st, co_fs := fs\<rparr>))"

text \<open>The first worker connection with the given identity, 0 when there is none.\<close>

definition find_worker :: "WorkerId \<Rightarrow> coordinator \<Rightarrow> u64" where
  "find_worker w c =
     (case find (\<lambda>(k, e). is_worker e \<and> ce_worker_id e = w) (conns c) of None \<Rightarrow> 0 | Some (k, _) \<Rightarrow> k)"

definition set_active :: "u64 \<Rightarrow> DispatchTicket \<Rightarrow> coordinator \<Rightarrow> coordinator" where
  "set_active conn t c =
     (case map_of (conns c) conn of
        None \<Rightarrow> c
      | Some e \<Rightarrow>
          c\<lparr>conns := AList.update conn
              (e\<lparr>active_execution := Some (dt_execution_id t), active_attempt := Some (dt_attempt_id t)\<rparr>) (conns c)\<rparr>)"

section \<open>The handlers\<close>

definition on_conn_closed :: "environment \<Rightarrow> u64 \<Rightarrow> coordinator \<Rightarrow> coordinator" where
  "on_conn_closed env conn c =
     (case map_of (conns c) conn of
        None \<Rightarrow> c
      | Some e \<Rightarrow>
          let c = c\<lparr>conns := AList.delete conn (conns c)\<rparr> in
          (case (is_worker e, active_execution e) of
             (True, Some i) \<Rightarrow>
               persist (env_io env)
                 (c\<lparr>co_engine := snd (mark_worker_lost (co_engine c) i (ce_worker_id e) (ce_boot e) (co_epoch c))\<rparr>)
           | _ \<Rightarrow> c))"

definition handle_hello :: "u64 \<Rightarrow> HelloPayload \<Rightarrow> coordinator \<Rightarrow> coordinator" where
  "handle_hello conn hp c =
     (let e = (case map_of (conns c) conn of None \<Rightarrow> ConnEntry | Some e \<Rightarrow> e);
          e = e\<lparr>is_worker := (hp_role hp = 1), ce_worker_id := hp_worker_id hp, ce_boot := hp_worker_boot_id hp\<rparr>;
          c = c\<lparr>conns := AList.update conn e (conns c)\<rparr>
      in send_to conn WELCOME
           (pack_welcome \<lparr>wp_epoch = co_epoch c, wp_coordinator_id = ''ExecutionFabric-coordinator'',
                          wp_protocol_version = ucast kFrameVersion\<rparr>) c)"

definition handle_register :: "u64 \<Rightarrow> coordinator \<Rightarrow> coordinator" where
  "handle_register conn c =
     send_to conn REGISTER_ACK (pack_register_ack \<lparr>ra_accepted = True, ra_reason = ''registered''\<rparr>) c"

text \<open>When the execution does not exist, the state of the acknowledgement is never assigned.\<close>

definition submit_ack :: "environment \<Rightarrow> engine \<Rightarrow> ExecutionId \<Rightarrow> Decision \<Rightarrow> SubmitAckPayload" where
  "submit_ack env eng i d =
     (let ack = \<lparr>sa_accepted = (code d = ALLOW), sa_execution_id = i, sa_generation = Gen 0,
                 sa_state = env_uninit env, sa_reason = Decision_to_string d\<rparr>
      in case find_record eng i of
           None \<Rightarrow> ack
         | Some r \<Rightarrow> ack\<lparr>sa_generation := generation r, sa_state := ExecutionState_value (state r)\<rparr>)"

definition handle_submit :: "environment \<Rightarrow> u64 \<Rightarrow> SubmitPayload \<Rightarrow> coordinator \<Rightarrow> coordinator result" where
  "handle_submit env conn sp c =
     (let (d, eng) = create (co_engine c) (sp_execution_id sp) (sp_epoch sp) (env_now env)
      in case (if code d = ALLOW then activate eng (sp_execution_id sp) (sp_epoch sp) else Inr (d, eng)) of
           Inl x \<Rightarrow> Inl x
         | Inr (d, eng) \<Rightarrow>
             Inr (send_to conn SUBMIT_ACK (pack_submit_ack (submit_ack env eng (sp_execution_id sp) d))
                    (persist (env_io env) (c\<lparr>co_engine := eng\<rparr>))))"

definition handle_dispatch :: "environment \<Rightarrow> u64 \<Rightarrow> DispatchRequestPayload \<Rightarrow> coordinator \<Rightarrow> coordinator result" where
  "handle_dispatch env conn dp c =
     (let worker_conn = find_worker (dr_worker_id dp) c in
      if worker_conn = 0
      then Inr (send_to conn DISPATCH_ACK
             (pack_dispatch_ack \<lparr>da_accepted = False, da_decision = REJECT_NOT_OWNER,
                da_reason = ''worker not connected'', da_ticket = DispatchTicket_init\<rparr>) c)
      else case dispatch (co_engine c) (dr_execution_id dp) (dr_worker_id dp) (dr_worker_boot_id dp) (dr_epoch dp)
                  (env_attempt_draws env) (env_dispatch_draws env) DispatchTicket_init of
        Inl x \<Rightarrow> Inl x
      | Inr (d, ticket, eng) \<Rightarrow>
          let c = c\<lparr>co_engine := eng\<rparr>;
              c = (if code d = ALLOW
                   then persist (env_io env)
                          (send_to worker_conn WORKER_DISPATCH
                             (pack_worker_dispatch \<lparr>wd_ticket = ticket, work_bytes = 4096, work_seed = 0\<rparr>)
                             (set_active worker_conn ticket c))
                   else c)
          in Inr (send_to conn DISPATCH_ACK
               (pack_dispatch_ack \<lparr>da_accepted = (code d = ALLOW), da_decision = code d,
                  da_reason = Decision_to_string d, da_ticket = ticket\<rparr>) c))"

definition handle_start :: "u64 \<Rightarrow> StartPayload \<Rightarrow> coordinator \<Rightarrow> coordinator" where
  "handle_start conn sp c =
     (let (d, eng) = mark_running (co_engine c) (start_ticket sp)
      in send_to conn COMPLETE_ACK (pack_decision d) (c\<lparr>co_engine := eng\<rparr>))"

text \<open>A ticket with a result but a nil digest gets the digest of the result bytes.\<close>

definition with_digest :: "u8 list \<Rightarrow> CompletePayload \<Rightarrow> CompletionTicket" where
  "with_digest junk cp =
     (let t = completion_ticket cp in
      if has_result t \<and> ResultDigest_is_nil (ct_result_digest t)
      then t\<lparr>ct_result_digest := of_buffer junk (result_bytes cp)\<rparr> else t)"

definition handle_complete :: "environment \<Rightarrow> u64 \<Rightarrow> CompletePayload \<Rightarrow> coordinator \<Rightarrow> coordinator" where
  "handle_complete env conn cp c =
     (let t = with_digest (env_junk env) cp;
          (d, eng) = complete (co_engine c) t (env_now env);
          c = c\<lparr>co_engine := eng\<rparr>;
          digest = (if code d = ALLOW
                    then (case find_record eng (ct_execution_id t) of
                            None \<Rightarrow> ResultDigest_nil
                          | Some r \<Rightarrow> (case committed_digest r of None \<Rightarrow> ResultDigest_nil | Some dg \<Rightarrow> dg))
                    else ResultDigest_nil);
          c = (if code d = ALLOW then persist (env_io env) c else c)
      in send_to conn COMPLETE_ACK
           (pack_complete_ack \<lparr>ca_decision = code d, ca_reason = Decision_to_string d,
              ca_committed = (code d = ALLOW), ca_committed_digest = digest\<rparr>) c)"

text \<open>The five handlers that call one operation, persist, and send the decision.\<close>

definition handle_control :: "environment \<Rightarrow> u64 \<Rightarrow> MsgType \<Rightarrow> Decision \<times> engine \<Rightarrow> coordinator \<Rightarrow> coordinator" where
  "handle_control env conn ack r c =
     send_to conn ack (pack_decision (fst r)) (persist (env_io env) (c\<lparr>co_engine := snd r\<rparr>))"

definition handle_resume :: "environment \<Rightarrow> u64 \<Rightarrow> ResumeRequestPayload \<Rightarrow> coordinator \<Rightarrow> coordinator" where
  "handle_resume env conn rp c =
     (let worker_conn = find_worker (rr_worker_id rp) c;
          (d, ticket, eng) = resume (co_engine c) (rr_execution_id rp) (rr_worker_id rp) (rr_worker_boot_id rp)
             (rr_epoch rp) (resume_gen rp) (env_attempt_draws env) (env_dispatch_draws env) DispatchTicket_init;
          c = c\<lparr>co_engine := eng\<rparr>;
          c = (if code d = RESUME_ALLOWED \<and> worker_conn \<noteq> 0
               then persist (env_io env)
                      (send_to worker_conn WORKER_DISPATCH
                         (pack_worker_dispatch \<lparr>wd_ticket = ticket, work_bytes = 4096, work_seed = 7\<rparr>) c)
               else c)
      in send_to conn RESUME_ACK
           (pack_dispatch_ack \<lparr>da_accepted = (code d = RESUME_ALLOWED \<or> code d = ALLOW), da_decision = code d,
              da_reason = Decision_to_string d, da_ticket = ticket\<rparr>) c)"

definition query_response :: "environment \<Rightarrow> engine \<Rightarrow> ExecutionId \<Rightarrow> QueryResponsePayload" where
  "query_response env eng i =
     (case find_record eng i of
        None \<Rightarrow>
          \<lparr>qr_found = False, qr_execution_id = i, qr_state = env_uninit env, qr_generation = Gen 0, qr_epoch = Gen 0,
           qr_current_attempt = None, qr_current_attempt_generation = None, attempt_count = 0,
           qr_committed_digest = None, qr_detail = ''not found''\<rparr>
      | Some r \<Rightarrow>
          \<lparr>qr_found = True, qr_execution_id = i, qr_state = ExecutionState_value (state r),
           qr_generation = generation r, qr_epoch = coordinator_epoch r,
           qr_current_attempt = current_attempt_id r, qr_current_attempt_generation = current_attempt_generation r,
           attempt_count = word_of_nat (length (attempts r)), qr_committed_digest = committed_digest r,
           qr_detail = ''state='' @ ExecutionState_to_string (state r)\<rparr>)"

definition handle_query :: "environment \<Rightarrow> u64 \<Rightarrow> QueryPayload \<Rightarrow> coordinator \<Rightarrow> coordinator" where
  "handle_query env conn qp c =
     send_to conn QUERY_RESPONSE (pack_query_response (query_response env (co_engine c) (qp_execution_id qp))) c"

text \<open>A payload that cannot be unpacked is dropped without an answer.\<close>

definition on_payload :: "string + 'p \<Rightarrow> coordinator \<Rightarrow> ('p \<Rightarrow> coordinator result) \<Rightarrow> coordinator result" where
  "on_payload p c handle = (case p of Inl _ \<Rightarrow> Inr c | Inr p \<Rightarrow> handle p)"

definition handle_frame :: "environment \<Rightarrow> u64 \<Rightarrow> MsgType \<Rightarrow> u8 list \<Rightarrow> coordinator \<Rightarrow> coordinator result" where
  "handle_frame env conn type payload c =
     (case type of
        HELLO \<Rightarrow> on_payload (unpack_hello payload) c (\<lambda>p. Inr (handle_hello conn p c))
      | REGISTER_WORKER \<Rightarrow> Inr (handle_register conn c)
      | SUBMIT \<Rightarrow> on_payload (unpack_submit payload) c (\<lambda>p. handle_submit env conn p c)
      | DISPATCH \<Rightarrow> on_payload (unpack_dispatch payload) c (\<lambda>p. handle_dispatch env conn p c)
      | START \<Rightarrow> on_payload (unpack_start payload) c (\<lambda>p. Inr (handle_start conn p c))
      | COMPLETE \<Rightarrow> on_payload (unpack_complete payload) c (\<lambda>p. Inr (handle_complete env conn p c))
      | CANCEL \<Rightarrow> on_payload (unpack_cancel payload) c (\<lambda>p.
          Inr (handle_control env conn CANCEL_ACK (cancel (co_engine c) (cancel_request p)) c))
      | PREEMPT \<Rightarrow> on_payload (unpack_cancel payload) c (\<lambda>p.
          Inr (handle_control env conn PREEMPT_ACK (preempt (co_engine c) (cancel_request p)) c))
      | ACK_PREEMPT \<Rightarrow> on_payload (unpack_ack_preempt payload) c (\<lambda>p.
          Inr (handle_control env conn PREEMPT_ACK
                 (acknowledge_preempt (co_engine c) (ap_execution_id p) (ap_epoch p)) c))
      | MARK_RESUMABLE \<Rightarrow> on_payload (unpack_mark_resumable payload) c (\<lambda>p.
          Inr (handle_control env conn PREEMPT_ACK
                 (mark_resumable (co_engine c) (mr_execution_id p) (mr_epoch p)) c))
      | RESUME \<Rightarrow> on_payload (unpack_resume payload) c (\<lambda>p. Inr (handle_resume env conn p c))
      | WORKER_LOST \<Rightarrow> on_payload (unpack_worker_lost payload) c (\<lambda>p.
          Inr (handle_control env conn COMPLETE_ACK
                 (mark_worker_lost (co_engine c) (wl_execution_id p) (wl_worker_id p) (wl_worker_boot_id p) (wl_epoch p)) c))
      | QUERY \<Rightarrow> on_payload (unpack_query payload) c (\<lambda>p. Inr (handle_query env conn p c))
      | PING \<Rightarrow> Inr (send_to conn PONG payload c)
      | SHUTDOWN \<Rightarrow> Inr (c\<lparr>co_running := False\<rparr>)
      | _ \<Rightarrow> Inr c)"

section \<open>The threads\<close>

text \<open>The marker a reader thread leaves when its connection ends.\<close>

definition closed_marker :: "u64 \<Rightarrow> inbound" where
  "closed_marker conn = \<lparr>in_conn = conn, in_type = SHUTDOWN, in_payload = [0xFF, 0xFF, 0xFF, 0xFF]\<rparr>"

text \<open>One turn of the decision loop on a nonempty queue.\<close>

definition decide_inbound :: "environment \<Rightarrow> inbound \<Rightarrow> coordinator \<Rightarrow> coordinator result" where
  "decide_inbound env inb c =
     (if in_type inb = SHUTDOWN \<and> in_payload inb = [0xFF, 0xFF, 0xFF, 0xFF]
      then Inr (on_conn_closed env (in_conn inb) c)
      else handle_frame env (in_conn inb) (in_type inb) (in_payload inb) c)"

definition accept_conn :: "coordinator \<Rightarrow> coordinator" where
  "accept_conn c =
     c\<lparr>next_conn_id := next_conn_id c + 1,
       conns := AList.update (next_conn_id c) (ConnEntry\<lparr>ce_conn := True\<rparr>) (conns c)\<rparr>"

definition enqueue :: "inbound \<Rightarrow> coordinator \<Rightarrow> coordinator" where
  "enqueue inb c = c\<lparr>co_queue := co_queue c @ [inb]\<rparr>"

text \<open>
  \<^verbatim>\<open>stop\<close> first clears the flag; when the flag was set, it joins the acceptor and then wakes the
  decision thread with an empty SHUTDOWN.
\<close>

definition stop_requested :: "coordinator \<Rightarrow> coordinator" where
  "stop_requested c = c\<lparr>co_running := False\<rparr>"

definition stop_wakeup :: "coordinator \<Rightarrow> coordinator" where
  "stop_wakeup c = enqueue \<lparr>in_conn = 0, in_type = SHUTDOWN, in_payload = []\<rparr> c"

definition coordinator_stop :: "coordinator \<Rightarrow> coordinator" where
  "coordinator_stop c = (if \<not> co_running c then c else stop_wakeup (stop_requested c))"

text \<open>
  The acceptor and the readers test the flag before they block, not after: a connection or a frame
  may still come in once the flag is cleared. The two halves of \<^verbatim>\<open>stop\<close> are separate steps,
  since the other threads run between them.
\<close>

datatype coordinator_action =
    Accept
  | Frame_received u64 DecodedFrame
  | Connection_ended u64
  | Decide environment
  | Stop
  | Wake

inductive coordinator_step :: "coordinator \<Rightarrow> coordinator_action \<Rightarrow> coordinator \<Rightarrow> bool" where
  step_accept: "coordinator_step c Accept (accept_conn c)"
| step_frame: "coordinator_step c (Frame_received conn f)
      (enqueue \<lparr>in_conn = conn, in_type = frame_type f, in_payload = frame_payload f\<rparr> c)"
| step_ended: "coordinator_step c (Connection_ended conn) (enqueue (closed_marker conn) c)"
| step_decide: "co_queue c = inb # rest \<Longrightarrow> decide_inbound env inb (c\<lparr>co_queue := rest\<rparr>) = Inr c' \<Longrightarrow>
    coordinator_step c (Decide env) c'"
| step_stop: "coordinator_step c Stop (stop_requested c)"
| step_wake: "\<not> co_running c \<Longrightarrow> coordinator_step c Wake (stop_wakeup c)"

section \<open>Helpers keep the engine\<close>

lemma engine_send_to [simp]: "co_engine (send_to conn ty p c) = co_engine c"
  by (simp add: send_to_def split: option.split)

lemma engine_persist [simp]: "co_engine (persist io c) = co_engine c"
  by (simp add: persist_def split: option.split prod.split)

lemma engine_set_active [simp]: "co_engine (set_active conn t c) = co_engine c"
  by (simp add: set_active_def split: option.split)

lemma epoch_send_to [simp]: "co_epoch (send_to conn ty p c) = co_epoch c"
  by (simp add: send_to_def split: option.split)

lemma epoch_persist [simp]: "co_epoch (persist io c) = co_epoch c"
  by (simp add: persist_def split: option.split prod.split)

lemma epoch_set_active [simp]: "co_epoch (set_active conn t c) = co_epoch c"
  by (simp add: set_active_def split: option.split)

lemma store_send_to [simp]: "co_store (send_to conn ty p c) = co_store c" "co_fs (send_to conn ty p c) = co_fs c"
  by (simp_all add: send_to_def split: option.split)

lemma queue_helpers [simp]:
  "co_queue (send_to conn ty p c) = co_queue c" "co_queue (persist io c) = co_queue c" "co_queue (set_active conn t c) = co_queue c"
  by (simp_all add: send_to_def persist_def set_active_def split: option.split prod.split)

lemma outbox_helpers [simp]: "outbox (persist io c) = outbox c" "outbox (set_active conn t c) = outbox c"
  by (simp_all add: persist_def set_active_def split: option.split prod.split)

lemma outbox_send_to:
  "outbox (send_to conn ty p c) = outbox c @ (if \<exists>e. map_of (conns c) conn = Some e \<and> ce_conn e then [(conn, ty, p)] else [])"
  by (auto simp: send_to_def split: option.split)

lemma conns_set_active:
  "(\<exists>e. map_of (conns (set_active conn t c)) conn' = Some e \<and> ce_conn e) \<longleftrightarrow> (\<exists>e. map_of (conns c) conn' = Some e \<and> ce_conn e)"
  by (auto simp: set_active_def update_conv split: option.split)

text \<open>A granted dispatch sends the ticket to the worker, then the acknowledgement to the client.\<close>

lemma handle_dispatch_granted:
  assumes "find_worker (dr_worker_id dp) c = wconn" "wconn \<noteq> 0"
    and "dispatch (co_engine c) (dr_execution_id dp) (dr_worker_id dp) (dr_worker_boot_id dp) (dr_epoch dp)
          (env_attempt_draws env) (env_dispatch_draws env) DispatchTicket_init = Inr (d, tk, eng)" "code d = ALLOW"
    and "map_of (conns c) wconn = Some e" "ce_conn e"
  shows "\<exists>c' acks. handle_dispatch env conn dp c = Inr c' \<and> co_engine c' = eng \<and> co_queue c' = co_queue c \<and>
    outbox c' = outbox c @
      (wconn, WORKER_DISPATCH, pack_worker_dispatch \<lparr>wd_ticket = tk, work_bytes = 4096, work_seed = 0\<rparr>) # acks \<and>
    list_all (\<lambda>(_, ty, _). ty = DISPATCH_ACK) acks"
proof -
  have "\<exists>e. map_of (conns (set_active wconn tk (c\<lparr>co_engine := eng\<rparr>))) wconn = Some e \<and> ce_conn e"
    using conns_set_active [of wconn tk "c\<lparr>co_engine := eng\<rparr>" wconn] assms(5,6) by simp
  then show ?thesis using assms(1-4) by (simp add: handle_dispatch_def Let_def outbox_send_to)
qed

section \<open>Every handler acts through engine operations\<close>

lemma steps_one: "engine_call eng ev = Inr (d, eng') \<Longrightarrow> steps engine_step eng [ev] eng'"
  by (auto simp: engine_step_def)

text \<open>An engine that a sequence of engine operations leads to.\<close>

definition engine_follows :: "engine \<Rightarrow> engine \<Rightarrow> bool" where
  "engine_follows eng eng' \<longleftrightarrow> (\<exists>es. steps engine_step eng es eng')"

lemma engine_follows_refl [simp]: "engine_follows eng eng"
  unfolding engine_follows_def by blast

lemma engine_follows_trans: "engine_follows a b \<Longrightarrow> engine_follows b c \<Longrightarrow> engine_follows a c"
  unfolding engine_follows_def by (metis steps_append)

lemma engine_follows_call: "engine_call eng ev = Inr (d, eng') \<Longrightarrow> engine_follows eng eng'"
  unfolding engine_follows_def using steps_one by blast

lemma engine_follows_ops [simp]:
  "engine_follows eng (snd (create eng i e now))"
  "engine_follows eng (snd (mark_running eng st))"
  "engine_follows eng (snd (complete eng ct now))"
  "engine_follows eng (snd (cancel eng req))"
  "engine_follows eng (snd (preempt eng req))"
  "engine_follows eng (snd (acknowledge_preempt eng i e))"
  "engine_follows eng (snd (mark_resumable eng i e))"
  "engine_follows eng (snd (mark_worker_lost eng i w b e))"
  using engine_follows_call [of eng "Create i e now"] engine_follows_call [of eng "MarkRunning st"]
    engine_follows_call [of eng "Complete ct now"] engine_follows_call [of eng "Cancel req"]
    engine_follows_call [of eng "Preempt req"] engine_follows_call [of eng "AcknowledgePreempt i e"]
    engine_follows_call [of eng "MarkResumable i e"] engine_follows_call [of eng "MarkWorkerLost i w b e"]
  by (metis engine_call.simps prod.collapse)+

lemma on_conn_closed_acts: "engine_follows (co_engine c) (co_engine (on_conn_closed env conn c))"
  by (simp add: on_conn_closed_def Let_def split: option.split bool.split)

lemma handle_submit_acts:
  assumes "handle_submit env conn sp c = Inr c'"
  shows "engine_follows (co_engine c) (co_engine c')"
proof -
  obtain d eng where cr: "create (co_engine c) (sp_execution_id sp) (sp_epoch sp) (env_now env) = (d, eng)" by fastforce
  then have s1: "engine_follows (co_engine c) eng"
    using engine_follows_ops(1) [of "co_engine c" "sp_execution_id sp" "sp_epoch sp" "env_now env"] by simp
  show ?thesis
  proof (cases "code d = ALLOW")
    case True
    then obtain d' where "activate eng (sp_execution_id sp) (sp_epoch sp) = Inr (d', co_engine c')"
      using assms cr by (auto simp: handle_submit_def split: sum.splits prod.splits)
    then have "engine_follows eng (co_engine c')"
      by (intro engine_follows_call [of _ "Activate (sp_execution_id sp) (sp_epoch sp)" d']) simp
    with s1 show ?thesis by (rule engine_follows_trans)
  next
    case False
    then show ?thesis using assms cr s1 by (auto simp: handle_submit_def)
  qed
qed

lemma handle_dispatch_acts:
  assumes "handle_dispatch env conn dp c = Inr c'"
  shows "engine_follows (co_engine c) (co_engine c')"
proof (cases "find_worker (dr_worker_id dp) c = 0")
  case True
  then show ?thesis using assms by (auto simp: handle_dispatch_def)
next
  case False
  then obtain d t where "dispatch (co_engine c) (dr_execution_id dp) (dr_worker_id dp) (dr_worker_boot_id dp) (dr_epoch dp)
      (env_attempt_draws env) (env_dispatch_draws env) DispatchTicket_init = Inr (d, t, co_engine c')"
    using assms by (auto simp: handle_dispatch_def Let_def split: sum.splits prod.splits if_splits)
  then have "engine_call (co_engine c) (Dispatch (dr_execution_id dp) (dr_worker_id dp) (dr_worker_boot_id dp) (dr_epoch dp)
      (env_attempt_draws env) (env_dispatch_draws env)) = Inr (d, co_engine c')" by simp
  then show ?thesis by (rule engine_follows_call)
qed

lemma handle_resume_acts: "engine_follows (co_engine c) (co_engine (handle_resume env conn rp c))"
proof -
  let ?ev = "Resume (rr_execution_id rp) (rr_worker_id rp) (rr_worker_boot_id rp) (rr_epoch rp) (resume_gen rp)
      (env_attempt_draws env) (env_dispatch_draws env)"
  obtain d t eng where r: "resume (co_engine c) (rr_execution_id rp) (rr_worker_id rp) (rr_worker_boot_id rp) (rr_epoch rp)
      (resume_gen rp) (env_attempt_draws env) (env_dispatch_draws env) DispatchTicket_init = (d, t, eng)"
    by (metis prod_cases3)
  then have "engine_call (co_engine c) ?ev = Inr (d, eng)" by simp
  moreover have "co_engine (handle_resume env conn rp c) = eng" using r by (simp add: handle_resume_def Let_def)
  ultimately show ?thesis using engine_follows_call by blast
qed

lemma engine_handlers:
  "co_engine (handle_hello conn hp c) = co_engine c" "co_engine (handle_register conn c) = co_engine c"
  "co_engine (handle_query env conn qp c) = co_engine c"
  "co_engine (handle_start conn sp c) = snd (mark_running (co_engine c) (start_ticket sp))"
  "co_engine (handle_complete env conn cp c) = snd (complete (co_engine c) (with_digest (env_junk env) cp) (env_now env))"
  "co_engine (handle_control env conn ack r c) = snd r"
  by (simp_all add: handle_hello_def handle_register_def handle_query_def handle_start_def handle_complete_def
      handle_control_def Let_def split_beta)

lemma handle_frame_acts:
  assumes "handle_frame env conn ty pl c = Inr c'"
  shows "engine_follows (co_engine c) (co_engine c')"
  using assms handle_submit_acts [of env conn _ c c'] handle_dispatch_acts [of env conn _ c c']
  by (cases ty) (auto simp: handle_frame_def on_payload_def engine_handlers handle_resume_acts split: sum.splits)

lemma decide_inbound_acts:
  "decide_inbound env inb c = Inr c' \<Longrightarrow> engine_follows (co_engine c) (co_engine c')"
  using handle_frame_acts on_conn_closed_acts by (auto simp: decide_inbound_def split: if_splits)

lemma coordinator_step_acts:
  assumes "coordinator_step c a c'"
  shows "engine_follows (co_engine c) (co_engine c')"
  using assms
proof cases
  case (step_decide inb rest env)
  then show ?thesis using decide_inbound_acts [of env inb "c\<lparr>co_queue := rest\<rparr>" c'] by simp
qed (auto simp: accept_conn_def enqueue_def stop_requested_def stop_wakeup_def)

text \<open>The guarantees of engine runs hold along every run of the coordinator.\<close>

interpretation coordinator_runs: step_preorder coordinator_step "\<lambda>c. engine_wf (co_engine c)"
    "\<lambda>c c'. engine_advances (co_engine c) (co_engine c')"
proof
  fix c a c'
  assume "engine_wf (co_engine c)" "coordinator_step c a c'"
  then show "engine_wf (co_engine c')" "engine_advances (co_engine c) (co_engine c')"
    using coordinator_step_acts engine_runs.inv_steps engine_runs.advances_steps unfolding engine_follows_def by blast+
qed (use engine_runs.advances_refl engine_runs.advances_trans in blast)+

end
