(* ===== verification/Durability.thy ===== *)
theory Durability
  imports Coordinator
begin

text \<open>
  The coordinator over several lives of its process. The engine, the connections and the queue are
  lost when the process dies; the file system stays, and the next process starts from the snapshot
  it finds there. A \<open>system_step\<close> is a step of a thread, the death of the process between two such
  steps, or its death inside the save of a turn of the decision loop, in any of the states the file
  system passes through; a death is followed by a start on the same path with any configured epoch.

  The lemmas show that every handler leaves the snapshot alone or replaces it by the records of the
  engine it leaves behind, and that a record in a terminal state that is in the snapshot stays in
  engine and snapshot for good, along the steps \<open>durable_step\<close> allows.
\<close>

section \<open>Restart\<close>

text \<open>The file at the path of the store is a snapshot of the given engine.\<close>

definition snapshot_at :: "fs \<Rightarrow> string \<Rightarrow> engine \<Rightarrow> bool" where
  "snapshot_at fs p eng \<longleftrightarrow>
     (\<exists>ep. fs p = Some (snapshot_bytes (records eng) ep)) \<and> storable_records (records eng) \<and> engine_wf eng"

lemma restart_restores:
  assumes snap: "snapshot_at fs p eng" and p: "p \<noteq> []"
  shows "engine_wf (co_engine (Coordinator Read_succeeds p e0 fs))"
    and "find_record (co_engine (Coordinator Read_succeeds p e0 fs)) i = find_record eng i"
    and "\<exists>st. co_store (Coordinator Read_succeeds p e0 fs) = Some st \<and> path st = p"
    and "co_fs (Coordinator Read_succeeds p e0 fs) = fs"
proof -
  obtain ep where wf: "engine_wf eng" and snapshot: "fs p = Some (snapshot_bytes (records eng) ep)"
    and rs: "storable_records (records eng)"
    using snap by (auto simp: snapshot_at_def)
  have "load_bytes (Gen 0) (snapshot_bytes (records eng) ep) = Inr (records eng, ep)"
    using rs by (intro load_bytes_snapshot) (simp_all add: storable_records_def)
  then have l: "load Read_succeeds (Gen 0) (FilePersistenceStore p) fs = (True, records eng, ep, FilePersistenceStore p)"
    using snapshot by (simp add: load_def FilePersistenceStore_def)
  let ?eng = "replace_records (records eng) (ExecutionEngine e0)"
  have c: "co_engine (Coordinator Read_succeeds p e0 fs) = (if ep > e0 then raise_epoch ep ?eng else ?eng)"
    "co_store (Coordinator Read_succeeds p e0 fs) = Some (FilePersistenceStore p)" "co_fs (Coordinator Read_succeeds p e0 fs) = fs"
    using p l by (simp_all add: Coordinator_def Let_def)
  have w: "engine_wf ?eng" by (rule replace_records_wf [OF wf])
  have "engine_wf (raise_epoch ep ?eng)"
    by (rule engine_runs.inv_step [OF w, of "RaiseEpoch ep"]) (simp add: engine_step_def)
  then show "engine_wf (co_engine (Coordinator Read_succeeds p e0 fs))" using w c(1) by simp
  show "find_record (co_engine (Coordinator Read_succeeds p e0 fs)) i = find_record eng i"
    using replace_records_find [OF wf, of "ExecutionEngine e0" i] c(1) by (simp add: raise_epoch_def)
  show "\<exists>st. co_store (Coordinator Read_succeeds p e0 fs) = Some st \<and> path st = p"
    using c(2) by (simp add: FilePersistenceStore_def)
  show "co_fs (Coordinator Read_succeeds p e0 fs) = fs" by (rule c(3))
qed

section \<open>What the handlers write\<close>

definition storage :: "coordinator \<Rightarrow> file_store option \<times> fs" where
  "storage c = (co_store c, co_fs c)"

text \<open>The storage is as before, or that of a save of the engine left behind.\<close>

definition saves :: "io_outcome \<Rightarrow> coordinator \<Rightarrow> coordinator \<Rightarrow> bool" where
  "saves io c c' \<longleftrightarrow>
     storage c' = storage c \<or> storage c' = storage (persist io (c\<lparr>co_engine := co_engine c'\<rparr>))"

lemma storage_send_to [simp]: "storage (send_to conn ty p c) = storage c"
  by (simp add: storage_def)

lemma storage_set_active [simp]: "storage (set_active conn t c) = storage c"
  by (simp add: storage_def set_active_def split: option.split)

lemma storage_update [simp]:
  "storage (c\<lparr>conns := cs\<rparr>) = storage c" "storage (c\<lparr>co_engine := eng\<rparr>) = storage c" "storage (c\<lparr>co_running := b\<rparr>) = storage c"
  "storage (c\<lparr>co_queue := q\<rparr>) = storage c"
  by (simp_all add: storage_def)

text \<open>A save reads engine, epoch and storage only.\<close>

lemma storage_persist_cong:
  "co_engine c = co_engine d \<Longrightarrow> co_epoch c = co_epoch d \<Longrightarrow> storage c = storage d \<Longrightarrow>
     storage (persist io c) = storage (persist io d)"
  by (simp add: storage_def persist_def split: option.split prod.split)

lemma saves_nothing: "storage c' = storage c \<Longrightarrow> saves io c c'"
  by (simp add: saves_def)

lemma saves_persist: "co_epoch d = co_epoch c \<Longrightarrow> storage d = storage c \<Longrightarrow> saves io c (persist io d)"
  using storage_persist_cong [of d "c\<lparr>co_engine := co_engine d\<rparr>" io] by (simp add: saves_def)

lemma saves_send_to [simp]: "saves io c (send_to conn ty p d) \<longleftrightarrow> saves io c d"
  by (simp add: saves_def)

lemma on_conn_closed_saves: "saves (env_io env) c (on_conn_closed env conn c)"
  by (simp add: on_conn_closed_def Let_def saves_nothing saves_persist split: option.split bool.split)

lemma handle_submit_saves: "handle_submit env conn sp c = Inr c' \<Longrightarrow> saves (env_io env) c c'"
  by (auto simp: handle_submit_def saves_persist split: sum.splits prod.splits if_splits)

lemma handle_dispatch_saves: "handle_dispatch env conn dp c = Inr c' \<Longrightarrow> saves (env_io env) c c'"
  by (auto simp: handle_dispatch_def Let_def saves_nothing saves_persist split: sum.splits prod.splits if_splits)

lemma handler_saves:
  "saves (env_io env) c (handle_hello conn hp c)" "saves (env_io env) c (handle_register conn c)"
  "saves (env_io env) c (handle_query env conn qp c)" "saves (env_io env) c (handle_start conn sp c)"
  "saves (env_io env) c (handle_complete env conn cp c)" "saves (env_io env) c (handle_control env conn ack r c)"
  "saves (env_io env) c (handle_resume env conn rp c)"
  by (simp_all add: handle_hello_def handle_register_def handle_query_def handle_start_def handle_complete_def handle_control_def
      handle_resume_def Let_def split_beta saves_nothing saves_persist)

lemma handle_frame_saves:
  "handle_frame env conn ty pl c = Inr c' \<Longrightarrow> saves (env_io env) c c'"
  using handle_submit_saves [of env conn _ c c'] handle_dispatch_saves [of env conn _ c c']
  by (cases ty) (auto simp: handle_frame_def on_payload_def handler_saves saves_nothing split: sum.splits)

lemma decide_inbound_saves: "decide_inbound env inb c = Inr c' \<Longrightarrow> saves (env_io env) c c'"
  using handle_frame_saves on_conn_closed_saves by (auto simp: decide_inbound_def split: if_splits)

text \<open>Unless bytes are lost at the close or the rename fails, the snapshot is the old one or that of the engine left behind.\<close>

definition keeps_snapshot :: "io_outcome \<Rightarrow> bool" where
  "keeps_snapshot io \<longleftrightarrow> flushed io \<and> \<not> io_rename_error io"

lemma saves_snapshot:
  assumes "saves io c c'" "co_store c = Some st" "keeps_snapshot io"
  obtains st' where "co_store c' = Some st'" "path st' = path st"
    "co_fs c' (path st) = co_fs c (path st) \<or> (\<exists>ep. co_fs c' (path st) = Some (snapshot_bytes (records (co_engine c')) ep))"
proof -
  obtain ok st1 fs1 where s: "save io (records (co_engine c')) (co_epoch c) st (co_fs c) = (ok, st1, fs1)" by (cases "save io (records (co_engine c')) (co_epoch c) st (co_fs c)")
  then have "storage (persist io (c\<lparr>co_engine := co_engine c'\<rparr>)) = (Some st1, fs1)"
    using assms(2) by (simp add: persist_def storage_def)
  then consider "co_store c' = Some st" "co_fs c' = co_fs c" | "co_store c' = Some st1" "co_fs c' = fs1"
    using assms(1,2) by (auto simp: saves_def storage_def)
  then show thesis
    using that save_keeps_path [OF s] save_keeps_target [OF s] assms(3) by cases (auto simp: keeps_snapshot_def)
qed

section \<open>Runs with crashes\<close>

datatype system_action =
    Thread coordinator_action
  | Restart read_outcome CoordinatorEpoch
  | Death_in_save environment fs read_outcome CoordinatorEpoch

inductive system_step :: "coordinator \<Rightarrow> system_action \<Rightarrow> coordinator \<Rightarrow> bool" where
  step_thread: "coordinator_step c a c' \<Longrightarrow> system_step c (Thread a) c'"
| step_restart: "co_store c = Some st \<Longrightarrow>
    system_step c (Restart ro e0) (coordinator_start (Coordinator ro (path st) e0 (co_fs c)))"
| step_death: "co_store c = Some st \<Longrightarrow> coordinator_step c (Decide env) c1 \<Longrightarrow>
    fs \<in> save_states (env_io env) (records (co_engine c1)) (co_epoch c) st (co_fs c) \<Longrightarrow>
    system_step c (Death_in_save env fs ro e0) (coordinator_start (Coordinator ro (path st) e0 fs))"

inductive_cases system_threadE: "system_step c (Thread a) c'"
inductive_cases system_restartE: "system_step c (Restart ro e0) c'"
inductive_cases system_deathE: "system_step c (Death_in_save env fs ro e0) c'"
inductive_cases decideE: "coordinator_step c (Decide env) c'"

text \<open>
  Steps without a storage loss. The records that a turn leaves behind are in the range of the snapshot
  format; its save may fail, but not by bytes lost at the close or in the rename. The process can die
  anywhere, except in a save between remove and rename, and the file can be read at the next start.
\<close>

definition durable_step :: "coordinator \<Rightarrow> system_action \<Rightarrow> coordinator \<Rightarrow> bool" where
  "durable_step c a c' \<longleftrightarrow> system_step c a c' \<and>
     (case a of
        Thread (Decide env) \<Rightarrow> keeps_snapshot (env_io env) \<and> storable_records (records (co_engine c'))
      | Thread _ \<Rightarrow> True
      | Restart ro e0 \<Rightarrow> ro = Read_succeeds
      | Death_in_save env fs ro e0 \<Rightarrow>
          ro = Read_succeeds \<and> flushed (env_io env) \<and> (\<forall>st. co_store c = Some st \<longrightarrow> fs (path st) \<noteq> None) \<and>
          (\<forall>c1. coordinator_step c (Decide env) c1 \<longrightarrow> storable_records (records (co_engine c1))))"

text \<open>The record is final, in the engine and in the snapshot.\<close>

definition durable :: "ExecutionId \<Rightarrow> ExecutionRecord \<Rightarrow> coordinator \<Rightarrow> bool" where
  "durable i r c \<longleftrightarrow>
     engine_wf (co_engine c) \<and> find_record (co_engine c) i = Some r \<and> ExecutionStateMachine_is_terminal (state r) \<and>
     (\<exists>st eng. co_store c = Some st \<and> path st \<noteq> [] \<and> snapshot_at (co_fs c) (path st) eng \<and> find_record eng i = Some r)"

lemma terminal_follows:
  assumes "engine_wf eng" "engine_follows eng eng'" "find_record eng i = Some r" "ExecutionStateMachine_is_terminal (state r)"
  shows "find_record eng' i = Some r"
  using assms engine_runs.advances_steps [OF _ assms(1)]
  by (auto simp: engine_follows_def engine_advances_def record_advances_def)

lemma durable_follows:
  assumes d: "durable i r c" and wf: "engine_wf (co_engine c')" and f: "engine_follows (co_engine c) (co_engine c')"
    and s: "saves io c c'" "keeps_snapshot io" and rs: "storable_records (records (co_engine c'))"
  shows "durable i r c'"
proof -
  obtain st eng where st: "co_store c = Some st" "path st \<noteq> []" "snapshot_at (co_fs c) (path st) eng" "find_record eng i = Some r"
    and r: "engine_wf (co_engine c)" "find_record (co_engine c) i = Some r" "ExecutionStateMachine_is_terminal (state r)"
    using d by (auto simp: durable_def)
  have r': "find_record (co_engine c') i = Some r" by (rule terminal_follows [OF r(1) f r(2,3)])
  obtain st' where st': "co_store c' = Some st'" "path st' = path st"
    "co_fs c' (path st) = co_fs c (path st) \<or> (\<exists>ep. co_fs c' (path st) = Some (snapshot_bytes (records (co_engine c')) ep))"
    by (rule saves_snapshot [OF s(1) st(1) s(2)])
  then have "snapshot_at (co_fs c') (path st') eng \<or> snapshot_at (co_fs c') (path st') (co_engine c')"
    using st(3) wf rs by (auto simp: snapshot_at_def)
  then show ?thesis using st' st(2,4) r' wf r(3) by (auto simp: durable_def)
qed

lemma thread_keeps_storage:
  assumes "coordinator_step c a c'" "\<And>env. a \<noteq> Decide env"
  shows "storage c' = storage c" "co_engine c' = co_engine c"
  using assms
  by (cases, auto simp: storage_def accept_conn_def enqueue_def stop_requested_def stop_wakeup_def)+

lemma durable_thread:
  assumes d: "durable i r c" and step: "durable_step c (Thread a) c'"
  shows "durable i r c'"
proof -
  have s: "coordinator_step c a c'" using step by (auto simp: durable_step_def elim: system_threadE)
  have wf: "engine_wf (co_engine c')"
    using coordinator_runs.inv_step [OF _ s] d by (simp add: durable_def)
  show ?thesis
  proof (cases "\<exists>env. a = Decide env")
    case False
    then show ?thesis using thread_keeps_storage [OF s] d by (auto simp: durable_def storage_def)
  next
    case True
    then obtain env where a: "a = Decide env" by blast
    then obtain inb rest where dec: "decide_inbound env inb (c\<lparr>co_queue := rest\<rparr>) = Inr c'"
      using s by (auto elim: decideE)
    have io: "keeps_snapshot (env_io env)" "storable_records (records (co_engine c'))"
      using step a by (auto simp: durable_step_def)
    have "durable i r (c\<lparr>co_queue := rest\<rparr>)" using d by (simp add: durable_def)
    moreover have "engine_follows (co_engine (c\<lparr>co_queue := rest\<rparr>)) (co_engine c')"
      using decide_inbound_acts [OF dec] by simp
    ultimately show ?thesis
      using durable_follows wf decide_inbound_saves [OF dec] io by simp
  qed
qed

lemma durable_started:
  assumes d: "durable i r c" and snap: "snapshot_at fs p eng" "p \<noteq> []" "find_record eng i = Some r"
  shows "durable i r (coordinator_start (Coordinator Read_succeeds p e0 fs))"
  using restart_restores [OF snap(1,2), of e0] snap d by (auto simp: durable_def coordinator_start_def)

lemma durable_restart:
  assumes d: "durable i r c" and step: "durable_step c (Restart ro e0) c'"
  shows "durable i r c'"
proof -
  obtain st eng where st: "co_store c = Some st" "path st \<noteq> []" "snapshot_at (co_fs c) (path st) eng" "find_record eng i = Some r"
    using d by (auto simp: durable_def)
  then have "c' = coordinator_start (Coordinator Read_succeeds (path st) e0 (co_fs c))"
    using step by (auto simp: durable_step_def elim: system_restartE)
  then show ?thesis using durable_started [OF d st(3,2,4)] by simp
qed

lemma durable_death:
  assumes d: "durable i r c" and step: "durable_step c (Death_in_save env fs ro e0) c'"
  shows "durable i r c'"
proof -
  obtain st eng where st: "co_store c = Some st" "path st \<noteq> []" "snapshot_at (co_fs c) (path st) eng" "find_record eng i = Some r"
    and r: "engine_wf (co_engine c)" "find_record (co_engine c) i = Some r" "ExecutionStateMachine_is_terminal (state r)"
    using d by (auto simp: durable_def)
  obtain c1 where c1: "coordinator_step c (Decide env) c1" "fs \<in> save_states (env_io env) (records (co_engine c1)) (co_epoch c) st (co_fs c)"
      "storable_records (records (co_engine c1))" "fs (path st) \<noteq> None" "flushed (env_io env)"
      and c': "c' = coordinator_start (Coordinator Read_succeeds (path st) e0 fs)"
    using step st(1) by (auto simp: durable_step_def elim: system_deathE)
  obtain inb rest where "decide_inbound env inb (c\<lparr>co_queue := rest\<rparr>) = Inr c1" using c1(1) by (auto elim: decideE)
  then have "engine_follows (co_engine c) (co_engine c1)" using decide_inbound_acts by fastforce
  then have r1: "find_record (co_engine c1) i = Some r" by (rule terminal_follows [OF r(1) _ r(2,3)])
  have wf1: "engine_wf (co_engine c1)" using coordinator_runs.inv_step [OF _ c1(1)] r(1) by simp
  from save_state_target [OF c1(2,5)] c1(4)
  consider "fs (path st) = co_fs c (path st)" | "fs (path st) = Some (snapshot_bytes (records (co_engine c1)) (co_epoch c))" by blast
  then show ?thesis
  proof cases
    case 1
    then have "snapshot_at fs (path st) eng" using st(3) by (simp add: snapshot_at_def)
    from durable_started [OF d this st(2,4)] show ?thesis by (simp add: c')
  next
    case 2
    then have "snapshot_at fs (path st) (co_engine c1)" using c1(3) wf1 by (auto simp: snapshot_at_def)
    from durable_started [OF d this st(2) r1] show ?thesis by (simp add: c')
  qed
qed

interpretation durable_runs: step_invariant durable_step "durable i r" for i r
proof
  fix c a c'
  assume "durable i r c" "durable_step c a c'"
  then show "durable i r c'" using durable_thread durable_restart durable_death by (cases a) blast+
qed

text \<open>An allowed completion that could be saved makes its record durable.\<close>

definition io_success :: io_outcome where
  "io_success = \<lparr>io_write = Write_succeeds, io_remove_error = False, io_rename_error = False\<rparr>"

lemma save_succeeds:
  "\<exists>fs'. save io_success rs ep st fs = (True, st\<lparr>last_error := []\<rparr>, fs') \<and> fs' (path st) = Some (snapshot_bytes rs ep)"
  by (simp add: io_success_def save_eval)

lemma completion_durable:
  assumes wf: "engine_wf (co_engine c)" and st: "co_store c = Some st" "path st \<noteq> []"
    and ok: "code (fst (complete (co_engine c) (with_digest (env_junk env) cp) (env_now env))) = ALLOW"
    and storable: "storable_records (records (co_engine (handle_complete env conn cp c)))"
    and io: "env_io env = io_success"
  obtains r where "durable (ct_execution_id (completion_ticket cp)) r (handle_complete env conn cp c)"
    "state r = COMMITTED" "committed_digest r = Some (ct_result_digest (with_digest (env_junk env) cp))"
proof -
  let ?t = "with_digest (env_junk env) cp"
  let ?c = "handle_complete env conn cp c"
  have eng: "co_engine ?c = snd (complete (co_engine c) ?t (env_now env))" by (rule engine_handlers(5))
  have wf': "engine_wf (co_engine ?c)"
    unfolding eng by (rule engine_runs.inv_step [OF wf, of "Complete ?t (env_now env)"])
      (auto simp: engine_step_def intro: prod.collapse [symmetric])
  obtain fs' where sv: "save io_success (records (co_engine ?c)) (co_epoch c) st (co_fs c) = (True, st\<lparr>last_error := []\<rparr>, fs')"
    "fs' (path st) = Some (snapshot_bytes (records (co_engine ?c)) (co_epoch c))"
    using save_succeeds by blast
  then have "co_store ?c = Some (st\<lparr>last_error := []\<rparr>)" "co_fs ?c = fs'"
    using ok st(1) io unfolding eng by (simp_all add: handle_complete_def Let_def split_beta persist_def)
  then have snap: "co_store ?c = Some (st\<lparr>last_error := []\<rparr>)" "snapshot_at (co_fs ?c) (path st) (co_engine ?c)"
    using sv(2) storable wf' by (auto simp: snapshot_at_def)
  obtain r where r: "co_engine ?c = store_record (ct_execution_id ?t) r (co_engine c)" "state r = COMMITTED"
      "committed_digest r = Some (ct_result_digest ?t)"
    unfolding eng by (rule complete_allow_record [OF ok]) simp
  have "ct_execution_id ?t = ct_execution_id (completion_ticket cp)" by (simp add: with_digest_def Let_def)
  then have "find_record (co_engine ?c) (ct_execution_id (completion_ticket cp)) = Some r" using r(1) by simp
  moreover have "ExecutionStateMachine_is_terminal (state r)" using r(2) by (simp add: is_terminal_iff)
  ultimately have "durable (ct_execution_id (completion_ticket cp)) r ?c"
    using wf' snap st(2) by (auto simp: durable_def)
  then show thesis using that r(2,3) by blast
qed

end
