(* ===== verification/Transport.thy ===== *)
theory Transport
  imports Frames
begin

text \<open>
  \<^verbatim>\<open>protocol/transport.cpp\<close>: sending and receiving whole frames over a stream socket. The socket is
  what the system calls will do: each \<^verbatim>\<open>recv\<close> takes the next element of \<open>incoming\<close>, each
  \<^verbatim>\<open>send\<close> the next element of \<open>send_results\<close>. A call for which there is no element blocks
  forever, and the loop around it then does not return: \<open>None\<close>.

  The lemmas show that the loops return as soon as the peer's bytes have arrived, in whatever chunks,
  and that exactly one frame is taken off the stream.
\<close>

section \<open>The socket\<close>

text \<open>\<open>Received []\<close> is the return value 0 of \<^verbatim>\<open>recv\<close>: the peer has closed the connection.\<close>

datatype recv_event = Received "u8 list" | Recv_would_block | Recv_error

datatype send_event = Sent nat | Send_would_block | Send_error

record tcp_connection =
  fd_open :: bool
  incoming :: "recv_event list"
  send_results :: "send_event list"
  sent :: "u8 list"

text \<open>\<^verbatim>\<open>TcpConnection::close\<close>\<close>

definition tcp_close :: "tcp_connection \<Rightarrow> tcp_connection" where
  "tcp_close c = c\<lparr>fd_open := False\<rparr>"

section \<open>Exact transfers\<close>

text \<open>
  The loop of \<^verbatim>\<open>send_all\<close>: the data still to be sent, the results of the calls and the bytes sent
  so far. The result says whether all was sent; \<^verbatim>\<open>send\<close> takes at most what it is offered.
\<close>

fun send_loop :: "u8 list \<Rightarrow> send_event list \<Rightarrow> u8 list \<Rightarrow> (bool \<times> send_event list \<times> u8 list) option" where
  "send_loop [] evs out = Some (True, evs, out)"
| "send_loop data [] out = None"
| "send_loop data (Send_would_block # evs) out = send_loop data evs out"
| "send_loop data (Send_error # evs) out = Some (False, evs, out)"
| "send_loop data (Sent k # evs) out =
     (if k = 0 then Some (False, evs, out) else send_loop (drop k data) evs (out @ take k data))"

definition send_all :: "u8 list \<Rightarrow> tcp_connection \<Rightarrow> (bool \<times> tcp_connection) option" where
  "send_all data c =
     (if \<not> fd_open c then Some (False, c)
      else case send_loop data (send_results c) (sent c) of
        None \<Rightarrow> None
      | Some (ok, evs, out) \<Rightarrow> Some (ok, c\<lparr>send_results := evs, sent := out\<rparr>))"

text \<open>The loop of \<^verbatim>\<open>recv_exact\<close> for \<open>n\<close> bytes, \<open>acc\<close> already received.\<close>

function recv_loop :: "nat \<Rightarrow> u8 list \<Rightarrow> recv_event list \<Rightarrow> (u8 list option \<times> recv_event list) option" where
  "recv_loop n acc evs =
     (if \<not> length acc < n then Some (Some acc, evs)
      else case evs of
        [] \<Rightarrow> None
      | Recv_would_block # evs \<Rightarrow> recv_loop n acc evs
      | Recv_error # evs \<Rightarrow> Some (None, evs)
      | Received bs # evs \<Rightarrow>
          (if bs = [] then Some (None, evs)
           else let k = n - length acc in
             recv_loop n (acc @ take k bs) (if length bs \<le> k then evs else Received (drop k bs) # evs)))"
  by pat_completeness auto
termination
  by (relation "measure (\<lambda>(n, acc, evs). length evs + (n - length acc))") auto

declare recv_loop.simps [simp del]

lemma recv_loop_step:
  "\<not> length acc < n \<Longrightarrow> recv_loop n acc evs = Some (Some acc, evs)"
  "length acc < n \<Longrightarrow> recv_loop n acc (Recv_would_block # evs) = recv_loop n acc evs"
  "length acc < n \<Longrightarrow> bs \<noteq> [] \<Longrightarrow> recv_loop n acc (Received bs # evs) =
     recv_loop n (acc @ take (n - length acc) bs)
       (if length bs \<le> n - length acc then evs else Received (drop (n - length acc) bs) # evs)"
  by (subst recv_loop.simps, simp add: Let_def)+

definition recv_exact :: "nat \<Rightarrow> tcp_connection \<Rightarrow> (u8 list option \<times> tcp_connection) option" where
  "recv_exact n c =
     (if \<not> fd_open c then Some (None, c)
      else map_option (\<lambda>(r, evs). (r, c\<lparr>incoming := evs\<rparr>)) (recv_loop n [] (incoming c)))"

section \<open>Frames over the socket\<close>

text \<open>Whenever a transfer fails the code has set its \<^verbatim>\<open>closed\<close> flag.\<close>

definition send_frame :: "MsgType \<Rightarrow> u8 list \<Rightarrow> tcp_connection \<Rightarrow> ((string + unit) \<times> tcp_connection) option" where
  "send_frame type payload c =
     (case send_all (encode_frame type payload) c of
        None \<Rightarrow> None
      | Some (ok, c) \<Rightarrow> Some (if ok then Inr () else Inl ''connection closed while sending'', c))"

text \<open>The header checks made before the payload is read.\<close>

definition recv_header :: "u8 list \<Rightarrow> string + nat" where
  "recv_header hdr =
     rd get_u32 ''malformed frame header'' (\<lambda>magic. rd get_u8 ''malformed frame header'' (\<lambda>ver.
     rd get_u8 ''malformed frame header'' (\<lambda>ty. rd get_u32 ''malformed frame header'' (\<lambda>len.
     rd get_u64 ''malformed frame header'' (\<lambda>crc _.
       if magic \<noteq> kFrameMagic then Inl ''bad frame magic''
       else if ver \<noteq> kFrameVersion then Inl ''bad frame version''
       else if unat len > kMaxPayload then Inl ''frame payload exceeds limit''
       else Inr (unat len)))))) (ByteReader hdr)"

definition recv_frame :: "tcp_connection \<Rightarrow> ((string + DecodedFrame) \<times> tcp_connection) option" where
  "recv_frame c =
     (case recv_exact kFrameHeaderLen c of
        None \<Rightarrow> None
      | Some (None, c) \<Rightarrow> Some (Inl ''connection closed while receiving header'', c)
      | Some (Some hdr, c) \<Rightarrow>
          (case recv_header hdr of
             Inl err \<Rightarrow> Some (Inl err, c)
           | Inr len \<Rightarrow>
               (case (if len > 0 then recv_exact len c else Some (Some [], c)) of
                  None \<Rightarrow> None
                | Some (None, c) \<Rightarrow> Some (Inl ''connection closed while receiving payload'', c)
                | Some (Some payload, c) \<Rightarrow>
                    (case decode_frame (hdr @ payload) of
                       Inl derr \<Rightarrow> Some (Inl derr, c)
                     | Inr (frame, consumed) \<Rightarrow> Some (Inr frame, c)))))"

section \<open>Sending\<close>

text \<open>What reached the wire is a prefix of the data, and all of it exactly when the call succeeds.\<close>

lemma send_loop_result:
  "send_loop data evs out = Some (ok, evs', out') \<Longrightarrow>
   \<exists>k \<le> length data. out' = out @ take k data \<and> (ok \<longleftrightarrow> k = length data \<or> data = []) \<and> (\<not> ok \<longrightarrow> k < length data)"
proof (induction data evs out rule: send_loop.induct)
  case (5 d ds k evs out)
  let ?data = "d # ds"
  show ?case
  proof (cases "k = 0")
    case False
    then obtain j where j: "j \<le> length (drop k ?data)" "out' = (out @ take k ?data) @ take j (drop k ?data)"
        "ok \<longleftrightarrow> j = length (drop k ?data) \<or> drop k ?data = []" "\<not> ok \<longrightarrow> j < length (drop k ?data)"
      using 5 by auto
    show ?thesis
    proof (cases "k \<le> length ?data")
      case True
      then show ?thesis using j by (intro exI [of _ "k + j"]) (auto simp: take_add simp del: take_Suc_Cons)
    next
      case long: False
      then show ?thesis using j by (intro exI [of _ "length ?data"]) auto
    qed
  qed (use 5 in auto)
qed auto

text \<open>
  A socket whose calls neither fail nor report a closed connection, and the number of calls that will
  take bytes: each of them takes at least one.
\<close>

definition send_clean :: "send_event list \<Rightarrow> bool" where
  "send_clean evs \<longleftrightarrow> list_all (\<lambda>ev. ev \<noteq> Send_error \<and> ev \<noteq> Sent 0) evs"

definition send_calls :: "send_event list \<Rightarrow> nat" where
  "send_calls evs = length (filter (\<lambda>ev. case ev of Sent _ \<Rightarrow> True | _ \<Rightarrow> False) evs)"

lemma send_simps [simp]:
  "send_clean []" "send_clean (ev # evs) \<longleftrightarrow> ev \<noteq> Send_error \<and> ev \<noteq> Sent 0 \<and> send_clean evs"
  "send_calls [] = 0" "send_calls (Sent k # evs) = Suc (send_calls evs)" "send_calls (Send_would_block # evs) = send_calls evs"
  by (simp_all add: send_clean_def send_calls_def)

text \<open>Such a socket takes all data, however little each call takes.\<close>

lemma send_loop_returns:
  assumes "send_clean evs" "length data \<le> send_calls evs"
  shows "\<exists>evs'. send_loop data evs out = Some (True, evs', out @ data) \<and> send_clean evs' \<and>
    send_calls evs \<le> length data + send_calls evs'"
  using assms
proof (induction data evs out rule: send_loop.induct)
  case (5 d ds k evs out)
  let ?data = "d # ds"
  have k: "k \<noteq> 0" "send_clean evs" using 5(2) by simp_all
  moreover have "length (drop k ?data) \<le> send_calls evs" using 5(3) k(1) by simp
  ultimately obtain evs' where "send_loop (drop k ?data) evs (out @ take k ?data) = Some (True, evs', (out @ take k ?data) @ drop k ?data)"
      "send_clean evs'" "send_calls evs \<le> length (drop k ?data) + send_calls evs'"
    using 5(1) by blast
  then show ?case using k(1) by auto
qed auto

lemma send_frame_returns:
  assumes "fd_open c" "send_clean (send_results c)" "length (encode_frame ty p) \<le> send_calls (send_results c)"
  shows "\<exists>evs. send_frame ty p c = Some (Inr (), c\<lparr>send_results := evs, sent := sent c @ encode_frame ty p\<rparr>) \<and>
    send_clean evs \<and> send_calls (send_results c) \<le> length (encode_frame ty p) + send_calls evs"
  using send_loop_returns [OF assms(2,3), of "sent c"] assms(1) by (auto simp: send_frame_def send_all_def)

section \<open>Receiving\<close>

text \<open>The bytes a stream will deliver, and a stream without error or close.\<close>

definition event_bytes :: "recv_event \<Rightarrow> u8 list" where
  "event_bytes ev = (case ev of Received bs \<Rightarrow> bs | _ \<Rightarrow> [])"

definition stream_bytes :: "recv_event list \<Rightarrow> u8 list" where
  "stream_bytes evs = concat (map event_bytes evs)"

definition stream_clean :: "recv_event list \<Rightarrow> bool" where
  "stream_clean evs \<longleftrightarrow> list_all (\<lambda>ev. ev \<noteq> Recv_error \<and> ev \<noteq> Received []) evs"

lemma stream_simps [simp]:
  "stream_bytes [] = []" "stream_bytes (Recv_would_block # evs) = stream_bytes evs"
  "stream_bytes (Recv_error # evs) = stream_bytes evs" "stream_bytes (Received bs # evs) = bs @ stream_bytes evs"
  "stream_clean []" "stream_clean (ev # evs) \<longleftrightarrow> ev \<noteq> Recv_error \<and> ev \<noteq> Received [] \<and> stream_clean evs"
  by (simp_all add: stream_bytes_def event_bytes_def stream_clean_def)

text \<open>The loop returns once enough bytes arrive, with exactly these bytes, in whatever chunks they come.\<close>

lemma recv_loop_returns:
  assumes "stream_clean evs" "length acc \<le> n" "n \<le> length acc + length (stream_bytes evs)"
  shows "\<exists>evs'. recv_loop n acc evs = Some (Some (acc @ take (n - length acc) (stream_bytes evs)), evs') \<and>
    stream_clean evs' \<and> stream_bytes evs' = drop (n - length acc) (stream_bytes evs)"
  using assms
proof (induction n acc evs rule: recv_loop.induct)
  case (1 n acc evs)
  show ?case
  proof (cases "length acc < n")
    case False
    then show ?thesis using 1(3-5) by (simp add: recv_loop_step)
  next
    case True
    then obtain ev evs1 where evs: "evs = ev # evs1" using 1(5) by (cases evs) auto
    show ?thesis
    proof (cases ev)
      case Recv_would_block
      then have "recv_loop n acc evs = recv_loop n acc evs1"
        using True evs by (simp add: recv_loop_step)
      then show ?thesis using 1(2) [OF _ evs Recv_would_block] 1(3-5) True evs Recv_would_block by auto
    next
      case Recv_error
      then show ?thesis using 1(3) evs by simp
    next
      case (Received bs)
      let ?k = "n - length acc"
      let ?evs = "if length bs \<le> ?k then evs1 else Received (drop ?k bs) # evs1"
      have b: "bs \<noteq> []" "stream_clean evs1" using 1(3) evs Received by simp_all
      then have c: "stream_clean ?evs" "stream_bytes ?evs = drop ?k bs @ stream_bytes evs1"
        by auto
      have "\<exists>evs'. recv_loop n (acc @ take ?k bs) ?evs =
          Some (Some ((acc @ take ?k bs) @ take (n - length (acc @ take ?k bs)) (stream_bytes ?evs)), evs') \<and>
          stream_clean evs' \<and> stream_bytes evs' = drop (n - length (acc @ take ?k bs)) (stream_bytes ?evs)"
        using 1(1) [OF _ evs Received b(1) refl] True c 1(5) evs Received by auto
      moreover have "recv_loop n acc evs = recv_loop n (acc @ take ?k bs) ?evs"
        unfolding evs Received by (rule recv_loop_step(3) [OF True b(1)])
      ultimately show ?thesis using c evs Received by (cases "length bs \<le> ?k") auto
    qed
  qed
qed

lemma recv_exact_returns:
  assumes "fd_open c" "stream_clean (incoming c)" "stream_bytes (incoming c) = bs @ later" "length bs = n"
  shows "\<exists>evs. recv_exact n c = Some (Some bs, c\<lparr>incoming := evs\<rparr>) \<and> stream_clean evs \<and> stream_bytes evs = later"
  using recv_loop_returns [OF assms(2), of "[]" n] assms by (auto simp: recv_exact_def)

lemma recv_header_put:
  "recv_header (put_u32 m @ put_u8 v @ put_u8 ty @ put_u32 len @ put_u64 crc) =
     (if m \<noteq> kFrameMagic then Inl ''bad frame magic''
      else if v \<noteq> kFrameVersion then Inl ''bad frame version''
      else if unat len > kMaxPayload then Inl ''frame payload exceeds limit'' else Inr (unat len))"
  by (simp add: recv_header_def codec_rt u64_codec.rd_put [where rest = "[]", simplified] cong: rd_cong)

lemma recv_frame_returns:
  assumes c: "fd_open c" "stream_clean (incoming c)" and p: "length p \<le> kMaxPayload"
    and bytes: "stream_bytes (incoming c) = encode_frame t p @ later"
  shows "\<exists>evs. recv_frame c = Some (Inr \<lparr>frame_type = t, frame_payload = p\<rparr>, c\<lparr>incoming := evs\<rparr>) \<and>
    stream_clean evs \<and> stream_bytes evs = later"
proof -
  let ?hdr = "put_u32 kFrameMagic @ put_u8 kFrameVersion @ put_u8 (MsgType_value t) @ put_u32 (word_of_nat (length p))
      @ put_u64 (crc64 p)"
  have split: "encode_frame t p = ?hdr @ p" by (simp add: encode_frame_def)
  have "length ?hdr = kFrameHeaderLen" by (simp add: kFrameHeaderLen_def)
  from recv_exact_returns [OF c _ this, of "p @ later"] bytes split
  obtain e1 where e1: "recv_exact kFrameHeaderLen c = Some (Some ?hdr, c\<lparr>incoming := e1\<rparr>)"
      "stream_clean e1" "stream_bytes e1 = p @ later"
    by auto
  have h: "recv_header ?hdr = Inr (length p)" using p by (simp add: recv_header_put unat_payload_length)
  obtain e2 where e2: "(if length p > 0 then recv_exact (length p) (c\<lparr>incoming := e1\<rparr>) else Some (Some [], c\<lparr>incoming := e1\<rparr>))
      = Some (Some p, c\<lparr>incoming := e2\<rparr>)" "stream_clean e2" "stream_bytes e2 = later"
    using recv_exact_returns [of "c\<lparr>incoming := e1\<rparr>" p later] c(1) e1 by (cases p) auto
  have "decode_frame (?hdr @ p) = Inr (\<lparr>frame_type = t, frame_payload = p\<rparr>, kFrameHeaderLen + length p)"
    using decode_encode_frame [OF p, of t "[]"] split by simp
  then have "recv_frame c = Some (Inr \<lparr>frame_type = t, frame_payload = p\<rparr>, c\<lparr>incoming := e2\<rparr>)"
    using e1(1) h e2(1) by (simp add: recv_frame_def)
  then show ?thesis using e2(2,3) by blast
qed

text \<open>A sequence of frames.\<close>

fun recv_frames :: "nat \<Rightarrow> tcp_connection \<Rightarrow> (DecodedFrame list \<times> tcp_connection) option" where
  "recv_frames 0 c = Some ([], c)"
| "recv_frames (Suc n) c =
     (case recv_frame c of
        Some (Inr f, c) \<Rightarrow> map_option (\<lambda>(fs, c). (f # fs, c)) (recv_frames n c)
      | _ \<Rightarrow> None)"

definition frame_bytes :: "DecodedFrame \<Rightarrow> u8 list" where
  "frame_bytes f = encode_frame (frame_type f) (frame_payload f)"

lemma recv_frames_in_order:
  assumes "fd_open c" "stream_clean (incoming c)" "list_all (\<lambda>f. length (frame_payload f) \<le> kMaxPayload) fs"
    and "stream_bytes (incoming c) = concat (map frame_bytes fs) @ later"
  shows "\<exists>evs. recv_frames (length fs) c = Some (fs, c\<lparr>incoming := evs\<rparr>) \<and> stream_clean evs \<and> stream_bytes evs = later"
  using assms
proof (induction fs arbitrary: c)
  case Nil
  then show ?case by (intro exI [of _ "incoming c"]) simp
next
  case (Cons f fs)
  obtain evs where r: "recv_frame c = Some (Inr f, c\<lparr>incoming := evs\<rparr>)" "stream_clean evs"
      "stream_bytes evs = concat (map frame_bytes fs) @ later"
    using recv_frame_returns [of c "frame_payload f" "frame_type f" "concat (map frame_bytes fs) @ later"] Cons.prems
      frame_bytes_def [of f] by auto
  then show ?case using Cons.IH [of "c\<lparr>incoming := evs\<rparr>"] Cons.prems by auto
qed

section \<open>Hostile peers\<close>

text \<open>Whatever the peer sends, a received frame is one the encoder can produce, within the size limit.\<close>

lemma recv_frame_bounded:
  assumes "recv_frame c = Some (Inr f, c')"
  shows "length (frame_payload f) \<le> kMaxPayload"
  using assms decode_frame_canonical by (auto simp: recv_frame_def split: option.splits prod.splits sum.splits)

text \<open>The loop never takes more off the stream than it was asked for, also when it fails.\<close>

lemma recv_loop_bounded:
  assumes "recv_loop n acc evs = Some (r, evs')" "length acc \<le> n"
  shows "\<exists>k \<le> n - length acc. stream_bytes evs' = drop k (stream_bytes evs) \<and>
    (\<forall>bs. r = Some bs \<longrightarrow> bs = acc @ take k (stream_bytes evs) \<and> length bs = n)"
  using assms
proof (induction n acc evs rule: recv_loop.induct)
  case (1 n acc evs)
  show ?case
  proof (cases "length acc < n")
    case False
    then show ?thesis using 1(3,4) by (auto simp: recv_loop_step)
  next
    case True
    show ?thesis
    proof (cases evs)
      case Nil
      then show ?thesis using 1(3) True by (simp add: recv_loop.simps)
    next
      case evs: (Cons ev evs1)
      show ?thesis
      proof (cases ev)
        case Recv_would_block
        then show ?thesis using 1(2) [OF _ evs Recv_would_block] 1(3,4) True evs by (auto simp: recv_loop_step)
      next
        case Recv_error
        then show ?thesis using 1(3) True evs by (subst (asm) recv_loop.simps) auto
      next
        case (Received bs)
        show ?thesis
        proof (cases "bs = []")
          case True
          then show ?thesis using 1(3) \<open>length acc < n\<close> evs Received by (subst (asm) recv_loop.simps) auto
        next
          case False
          let ?k = "n - length acc"
          let ?evs = "if length bs \<le> ?k then evs1 else Received (drop ?k bs) # evs1"
          have rest: "recv_loop n (acc @ take ?k bs) ?evs = Some (r, evs')"
            using 1(3) recv_loop_step(3) [OF True False, of evs1] evs Received by simp
          have le: "length (acc @ take ?k bs) \<le> n" using True by auto
          obtain k where k: "k \<le> n - length (acc @ take ?k bs)" "stream_bytes evs' = drop k (stream_bytes ?evs)"
              "\<And>x. r = Some x \<Longrightarrow> x = (acc @ take ?k bs) @ take k (stream_bytes ?evs) \<and> length x = n"
            using 1(1) [OF _ evs Received False refl rest le] True by blast
          show ?thesis
          proof (cases "length bs \<le> ?k")
            case short: True
            then show ?thesis using k evs Received True by (intro exI [of _ "length bs + k"]) auto
          next
            case long: False
            then show ?thesis using k evs Received True by (intro exI [of _ ?k]) auto
          qed
        qed
      qed
    qed
  qed
qed

lemma recv_exact_prefix:
  assumes "recv_exact n c = Some (Some bs, c')"
  shows "stream_bytes (incoming c) = bs @ stream_bytes (incoming c') \<and> length bs = n"
proof -
  obtain evs where r: "recv_loop n [] (incoming c) = Some (Some bs, evs)" "c' = c\<lparr>incoming := evs\<rparr>"
    using assms by (auto simp: recv_exact_def split: if_splits)
  obtain k where "stream_bytes evs = drop k (stream_bytes (incoming c))"
      "bs = take k (stream_bytes (incoming c))" "length bs = n"
    using recv_loop_bounded [OF r(1), simplified] by blast
  then show ?thesis using r(2) by simp
qed

text \<open>A received frame is exactly what was taken off the stream.\<close>

lemma recv_frame_takes:
  assumes "recv_frame c = Some (Inr f, c')"
  shows "stream_bytes (incoming c) = frame_bytes f @ stream_bytes (incoming c')"
proof -
  obtain hdr c1 where h: "recv_exact kFrameHeaderLen c = Some (Some hdr, c1)"
    using assms by (auto simp: recv_frame_def split: option.splits)
  obtain len where l: "recv_header hdr = Inr len"
    using assms h by (auto simp: recv_frame_def split: sum.splits)
  obtain p where p: "(if len > 0 then recv_exact len c1 else Some (Some [], c1)) = Some (Some p, c')"
    using assms h l by (auto simp: recv_frame_def split: option.splits sum.splits)
  obtain k where d: "decode_frame (hdr @ p) = Inr (f, k)"
    using assms h l p by (auto simp: recv_frame_def split: option.splits sum.splits prod.splits)
  have hp: "stream_bytes (incoming c) = hdr @ stream_bytes (incoming c1)" "length hdr = kFrameHeaderLen"
    using recv_exact_prefix [OF h] by simp_all
  have pp: "stream_bytes (incoming c1) = p @ stream_bytes (incoming c')" "length p = len"
    using p recv_exact_prefix by (auto split: if_splits)
  have can: "length (frame_payload f) \<le> kMaxPayload" "k = kFrameHeaderLen + length (frame_payload f)" "take k (hdr @ p) = frame_bytes f"
    using decode_frame_canonical [OF d] unfolding frame_bytes_def by blast+
  have "take kFrameHeaderLen (take k (hdr @ p)) = hdr" using hp(2) by (simp add: can(2))
  then have "hdr = put_u32 kFrameMagic @ put_u8 kFrameVersion @ put_u8 (MsgType_value (frame_type f))
      @ put_u32 (word_of_nat (length (frame_payload f))) @ put_u64 (crc64 (frame_payload f))"
    unfolding can(3) by (simp add: frame_bytes_def encode_frame_def kFrameHeaderLen_def)
  then have "len = length (frame_payload f)"
    using l can(1) by (simp add: recv_header_put unat_payload_length)
  then have "hdr @ p = frame_bytes f" using can(2,3) hp(2) pp(2) by simp
  then show ?thesis using hp(1) pp(1) by simp
qed

lemma recv_frame_shrinks:
  "recv_frame c = Some (Inr f, c') \<Longrightarrow> length (stream_bytes (incoming c')) < length (stream_bytes (incoming c))"
  using recv_frame_takes [of c f c'] by (simp add: frame_bytes_def kFrameHeaderLen_def)

end
