(* ===== verification/Worker.thy ===== *)
theory Worker
  imports Transport
begin

text \<open>
  \<^verbatim>\<open>worker/worker.cpp\<close>: the worker process. It introduces itself, waits for dispatches, runs the
  executor (or the synthetic work of the code) and reports start and completion with tickets derived
  from the dispatch. As in the transport, \<open>None\<close> is a call that blocks forever.
\<close>

record worker_runtime =
  wk_worker_id :: WorkerId
  wk_boot :: WorkerBootId
  wk_conn :: tcp_connection
  wk_connected :: bool
  wk_running :: bool
  wk_executor :: "(u32 \<Rightarrow> u32 \<Rightarrow> u8 list) option"

section \<open>Start\<close>

text \<open>The result of \<^verbatim>\<open>connect\<close>, an error text or the open connection, is an argument.\<close>

definition worker_hello :: "worker_runtime \<Rightarrow> HelloPayload" where
  "worker_hello w =
     \<lparr>hp_role = 1, hp_protocol_version = kFrameVersion, hp_worker_id = wk_worker_id w,
      hp_worker_boot_id = wk_boot w, hp_tag = ''EF-worker''\<rparr>"

definition worker_start ::
    "string + tcp_connection \<Rightarrow> worker_runtime \<Rightarrow> ((string + unit) \<times> worker_runtime) option" where
  "worker_start connect w =
     (case connect of
        Inl err \<Rightarrow> Some (Inl err, w)
      | Inr conn \<Rightarrow>
          (case send_frame HELLO (pack_hello (worker_hello w)) conn of
             None \<Rightarrow> None
           | Some (Inl err, conn) \<Rightarrow> Some (Inl err, w\<lparr>wk_conn := conn\<rparr>)
           | Some (Inr _, conn) \<Rightarrow>
               (case recv_frame conn of
                  None \<Rightarrow> None
                | Some (Inl err, conn) \<Rightarrow> Some (Inl err, w\<lparr>wk_conn := conn\<rparr>)
                | Some (Inr f, conn) \<Rightarrow>
                    let w = w\<lparr>wk_conn := conn\<rparr> in
                    (if frame_type f \<noteq> WELCOME
                     then Some (Inl (''expected WELCOME, got '' @ MsgType_to_string (frame_type f)), w)
                     else case unpack_welcome (frame_payload f) of
                       Inl uerr \<Rightarrow> Some (Inl (''bad welcome: '' @ uerr), w)
                     | Inr _ \<Rightarrow> Some (Inr (), w\<lparr>wk_connected := True\<rparr>)))))"

section \<open>One dispatch\<close>

definition synthetic_work :: "u32 \<Rightarrow> u8 list" where
  "synthetic_work seed = map (\<lambda>i. ucast (ucast seed + word_of_nat i :: u64)) [0..<4096]"

definition work_result :: "worker_runtime \<Rightarrow> WorkerDispatchPayload \<Rightarrow> u8 list" where
  "work_result w wdp =
     (case wk_executor w of
        Some exec \<Rightarrow> exec (work_bytes wdp) (work_seed wdp)
      | None \<Rightarrow> synthetic_work (work_seed wdp))"

definition start_report :: "WorkerDispatchPayload \<Rightarrow> StartPayload" where
  "start_report wdp = \<lparr>start_ticket = start_ticket_of (wd_ticket wdp)\<rparr>"

definition complete_report :: "u8 list \<Rightarrow> u8 list \<Rightarrow> WorkerDispatchPayload \<Rightarrow> CompletePayload" where
  "complete_report junk result wdp =
     \<lparr>completion_ticket = completion_ticket_of (wd_ticket wdp) (of_buffer junk result), result_bytes = result\<rparr>"

text \<open>Failures of the two sends are ignored.\<close>

definition on_worker_dispatch :: "u8 list \<Rightarrow> WorkerDispatchPayload \<Rightarrow> worker_runtime \<Rightarrow> worker_runtime option" where
  "on_worker_dispatch junk wdp w =
     (case send_frame START (pack_start (start_report wdp)) (wk_conn w) of
        None \<Rightarrow> None
      | Some (_, conn) \<Rightarrow>
          (case send_frame COMPLETE (pack_complete (complete_report junk (work_result w wdp) wdp)) conn of
             None \<Rightarrow> None
           | Some (_, conn) \<Rightarrow> Some (w\<lparr>wk_conn := conn\<rparr>)))"

section \<open>The receive loop\<close>

lemma send_frame_incoming:
  "send_frame ty p c = Some (r, c') \<Longrightarrow> incoming c' = incoming c \<and> fd_open c' = fd_open c"
  by (auto simp: send_frame_def send_all_def split: if_splits option.splits prod.splits)

lemma on_worker_dispatch_incoming:
  "on_worker_dispatch junk wdp w = Some w' \<Longrightarrow> incoming (wk_conn w') = incoming (wk_conn w)"
  by (auto simp: on_worker_dispatch_def dest!: send_frame_incoming split: option.splits prod.splits)

text \<open>
  \<^verbatim>\<open>run\<close>: the loop ends because every turn takes a frame off the bytes that will ever arrive.
\<close>

function worker_run :: "u8 list \<Rightarrow> worker_runtime \<Rightarrow> ((string + unit) \<times> worker_runtime) option" where
  "worker_run junk w =
     (if \<not> wk_running w then Some (Inr (), w)
      else case recv_frame (wk_conn w) of
        None \<Rightarrow> None
      | Some (Inl err, conn) \<Rightarrow> Some (Inl err, w\<lparr>wk_conn := conn\<rparr>)
      | Some (Inr f, conn) \<Rightarrow>
          (if frame_type f = WORKER_DISPATCH
           then (case unpack_worker_dispatch (frame_payload f) of
                   Inl uerr \<Rightarrow> Some (Inl (''bad WORKER_DISPATCH: '' @ uerr), w\<lparr>wk_conn := conn\<rparr>)
                 | Inr wdp \<Rightarrow>
                     (case on_worker_dispatch junk wdp (w\<lparr>wk_conn := conn\<rparr>) of
                        None \<Rightarrow> None
                      | Some w' \<Rightarrow> worker_run junk w'))
           else if frame_type f = PING
           then (case send_frame PONG (frame_payload f) conn of
                   None \<Rightarrow> None
                 | Some (_, conn') \<Rightarrow> worker_run junk (w\<lparr>wk_conn := conn'\<rparr>))
           else if frame_type f = SHUTDOWN then Some (Inr (), w\<lparr>wk_conn := conn\<rparr>)
           else worker_run junk (w\<lparr>wk_conn := conn\<rparr>)))"
  by pat_completeness auto
termination
proof (relation "measure (\<lambda>(junk, w). length (stream_bytes (incoming (wk_conn w))))", goal_cases)
  case (2 junk w x2 x y b ba x2a)
  then have "recv_frame (wk_conn w) = Some (Inr b, y)" by simp
  then show ?case using recv_frame_shrinks on_worker_dispatch_incoming [OF 2(7)] by simp
next
  case (3 junk w x2 x y b x2a xa ya)
  then have "recv_frame (wk_conn w) = Some (Inr b, y)" "send_frame PONG (frame_payload b) y = Some (xa, ya)" by simp_all
  then show ?case using recv_frame_shrinks send_frame_incoming by fastforce
next
  case (4 junk w x2 x y b)
  then have "recv_frame (wk_conn w) = Some (Inr b, y)" by simp
  then show ?case using recv_frame_shrinks by simp
qed simp

declare worker_run.simps [simp del]

definition run_worker :: "u8 list \<Rightarrow> worker_runtime \<Rightarrow> ((string + unit) \<times> worker_runtime) option" where
  "run_worker junk w =
     (if \<not> wk_connected w then Some (Inl ''not connected'', w) else worker_run junk (w\<lparr>wk_running := True\<rparr>))"

section \<open>A worker's answers\<close>

text \<open>
  What the worker sends in answer to one frame: the two reports of a dispatch, the echo of a ping,
  nothing for acknowledgements and other messages.
\<close>

definition worker_answer :: "u8 list \<Rightarrow> worker_runtime \<Rightarrow> DecodedFrame \<Rightarrow> u8 list" where
  "worker_answer junk w f =
     (if frame_type f = WORKER_DISPATCH
      then (case unpack_worker_dispatch (frame_payload f) of
              Inl _ \<Rightarrow> []
            | Inr wdp \<Rightarrow> encode_frame START (pack_start (start_report wdp))
                         @ encode_frame COMPLETE (pack_complete (complete_report junk (work_result w wdp) wdp)))
      else if frame_type f = PING then encode_frame PONG (frame_payload f) else [])"

text \<open>Frames after which the worker goes on.\<close>

definition worker_accepts :: "DecodedFrame \<Rightarrow> bool" where
  "worker_accepts f \<longleftrightarrow>
     length (frame_payload f) \<le> kMaxPayload \<and> frame_type f \<noteq> SHUTDOWN \<and>
     (frame_type f = WORKER_DISPATCH \<longrightarrow> (case unpack_worker_dispatch (frame_payload f) of Inl _ \<Rightarrow> False | Inr _ \<Rightarrow> True))"

lemma work_result_conn [simp]: "work_result (w\<lparr>wk_conn := c\<rparr>) = work_result w"
  by (simp add: work_result_def fun_eq_iff)

lemma worker_answer_conn [simp]: "worker_answer junk (w\<lparr>wk_conn := c\<rparr>) = worker_answer junk w"
  by (auto simp: worker_answer_def fun_eq_iff split: sum.split)

lemma on_worker_dispatch_returns:
  assumes "fd_open (wk_conn w)" "send_clean (send_results (wk_conn w))"
    and ans: "worker_answer junk w f = encode_frame START (pack_start (start_report wdp))
       @ encode_frame COMPLETE (pack_complete (complete_report junk (work_result w wdp) wdp))"
    and "length (worker_answer junk w f) \<le> send_calls (send_results (wk_conn w))"
  shows "\<exists>evs. on_worker_dispatch junk wdp w =
      Some (w\<lparr>wk_conn := (wk_conn w)\<lparr>send_results := evs, sent := sent (wk_conn w) @ worker_answer junk w f\<rparr>\<rparr>) \<and>
    send_clean evs \<and> send_calls (send_results (wk_conn w)) \<le> length (worker_answer junk w f) + send_calls evs"
proof -
  let ?a = "encode_frame START (pack_start (start_report wdp))"
  let ?b = "encode_frame COMPLETE (pack_complete (complete_report junk (work_result w wdp) wdp))"
  have n: "length ?a + length ?b \<le> send_calls (send_results (wk_conn w))" using assms(4) unfolding ans by simp
  obtain e1 where e1: "send_frame START (pack_start (start_report wdp)) (wk_conn w) =
      Some (Inr (), (wk_conn w)\<lparr>send_results := e1, sent := sent (wk_conn w) @ ?a\<rparr>)" "send_clean e1"
      "send_calls (send_results (wk_conn w)) \<le> length ?a + send_calls e1"
    using send_frame_returns [OF assms(1,2), of START "pack_start (start_report wdp)"] n by auto
  let ?c = "(wk_conn w)\<lparr>send_results := e1, sent := sent (wk_conn w) @ ?a\<rparr>"
  obtain e2 where e2: "send_frame COMPLETE (pack_complete (complete_report junk (work_result w wdp) wdp)) ?c =
      Some (Inr (), ?c\<lparr>send_results := e2, sent := sent ?c @ ?b\<rparr>)" "send_clean e2"
      "send_calls e1 \<le> length ?b + send_calls e2"
    using send_frame_returns [of ?c COMPLETE "pack_complete (complete_report junk (work_result w wdp) wdp)"] assms(1) e1(2,3) n
    by auto
  show ?thesis unfolding ans using e1 e2 by (intro exI [of _ e2]) (simp add: on_worker_dispatch_def)
qed

text \<open>One turn of the loop on an accepted frame.\<close>

lemma worker_run_turn:
  assumes "wk_running w" "fd_open (wk_conn w)" "stream_clean (incoming (wk_conn w))" "send_clean (send_results (wk_conn w))"
    and bytes: "stream_bytes (incoming (wk_conn w)) = frame_bytes f @ later" and f: "worker_accepts f"
    and n: "length (worker_answer junk w f) \<le> send_calls (send_results (wk_conn w))"
  shows "\<exists>evs sevs.
    worker_run junk w = worker_run junk (w\<lparr>wk_conn := (wk_conn w)
        \<lparr>incoming := evs, send_results := sevs, sent := sent (wk_conn w) @ worker_answer junk w f\<rparr>\<rparr>) \<and>
    stream_clean evs \<and> stream_bytes evs = later \<and> send_clean sevs \<and>
    send_calls (send_results (wk_conn w)) \<le> length (worker_answer junk w f) + send_calls sevs"
proof -
  obtain evs where r: "recv_frame (wk_conn w) = Some (Inr f, (wk_conn w)\<lparr>incoming := evs\<rparr>)" "stream_clean evs" "stream_bytes evs = later"
    using recv_frame_returns [OF assms(2,3), of "frame_payload f" "frame_type f" later] f bytes
    by (auto simp: worker_accepts_def frame_bytes_def)
  let ?w = "w\<lparr>wk_conn := (wk_conn w)\<lparr>incoming := evs\<rparr>\<rparr>"
  consider (dispatch) "frame_type f = WORKER_DISPATCH" | (ping) "frame_type f = PING"
    | (other) "frame_type f \<noteq> WORKER_DISPATCH" "frame_type f \<noteq> PING"
    by blast
  then show ?thesis
  proof cases
    case dispatch
    then obtain wdp where u: "unpack_worker_dispatch (frame_payload f) = Inr wdp"
      using f by (auto simp: worker_accepts_def split: sum.splits)
    obtain sevs where "on_worker_dispatch junk wdp ?w =
        Some (?w\<lparr>wk_conn := (wk_conn ?w)\<lparr>send_results := sevs, sent := sent (wk_conn w) @ worker_answer junk w f\<rparr>\<rparr>)"
        "send_clean sevs" "send_calls (send_results (wk_conn w)) \<le> length (worker_answer junk w f) + send_calls sevs"
      using on_worker_dispatch_returns [of ?w junk f wdp] assms(2,4) n dispatch u
      by (auto simp: worker_answer_def work_result_def)
    then show ?thesis using assms(1) r dispatch u by (subst worker_run.simps) auto
  next
    case ping
    then have ans: "worker_answer junk w f = encode_frame PONG (frame_payload f)" by (simp add: worker_answer_def)
    let ?c = "(wk_conn w)\<lparr>incoming := evs\<rparr>"
    obtain sevs where "send_frame PONG (frame_payload f) ?c = Some (Inr (), ?c\<lparr>send_results := sevs, sent := sent ?c @ worker_answer junk w f\<rparr>)"
        "send_clean sevs" "send_calls (send_results (wk_conn w)) \<le> length (worker_answer junk w f) + send_calls sevs"
      using send_frame_returns [of ?c PONG "frame_payload f"] assms(2,4) n unfolding ans by auto
    then show ?thesis using assms(1) r ping by (subst worker_run.simps) auto
  next
    case other
    then have "worker_answer junk w f = []" by (simp add: worker_answer_def)
    then show ?thesis using assms(1,4) r other f
      by (subst worker_run.simps) (auto simp: worker_accepts_def intro!: exI [of _ evs] exI [of _ "send_results (wk_conn w)"])
  qed
qed

text \<open>A whole stream: the loop answers frame by frame and returns at the shutdown.\<close>

lemma worker_run_answers:
  assumes "wk_running w" "fd_open (wk_conn w)" "stream_clean (incoming (wk_conn w))" "send_clean (send_results (wk_conn w))"
    and "stream_bytes (incoming (wk_conn w)) = concat (map frame_bytes fs) @ encode_frame SHUTDOWN p @ later"
    and "list_all worker_accepts fs" "length p \<le> kMaxPayload"
    and "length (concat (map (worker_answer junk w) fs)) \<le> send_calls (send_results (wk_conn w))"
  shows "\<exists>w'. worker_run junk w = Some (Inr (), w') \<and>
    sent (wk_conn w') = sent (wk_conn w) @ concat (map (worker_answer junk w) fs) \<and> stream_bytes (incoming (wk_conn w')) = later"
  using assms
proof (induction fs arbitrary: w)
  case Nil
  then obtain evs where "recv_frame (wk_conn w) =
      Some (Inr \<lparr>frame_type = SHUTDOWN, frame_payload = p\<rparr>, (wk_conn w)\<lparr>incoming := evs\<rparr>)" "stream_bytes evs = later"
    using recv_frame_returns [of "wk_conn w" p SHUTDOWN later] by auto
  then show ?case using Nil(1) by (subst worker_run.simps) auto
next
  case (Cons f fs)
  have n: "length (worker_answer junk w f) \<le> send_calls (send_results (wk_conn w))" using Cons.prems(8) by simp
  obtain evs sevs where t: "worker_run junk w = worker_run junk (w\<lparr>wk_conn := (wk_conn w)
        \<lparr>incoming := evs, send_results := sevs, sent := sent (wk_conn w) @ worker_answer junk w f\<rparr>\<rparr>)"
      "stream_clean evs" "stream_bytes evs = concat (map frame_bytes fs) @ encode_frame SHUTDOWN p @ later" "send_clean sevs"
      "send_calls (send_results (wk_conn w)) \<le> length (worker_answer junk w f) + send_calls sevs"
    using worker_run_turn [OF Cons.prems(1-4) _ _ n] Cons.prems(5,6) by auto
  let ?w = "w\<lparr>wk_conn := (wk_conn w)\<lparr>incoming := evs, send_results := sevs, sent := sent (wk_conn w) @ worker_answer junk w f\<rparr>\<rparr>"
  have "\<exists>w'. worker_run junk ?w = Some (Inr (), w') \<and>
      sent (wk_conn w') = sent (wk_conn ?w) @ concat (map (worker_answer junk ?w) fs) \<and> stream_bytes (incoming (wk_conn w')) = later"
    using Cons.prems t(2-5) by (intro Cons.IH) auto
  then show ?case using t(1) by auto
qed

lemma run_worker_answers:
  assumes "wk_connected w" "fd_open (wk_conn w)" "stream_clean (incoming (wk_conn w))" "send_clean (send_results (wk_conn w))"
    and "stream_bytes (incoming (wk_conn w)) = concat (map frame_bytes fs) @ encode_frame SHUTDOWN p @ later"
    and "list_all worker_accepts fs" "length p \<le> kMaxPayload"
    and "length (concat (map (worker_answer junk w) fs)) \<le> send_calls (send_results (wk_conn w))"
  shows "\<exists>w'. run_worker junk w = Some (Inr (), w') \<and>
    sent (wk_conn w') = sent (wk_conn w) @ concat (map (worker_answer junk w) fs) \<and> stream_bytes (incoming (wk_conn w')) = later"
proof -
  have a: "worker_answer junk (w\<lparr>wk_running := True\<rparr>) = worker_answer junk w"
    by (auto simp: worker_answer_def work_result_def fun_eq_iff split: sum.split)
  show ?thesis
    using worker_run_answers [of "w\<lparr>wk_running := True\<rparr>" fs p later junk] assms by (simp add: run_worker_def a)
qed

end
