(* ===== verification/Sockets.thy ===== *)
theory Sockets
  imports Prelude
begin

text \<open>
  The rest of \<^verbatim>\<open>protocol/transport.cpp\<close>: addresses, opening, accepting, moving and closing of
  socket objects. The operating system is the set of open descriptors; what its calls return is
  an argument of the operations. Descriptors are the values of \<^verbatim>\<open>std::uintptr_t\<close>, with \<open>kInvalid\<close>
  for none.

  The lemmas show that descriptors neither leak nor are shared: at every moment the open ones are
  exactly those held by the live objects, each by one object.
\<close>

section \<open>Addresses\<close>

type_synonym fd = u64

definition kInvalid :: fd where
  "kInvalid = - 1"

record sockaddr =
  sin_port :: u16
  sin_addr :: u32

text \<open>
  \<^verbatim>\<open>inet_pton\<close> is an argument: \<open>None\<close> when the text is no dotted address, and then the field keeps the
  zero that \<^verbatim>\<open>memset\<close> has put there, since the code does not look at the result.
\<close>

definition make_address :: "(string \<Rightarrow> u32 option) \<Rightarrow> string \<Rightarrow> u16 \<Rightarrow> sockaddr" where
  "make_address inet_pton host port =
     \<lparr>sin_port = port,
      sin_addr = (if host = [] \<or> host = ''0.0.0.0'' then 0
                  else case inet_pton host of None \<Rightarrow> 0 | Some a \<Rightarrow> a)\<rparr>"

section \<open>Connections\<close>

text \<open>The object's descriptor and the open descriptors of the process.\<close>

type_synonym socket_state = "fd \<times> fd set"

text \<open>The code ignores the result of \<^verbatim>\<open>close\<close>; on Linux the descriptor is released even when it reports an error.\<close>

definition close_sock :: "fd \<Rightarrow> fd set \<Rightarrow> fd set" where
  "close_sock s os = os - {s}"

definition conn_close :: "socket_state \<Rightarrow> socket_state" where
  "conn_close = (\<lambda>(fd, os). if fd \<noteq> kInvalid then (kInvalid, close_sock fd os) else (fd, os))"

text \<open>\<^verbatim>\<open>connect\<close>: the results of \<^verbatim>\<open>socket\<close> and of the system call \<^verbatim>\<open>connect\<close>.\<close>

definition conn_connect :: "fd option \<Rightarrow> (sockaddr \<Rightarrow> bool) \<Rightarrow> sockaddr \<Rightarrow> socket_state \<Rightarrow> (string + unit) \<times> socket_state" where
  "conn_connect sock connects addr st =
     (let (fd, os) = conn_close st in
      case sock of
        None \<Rightarrow> (Inl ''socket() failed'', fd, os)
      | Some s \<Rightarrow>
          let os = insert s os in
          if \<not> connects addr then (Inl ''connect() failed'', fd, close_sock s os) else (Inr (), s, os))"

text \<open>The move assignment of two distinct objects: closes the target, then takes over the descriptor.\<close>

definition conn_move :: "fd \<Rightarrow> fd \<Rightarrow> fd set \<Rightarrow> fd \<times> fd \<times> fd set" where
  "conn_move to_fd from_fd os =
     (let (_, os) = conn_close (to_fd, os) in (from_fd, kInvalid, os))"

section \<open>Listeners\<close>

record listener =
  l_fd :: fd
  l_port :: u16

definition listener_close :: "listener \<times> fd set \<Rightarrow> listener \<times> fd set" where
  "listener_close = (\<lambda>(l, os). let (fd, os) = conn_close (l_fd l, os) in (l\<lparr>l_fd := fd\<rparr>, os))"

text \<open>\<^verbatim>\<open>listen\<close>: the results of \<^verbatim>\<open>socket\<close>, \<^verbatim>\<open>bind\<close>, \<^verbatim>\<open>listen\<close> and \<^verbatim>\<open>getsockname\<close>.\<close>

definition listener_listen ::
    "fd option \<Rightarrow> (sockaddr \<Rightarrow> bool) \<Rightarrow> bool \<Rightarrow> u16 option \<Rightarrow> sockaddr \<Rightarrow> listener \<times> fd set
     \<Rightarrow> (string + unit) \<times> listener \<times> fd set" where
  "listener_listen sock binds listens name addr st =
     (let (l, os) = listener_close st in
      case sock of
        None \<Rightarrow> (Inl ''socket() failed'', l, os)
      | Some s \<Rightarrow>
          let os = insert s os in
          if \<not> binds addr then (Inl ''bind() failed'', l, close_sock s os)
          else if \<not> listens then (Inl ''listen() failed'', l, close_sock s os)
          else let l = (case name of None \<Rightarrow> l | Some p \<Rightarrow> l\<lparr>l_port := p\<rparr>)
               in (Inr (), l\<lparr>l_fd := s\<rparr>, os))"

text \<open>\<^verbatim>\<open>accept\<close> into a connection object, which drops the connection it had.\<close>

definition listener_accept :: "fd option \<Rightarrow> listener \<Rightarrow> socket_state \<Rightarrow> (string + unit) \<times> socket_state" where
  "listener_accept accepted l st =
     (if l_fd l = kInvalid then (Inl ''listener not open'', st)
      else case accepted of
        None \<Rightarrow> (Inl ''accept() failed'', st)
      | Some c \<Rightarrow> let (fd, os) = conn_close (fst st, insert c (snd st)) in (Inr (), c, os))"

section \<open>Objects and descriptors\<close>

text \<open>A process with one listener and some connection objects, by number.\<close>

record socket_table =
  listening :: listener
  handles :: "nat \<Rightarrow> fd"
  open_fds :: "fd set"

datatype socket_action =
    Do_connect nat "fd option" bool sockaddr
  | Do_accept nat "fd option"
  | Do_close nat
  | Do_move nat nat
  | Do_listen "fd option" bool bool "u16 option" sockaddr
  | Do_close_listener

text \<open>
  What the system calls promise: a new descriptor is not negative, and not in use at the time of the
  call. \<^verbatim>\<open>connect\<close> and \<^verbatim>\<open>listen\<close> ask for it after they closed the old one, \<^verbatim>\<open>accept\<close> before.
\<close>

definition new_fd :: "fd option \<Rightarrow> fd set \<Rightarrow> bool" where
  "new_fd sock os \<longleftrightarrow> (case sock of None \<Rightarrow> True | Some s \<Rightarrow> s \<notin> os \<and> s \<noteq> kInvalid)"

inductive socket_step :: "socket_table \<Rightarrow> socket_action \<Rightarrow> socket_table \<Rightarrow> bool" where
  step_connect: "new_fd sock (snd (conn_close (handles t i, open_fds t))) \<Longrightarrow> conn_connect sock (\<lambda>_. ok) addr (handles t i, open_fds t) = (r, fd, os) \<Longrightarrow>
    socket_step t (Do_connect i sock ok addr) (t\<lparr>handles := (handles t)(i := fd), open_fds := os\<rparr>)"
| step_listener_accept: "new_fd acc (open_fds t) \<Longrightarrow> listener_accept acc (listening t) (handles t i, open_fds t) = (r, fd, os) \<Longrightarrow>
    socket_step t (Do_accept i acc) (t\<lparr>handles := (handles t)(i := fd), open_fds := os\<rparr>)"
| step_close: "conn_close (handles t i, open_fds t) = (fd, os) \<Longrightarrow>
    socket_step t (Do_close i) (t\<lparr>handles := (handles t)(i := fd), open_fds := os\<rparr>)"
| step_move: "i \<noteq> j \<Longrightarrow> conn_move (handles t i) (handles t j) (open_fds t) = (fdi, fdj, os) \<Longrightarrow>
    socket_step t (Do_move i j) (t\<lparr>handles := (handles t)(i := fdi, j := fdj), open_fds := os\<rparr>)"
| step_listen: "new_fd sock (snd (listener_close (listening t, open_fds t))) \<Longrightarrow>
    listener_listen sock (\<lambda>_. bok) lok name addr (listening t, open_fds t) = (r, l, os) \<Longrightarrow>
    socket_step t (Do_listen sock bok lok name addr) (t\<lparr>listening := l, open_fds := os\<rparr>)"
| step_close_listener: "listener_close (listening t, open_fds t) = (l, os) \<Longrightarrow>
    socket_step t Do_close_listener (t\<lparr>listening := l, open_fds := os\<rparr>)"

text \<open>The objects by kind, and the descriptor each holds.\<close>

definition holds :: "socket_table \<Rightarrow> nat option \<Rightarrow> fd" where
  "holds t x = (case x of None \<Rightarrow> l_fd (listening t) | Some i \<Rightarrow> handles t i)"

definition fds_owned :: "socket_table \<Rightarrow> bool" where
  "fds_owned t \<longleftrightarrow>
     (\<forall>s. s \<in> open_fds t \<longleftrightarrow> s \<noteq> kInvalid \<and> (\<exists>x. holds t x = s)) \<and>
     (\<forall>x y. holds t x = holds t y \<and> holds t x \<noteq> kInvalid \<longrightarrow> x = y)"

lemma holds_simps [simp]:
  "holds (t\<lparr>handles := h, open_fds := os\<rparr>) x = (case x of None \<Rightarrow> l_fd (listening t) | Some i \<Rightarrow> h i)"
  "holds (t\<lparr>listening := l, open_fds := os\<rparr>) x = (case x of None \<Rightarrow> l_fd l | Some i \<Rightarrow> handles t i)"
  by (simp_all add: holds_def split: option.split)

text \<open>Every operation replaces the descriptor of one object, closing the old one, or moves it.\<close>

definition fd_replaced :: "nat option \<Rightarrow> fd \<Rightarrow> socket_table \<Rightarrow> socket_table \<Rightarrow> bool" where
  "fd_replaced x s t t' \<longleftrightarrow>
     (\<forall>y. holds t' y = (if y = x then s else holds t y)) \<and>
     open_fds t' = open_fds t - {holds t x} \<union> (if s = kInvalid then {} else {s})"

lemma fd_replaced_owned:
  assumes "fds_owned t" "fd_replaced x s t t'" "s = kInvalid \<or> s \<notin> open_fds t - {holds t x}"
  shows "fds_owned t'"
  using assms unfolding fds_owned_def fd_replaced_def by (auto split: if_splits)

lemma fd_moved_owned:
  assumes "fds_owned t" "i \<noteq> j" "\<And>y. holds t' y = (if y = Some i then handles t j else if y = Some j then kInvalid else holds t y)"
    "open_fds t' = open_fds t - {handles t i}"
  shows "fds_owned t'"
proof -
  define g where "g y = (if y = Some i then Some j else y)" for y
  have own: "\<And>s. s \<in> open_fds t \<longleftrightarrow> s \<noteq> kInvalid \<and> (\<exists>x. holds t x = s)"
    and uniq: "\<And>x y. holds t x = holds t y \<Longrightarrow> holds t x \<noteq> kInvalid \<Longrightarrow> x = y"
    using assms(1) by (auto simp: fds_owned_def)
  have h: "holds t (Some k) = handles t k" for k by (simp add: holds_def)
  have t': "holds t' y = (if y = Some j then kInvalid else holds t (g y))" for y
    using assms(2) assms(3) [of y] h by (auto simp: g_def)
  have g: "g y \<noteq> Some i" "y \<noteq> Some j \<Longrightarrow> y' \<noteq> Some j \<Longrightarrow> g y = g y' \<Longrightarrow> y = y'" for y y'
    using assms(2) by (auto simp: g_def split: if_splits)
  have "s \<in> open_fds t' \<longleftrightarrow> s \<noteq> kInvalid \<and> (\<exists>x. holds t' x = s)" for s
  proof
    assume s: "s \<in> open_fds t'"
    then obtain x where x: "s \<noteq> kInvalid" "holds t x = s" "x \<noteq> Some i" using own assms(4) h by (metis DiffE singletonI)
    then have "holds t' (if x = Some j then Some i else x) = s" using assms(2) by (auto simp: t' g_def)
    then show "s \<noteq> kInvalid \<and> (\<exists>x. holds t' x = s)" using x(1) by blast
  next
    assume "s \<noteq> kInvalid \<and> (\<exists>x. holds t' x = s)"
    then obtain y where y: "s \<noteq> kInvalid" "holds t (g y) = s" by (auto simp: t' split: if_splits)
    then have "s \<noteq> handles t i" using uniq [of "g y" "Some i"] g(1) h by metis
    then show "s \<in> open_fds t'" using y own assms(4) by auto
  qed
  moreover have "x = y" if "holds t' x = holds t' y \<and> holds t' x \<noteq> kInvalid" for x y
    using that uniq [of "g x" "g y"] g(2) [of x y] by (auto simp: t' split: if_splits)
  ultimately show ?thesis by (auto simp: fds_owned_def)
qed

text \<open>The operations in these terms; an invalid descriptor is never open.\<close>

lemma not_open_invalid: "fds_owned t \<Longrightarrow> kInvalid \<notin> open_fds t"
  by (auto simp: fds_owned_def)

lemma conn_close_eq: "kInvalid \<notin> os \<Longrightarrow> conn_close (fd, os) = (kInvalid, os - {fd})"
  by (auto simp: conn_close_def close_sock_def)

lemma listener_close_eq: "kInvalid \<notin> os \<Longrightarrow> listener_close (l, os) = (l\<lparr>l_fd := kInvalid\<rparr>, os - {l_fd l})"
  by (simp add: listener_close_def conn_close_eq)

lemma conn_connect_replaces:
  assumes "conn_connect sock connects addr (fd, os) = (r, fd', os')" "new_fd sock (snd (conn_close (fd, os)))" "kInvalid \<notin> os"
  shows "os' = os - {fd} \<union> (if fd' = kInvalid then {} else {fd'})" "fd' = kInvalid \<or> fd' \<notin> os - {fd}"
  using assms by (auto simp: conn_connect_def conn_close_eq new_fd_def close_sock_def Let_def split: option.splits if_splits)

lemma listener_listen_replaces:
  assumes "listener_listen sock binds listens name addr (l, os) = (r, l', os')" "new_fd sock (snd (listener_close (l, os)))" "kInvalid \<notin> os"
  shows "os' = os - {l_fd l} \<union> (if l_fd l' = kInvalid then {} else {l_fd l'})" "l_fd l' = kInvalid \<or> l_fd l' \<notin> os - {l_fd l}"
  using assms by (auto simp: listener_listen_def listener_close_eq new_fd_def close_sock_def Let_def split: option.splits if_splits)

lemma listener_accept_replaces:
  assumes "listener_accept acc l (fd, os) = (r, fd', os')" "new_fd acc os" "kInvalid \<notin> os" "fd \<in> os \<or> fd = kInvalid"
  shows "os' = os - {fd} \<union> (if fd' = kInvalid then {} else {fd'})" "fd' = kInvalid \<or> fd' = fd \<or> fd' \<notin> os"
  using assms by (auto simp: listener_accept_def conn_close_def new_fd_def close_sock_def split: option.splits if_splits)

interpretation socket_objects: step_invariant socket_step fds_owned
proof
  fix t a t'
  assume own: "fds_owned t" and step: "socket_step t a t'"
  have inv: "kInvalid \<notin> open_fds t" by (rule not_open_invalid [OF own])
  have held: "handles t i \<in> open_fds t \<or> handles t i = kInvalid" for i
  proof -
    have "holds t (Some i) = handles t i" by (simp add: holds_def)
    then show ?thesis using own by (auto simp: fds_owned_def)
  qed
  from step show "fds_owned t'"
  proof cases
    case (step_connect sock i ok addr r fd os)
    note c = conn_connect_replaces [OF step_connect(4,3) inv]
    have "fd_replaced (Some i) fd t t'" using c(1) step_connect(2) by (auto simp: fd_replaced_def holds_def split: option.split)
    then show ?thesis using fd_replaced_owned [OF own] c(2) by (auto simp: holds_def)
  next
    case (step_listener_accept acc i r fd os)
    note c = listener_accept_replaces [OF step_listener_accept(4,3) inv held]
    have "fd_replaced (Some i) fd t t'" using c(1) step_listener_accept(2) by (auto simp: fd_replaced_def holds_def split: option.split)
    then show ?thesis using fd_replaced_owned [OF own] c(2) by (auto simp: holds_def)
  next
    case (step_close i fd os)
    then have "fd_replaced (Some i) kInvalid t t'"
      using inv by (auto simp: fd_replaced_def holds_def conn_close_eq split: option.split)
    then show ?thesis using fd_replaced_owned [OF own] by auto
  next
    case (step_move i j fdi fdj os)
    then show ?thesis using inv
      by (intro fd_moved_owned [OF own, of i j]) (auto simp: conn_move_def conn_close_eq holds_def split: option.split)
  next
    case (step_listen sock bok lok name addr r l os)
    note c = listener_listen_replaces [OF step_listen(4,3) inv]
    have "fd_replaced None (l_fd l) t t'" using c(1) step_listen(2) by (auto simp: fd_replaced_def holds_def split: option.split)
    then show ?thesis using fd_replaced_owned [OF own] c(2) by (auto simp: holds_def)
  next
    case (step_close_listener l os)
    then have "fd_replaced None kInvalid t t'"
      using inv by (auto simp: fd_replaced_def holds_def listener_close_eq split: option.split)
    then show ?thesis using fd_replaced_owned [OF own] by auto
  qed
qed

end
