(* ===== verification/Programs.thy ===== *)
theory Programs
  imports Coordinator Worker Sockets
begin

text \<open>
  The programs around the components: \<^verbatim>\<open>coordinator/coordinator_main.cpp\<close>,
  \<^verbatim>\<open>worker/worker_main.cpp\<close> and \<^verbatim>\<open>tools/ef_inspect.cpp\<close>. A program is a function of its
  arguments (without the program name), of the file system and of what the system calls return, to
  its exit code and what it prints. Where a number in an argument makes the C library's behaviour
  undefined the result is \<open>None\<close>.
\<close>

section \<open>Numbers and flags on the command line\<close>

definition is_space :: "char \<Rightarrow> bool" where
  "is_space c \<longleftrightarrow> of_char c \<in> {9, 10, 11, 12, 13, 32 :: nat}"

definition is_digit :: "char \<Rightarrow> bool" where
  "is_digit c \<longleftrightarrow> (48 :: nat) \<le> of_char c \<and> of_char c \<le> (57 :: nat)"

definition digits_value :: "string \<Rightarrow> nat" where
  "digits_value s = foldl (\<lambda>n c. 10 * n + (of_char c - 48)) 0 (takeWhile is_digit s)"

text \<open>White space, a sign and digits, as \<^verbatim>\<open>strtol\<close> and \<^verbatim>\<open>strtoull\<close> read them: sign and magnitude.\<close>

definition c_number :: "string \<Rightarrow> bool \<times> nat" where
  "c_number s =
     (case dropWhile is_space s of
        [] \<Rightarrow> (False, 0)
      | c # cs \<Rightarrow>
          if c = CHR ''-'' then (True, digits_value cs)
          else if c = CHR ''+'' then (False, digits_value cs)
          else (False, digits_value (c # cs)))"

definition atoi :: "string \<Rightarrow> int option" where
  "atoi s =
     (let (neg, n) = c_number s; v = (if neg then - int n else int n)
      in if - (2 ^ 31) \<le> v \<and> v < 2 ^ 31 then Some v else None)"

definition strtoull :: "string \<Rightarrow> u64" where
  "strtoull s =
     (let (neg, n) = c_number s
      in if 2 ^ 64 \<le> n then - 1 else if neg then - word_of_nat n else word_of_nat n)"

text \<open>\<^verbatim>\<open>strncmp(arg, name, n) == 0\<close>, and the rest of the argument.\<close>

definition flag_value :: "string \<Rightarrow> string \<Rightarrow> string option" where
  "flag_value name arg = (if take (length name) arg = name then Some (drop (length name) arg) else None)"

section \<open>The coordinator program\<close>

record coordinator_options =
  co_host :: string
  co_port :: u16
  co_persist :: string
  co_start_epoch :: CoordinatorEpoch

definition coordinator_defaults :: coordinator_options where
  "coordinator_defaults = \<lparr>co_host = ''127.0.0.1'', co_port = 3000, co_persist = [], co_start_epoch = Gen 1\<rparr>"

definition coordinator_flag :: "string \<Rightarrow> coordinator_options \<Rightarrow> coordinator_options option" where
  "coordinator_flag arg opts =
     (case flag_value ''--host='' arg of
        Some v \<Rightarrow> Some (opts\<lparr>co_host := v\<rparr>)
      | None \<Rightarrow>
     (case flag_value ''--port='' arg of
        Some v \<Rightarrow> map_option (\<lambda>n. opts\<lparr>co_port := word_of_int n\<rparr>) (atoi v)
      | None \<Rightarrow>
     (case flag_value ''--persist='' arg of
        Some v \<Rightarrow> Some (opts\<lparr>co_persist := v\<rparr>)
      | None \<Rightarrow>
     (case flag_value ''--epoch='' arg of
        Some v \<Rightarrow> Some (opts\<lparr>co_start_epoch := Gen (strtoull v)\<rparr>)
      | None \<Rightarrow> Some opts))))"

primrec coordinator_flags :: "string list \<Rightarrow> coordinator_options \<Rightarrow> coordinator_options option" where
  "coordinator_flags [] opts = Some opts"
| "coordinator_flags (arg # args) opts = Option.bind (coordinator_flag arg opts) (coordinator_flags args)"

text \<open>
  \<^verbatim>\<open>main\<close> up to the wait loop: the exit code when it ends there, the text, and coordinator and listener.
  The line it prints shows the epoch of the command line, not the one recovered from the snapshot.
\<close>

definition newline :: string where
  "newline = [CHR 0x0A]"

definition coordinator_main ::
    "read_outcome \<Rightarrow> fd option \<Rightarrow> (sockaddr \<Rightarrow> bool) \<Rightarrow> bool \<Rightarrow> u16 option \<Rightarrow> (string \<Rightarrow> u32 option) \<Rightarrow> string list \<Rightarrow> fs
     \<Rightarrow> (int option \<times> string \<times> coordinator \<times> listener \<times> fd set) option" where
  "coordinator_main ro sock binds listens name inet_pton args fs =
     map_option (\<lambda>opts.
       let coord = Coordinator ro (co_persist opts) (co_start_epoch opts) fs;
           addr = make_address inet_pton (co_host opts) (co_port opts)
       in case listener_listen sock binds listens name addr (\<lparr>l_fd = kInvalid, l_port = 0\<rparr>, {}) of
            (Inl err, l, os) \<Rightarrow> (Some 1, ''coordinator: '' @ err @ newline, coord, l, os)
          | (Inr _, l, os) \<Rightarrow>
              (None,
               ''coordinator running on '' @ co_host opts @ '':'' @ std_to_string (ucast (l_port l))
               @ '' (epoch='' @ gen_to_string (co_start_epoch opts) @ '', persist=''
               @ (if co_persist opts = [] then ''(none)'' else co_persist opts) @ '')'' @ newline,
               coordinator_start coord, l, os))
       (coordinator_flags args coordinator_defaults)"

section \<open>The worker program\<close>

record worker_options =
  wo_host :: string
  wo_port :: u16
  wo_worker_id :: WorkerId
  wo_boot :: WorkerBootId
  wo_delay_ms :: u32

text \<open>The text before and after the last colon.\<close>

definition rfind_colon :: "string \<Rightarrow> (string \<times> string) option" where
  "rfind_colon s =
     (if CHR '':'' \<in> set s
      then Some (butlast (rev (dropWhile (\<lambda>c. c \<noteq> CHR '':'') (rev s))), rev (takeWhile (\<lambda>c. c \<noteq> CHR '':'') (rev s)))
      else None)"

text \<open>The identities are random unless given.\<close>

definition worker_defaults :: "draws \<Rightarrow> draws \<Rightarrow> worker_options" where
  "worker_defaults rw rb =
     \<lparr>wo_host = ''127.0.0.1'', wo_port = 3000, wo_worker_id = id_random rw, wo_boot = id_random rb, wo_delay_ms = 0\<rparr>"

definition worker_flag :: "string \<Rightarrow> worker_options \<Rightarrow> worker_options option" where
  "worker_flag arg opts =
     (case flag_value ''--coordinator='' arg of
        Some spec \<Rightarrow>
          (case rfind_colon spec of
             Some (host, port) \<Rightarrow> map_option (\<lambda>n. opts\<lparr>wo_host := host, wo_port := word_of_int n\<rparr>) (atoi port)
           | None \<Rightarrow> Some (opts\<lparr>wo_host := spec\<rparr>))
      | None \<Rightarrow>
     (case flag_value ''--worker-id='' arg of
        Some v \<Rightarrow> Some (case uuid_parse v of None \<Rightarrow> opts | Some u \<Rightarrow> opts\<lparr>wo_worker_id := Id u\<rparr>)
      | None \<Rightarrow>
     (case flag_value ''--boot-id='' arg of
        Some v \<Rightarrow> Some (case uuid_parse v of None \<Rightarrow> opts | Some u \<Rightarrow> opts\<lparr>wo_boot := Id u\<rparr>)
      | None \<Rightarrow>
     (case flag_value ''--delay-ms='' arg of
        Some v \<Rightarrow> map_option (\<lambda>n. opts\<lparr>wo_delay_ms := word_of_int n\<rparr>) (atoi v)
      | None \<Rightarrow> Some opts))))"

primrec worker_flags :: "string list \<Rightarrow> worker_options \<Rightarrow> worker_options option" where
  "worker_flags [] opts = Some opts"
| "worker_flags (arg # args) opts = Option.bind (worker_flag arg opts) (worker_flags args)"

text \<open>The executor the program installs; the delay has no effect on its result.\<close>

definition main_executor :: "u32 \<Rightarrow> u32 \<Rightarrow> u8 list" where
  "main_executor bytes seed = map (\<lambda>i. ucast (ucast seed + word_of_nat i * 31 :: u64)) [0..<unat bytes]"

definition worker_of_options :: "worker_options \<Rightarrow> tcp_connection \<Rightarrow> worker_runtime" where
  "worker_of_options opts conn =
     \<lparr>wk_worker_id = wo_worker_id opts, wk_boot = wo_boot opts, wk_conn = conn, wk_connected = False,
      wk_running = False, wk_executor = Some main_executor\<rparr>"

definition worker_error :: "worker_options \<Rightarrow> string \<Rightarrow> string" where
  "worker_error opts err = ''worker('' @ id_to_string (wo_worker_id opts) @ ''): '' @ err @ newline"

text \<open>\<open>None\<close> when a call blocks forever, as for the components it calls.\<close>

definition worker_program ::
    "u8 list \<Rightarrow> (string \<Rightarrow> u16 \<Rightarrow> string + tcp_connection) \<Rightarrow> tcp_connection \<Rightarrow> worker_options
     \<Rightarrow> (int \<times> string \<times> worker_runtime) option" where
  "worker_program junk connect idle opts =
     (case worker_start (connect (wo_host opts) (wo_port opts)) (worker_of_options opts idle) of
        None \<Rightarrow> None
      | Some (Inl err, w) \<Rightarrow> Some (1, worker_error opts err, w)
      | Some (Inr _, w) \<Rightarrow>
          let started = ''worker '' @ id_to_string (wo_worker_id opts) @ '' (boot '' @ id_to_string (wo_boot opts)
                @ '') connected to '' @ wo_host opts @ '':'' @ std_to_string (ucast (wo_port opts)) @ newline in
          (case run_worker junk w of
             None \<Rightarrow> None
           | Some (Inl err, w) \<Rightarrow> Some (1, started @ worker_error opts err, w)
           | Some (Inr _, w) \<Rightarrow> Some (0, started, w)))"

definition worker_main ::
    "u8 list \<Rightarrow> (string \<Rightarrow> u16 \<Rightarrow> string + tcp_connection) \<Rightarrow> tcp_connection \<Rightarrow> draws \<Rightarrow> draws \<Rightarrow> string list
     \<Rightarrow> (int \<times> string \<times> worker_runtime) option option" where
  "worker_main junk connect idle rw rb args =
     map_option (worker_program junk connect idle) (worker_flags args (worker_defaults rw rb))"

section \<open>The inspection tool\<close>

definition inspect_attempt :: "AttemptRecord \<Rightarrow> string" where
  "inspect_attempt a =
     ''    attempt '' @ id_to_string (at_id a) @ '' gen='' @ gen_to_string (at_generation a)
     @ '' state='' @ AttemptState_to_string (at_state a) @ '' worker='' @ id_to_string (at_worker_id a) @ newline"

definition inspect_record :: "ExecutionRecord \<Rightarrow> string" where
  "inspect_record r =
     ''Execution '' @ id_to_string (rec_id r) @ ''  gen='' @ gen_to_string (generation r)
     @ ''  state='' @ ExecutionState_to_string (state r) @ ''  epoch='' @ gen_to_string (coordinator_epoch r) @ newline
     @ ''  owns='' @ (case owner_worker r of None \<Rightarrow> ''<none>'' | Some w \<Rightarrow> id_to_string w)
     @ '' boot='' @ (case owner_worker_boot r of None \<Rightarrow> ''<none>'' | Some b \<Rightarrow> id_to_string b)
     @ ''  attempts='' @ decimal (length (attempts r))
     @ (case committed_digest r of None \<Rightarrow> [] | Some dg \<Rightarrow> ''  committed='' @ ResultDigest_to_hex dg) @ newline
     @ concat (map inspect_attempt (attempts r))"

definition ef_inspect :: "read_outcome \<Rightarrow> string list \<Rightarrow> fs \<Rightarrow> int \<times> string" where
  "ef_inspect ro args fs =
     (case args of
        [] \<Rightarrow> (1, ''usage: ef_inspect <persistence-file>'' @ newline)
      | p # _ \<Rightarrow>
          (case load ro (Gen 0) (FilePersistenceStore p) fs of
             (ok, recs, epoch, st) \<Rightarrow>
               if \<not> ok then (1, ''inspect failed: '' @ last_error st @ newline)
               else (0, ''Executor Fabric store: '' @ p @ newline
                      @ ''Coordinator epoch: '' @ gen_to_string epoch @ '', executions: '' @ decimal (length recs)
                      @ newline @ newline @ concat (map inspect_record recs))))"

section \<open>Reading back decimal numbers\<close>

lemma of_char_digit [simp]: "n < 10 \<Longrightarrow> of_char (char_of (48 + n) :: char) = (48 + n :: nat)"
  by simp

lemma is_digit_char [simp]: "n < 10 \<Longrightarrow> is_digit (char_of (48 + n :: nat))"
  by (simp add: is_digit_def)

lemma decimal_digits: "list_all is_digit (decimal n)"
proof (induction n rule: decimal.induct)
  case (1 n)
  then show ?case by (subst decimal.simps) auto
qed

lemma digits_value_decimal: "digits_value (decimal n) = n"
proof -
  have "takeWhile is_digit (decimal n) = decimal n"
    using decimal_digits [of n] by (auto simp: list_all_iff intro: takeWhile_eq_all_conv [THEN iffD2])
  then have "digits_value (decimal n) = foldl (\<lambda>n c. 10 * n + (of_char c - 48)) 0 (decimal n)"
    by (simp only: digits_value_def)
  moreover have "foldl (\<lambda>n c. 10 * n + (of_char c - 48)) 0 (decimal n) = n"
  proof (induction n rule: decimal.induct)
    case (1 n)
    then show ?case by (subst decimal.simps) auto
  qed
  ultimately show ?thesis by simp
qed

lemma decimal_first: "\<exists>c cs. decimal n = c # cs \<and> is_digit c"
  using decimal_digits [of n] by (cases "decimal n") (auto simp: decimal.simps [of n] split: if_splits)

lemma c_number_decimal: "c_number (decimal n) = (False, n)"
proof -
  obtain c cs where d: "decimal n = c # cs" "is_digit c" using decimal_first by blast
  then have "\<not> is_space c" "c \<noteq> CHR ''-''" "c \<noteq> CHR ''+''" by (auto simp: is_digit_def is_space_def)
  then show ?thesis using d digits_value_decimal [of n] by (simp add: c_number_def)
qed

lemma atoi_decimal: "n < 2 ^ 31 \<Longrightarrow> atoi (decimal n) = Some (int n)"
  by (simp add: atoi_def c_number_decimal)

lemma coordinator_flags_append:
  "coordinator_flags (args @ args') opts = Option.bind (coordinator_flags args opts) (coordinator_flags args')"
  by (induction args arbitrary: opts) (simp_all split: Option.bind_split)

text \<open>
  The last flag wins, and a port is taken modulo \<open>2 ^ 16\<close>: a number that is no port number selects
  another port without a complaint.
\<close>

lemma port_flag_wraps:
  assumes "coordinator_flags args coordinator_defaults = Some opts" "n < 2 ^ 31"
  shows "\<exists>opts'. coordinator_flags (args @ [''--port='' @ decimal n]) coordinator_defaults = Some opts' \<and>
    unat (co_port opts') = n mod 2 ^ 16 \<and> co_host opts' = co_host opts \<and> co_persist opts' = co_persist opts"
  using assms
  by (simp add: coordinator_flags_append coordinator_flag_def flag_value_def atoi_decimal unsigned_of_nat take_bit_eq_mod)

end
