(* ===== verification/Wire_Properties.thy ===== *)
theory Wire_Properties
  imports Worker
begin

text \<open>
  The properties of the value types, the digest, the message format and the transport, each with a
  worked instance.
\<close>

section \<open>Values\<close>

lemma unat_gen_next_power: "unat (gen_value ((gen_next ^^ n) g)) = min (unat (gen_value g) + n) (2 ^ 64 - 1)"
proof (induction n)
  case 0
  then show ?case using unat_u64_le [of "gen_value g"] by simp
next
  case (Suc n)
  then show ?case by (simp add: unat_gen_next min_def)
qed

text \<open>Generations saturate. Advancing a 64-bit generation by any amount never wraps around: the result is
  the exact sum as long as it fits and the largest value from then on.\<close>
theorem generation_never_wraps:
  "unat (gen_value (gen_advance n g)) = min (unat (gen_value g) + unat n) (2 ^ 64 - 1)"
  by (simp only: gen_advance_def unat_gen_next_power)

lemma byte_le_image: "v \<le> word_of_nat k \<Longrightarrow> k < 256 \<Longrightarrow> v \<in> (word_of_nat :: nat \<Rightarrow> u8) ` set [0..<Suc k]"
proof -
  assume "v \<le> word_of_nat k" "k < 256"
  then have "unat v \<le> k" by (simp add: word_le_nat_alt unsigned_of_nat take_bit_nat_eq_self)
  then have "unat v \<in> set [0..<Suc k]" by auto
  then have "word_of_nat (unat v) \<in> (word_of_nat :: nat \<Rightarrow> u8) ` set [0..<Suc k]" by (rule imageI)
  then show ?thesis by simp
qed

lemma ExecutionState_value_range: "v \<le> 16 \<longleftrightarrow> v \<in> range ExecutionState_value"
proof
  assume "v \<le> 16"
  then have "v \<in> word_of_nat ` set [0..<17]" using byte_le_image [of v 16] by simp
  then have "ExecutionState_value (ExecutionState_list ! unat v) = v" by (auto simp: upt_rec ExecutionState_list_def)
  then show "v \<in> range ExecutionState_value" by (metis rangeI)
next
  assume "v \<in> range ExecutionState_value"
  then obtain s where "v = ExecutionState_value s" by blast
  then show "v \<le> 16" by (cases s) simp_all
qed

lemma AttemptState_value_range: "v \<le> AttemptState_value AttemptState.TERMINAL \<longleftrightarrow> v \<in> range AttemptState_value"
proof
  assume "v \<le> AttemptState_value AttemptState.TERMINAL"
  then have "v \<in> word_of_nat ` set [0..<Suc (unat (AttemptState_value AttemptState.TERMINAL))]"
    using byte_le_image [of v "unat (AttemptState_value AttemptState.TERMINAL)"] by simp
  then have "AttemptState_value (AttemptState_list ! unat v) = v" by (auto simp: upt_rec AttemptState_list_def)
  then show "v \<in> range AttemptState_value" by (metis rangeI)
next
  assume "v \<in> range AttemptState_value"
  then obtain s where "v = AttemptState_value s" by blast
  then show "v \<le> AttemptState_value AttemptState.TERMINAL" by (cases s) simp_all
qed

lemma MsgType_value_range: "v \<le> 26 \<longleftrightarrow> v \<in> range MsgType_value"
proof
  assume "v \<le> 26"
  then have "MsgType_value (MsgType_list ! unat v) = v" by (intro MsgType_value_surj) (simp add: not_less)
  then show "v \<in> range MsgType_value" by (metis rangeI)
next
  assume "v \<in> range MsgType_value"
  then obtain s where "v = MsgType_value s" by blast
  then show "v \<le> 26" by (cases s) simp_all
qed

lemma DecisionCode_value_range: "v \<le> 19 \<longleftrightarrow> v \<in> range DecisionCode_value"
proof
  assume "v \<le> 19"
  then have "v \<in> word_of_nat ` set [0..<20]" using byte_le_image [of v 19] by simp
  then have "DecisionCode_value (DecisionCode_list ! unat v) = v" by (auto simp: upt_rec DecisionCode_list_def)
  then show "v \<in> range DecisionCode_value" by (metis rangeI)
next
  assume "v \<in> range DecisionCode_value"
  then obtain s where "v = DecisionCode_value s" by blast
  then show "v \<le> 19" by (cases s) simp_all
qed

lemma enumerations_injective: "inj ExecutionState_value" "inj AttemptState_value" "inj MsgType_value" "inj DecisionCode_value"
proof -
  show "inj ExecutionState_value" "inj AttemptState_value"
    by (rule inj_on_inverseI [where g = "\<lambda>v. ExecutionState_list ! unat v"]; rename_tac s; case_tac s; simp add: ExecutionState_list_def)
      (rule inj_on_inverseI [where g = "\<lambda>v. AttemptState_list ! unat v"]; rename_tac s; case_tac s; simp add: AttemptState_list_def)
  show "inj MsgType_value" by (rule inj_on_inverseI [where g = "\<lambda>v. MsgType_list ! unat v"]) simp
  show "inj DecisionCode_value" by (rule inj_on_inverseI [where g = "\<lambda>v. the (DecisionCode_of v)"]) simp
qed

lemma rd_u8_byte: "rd get_u8 e k (ByteReader (v # rest)) = k v (ByteReader rest)"
  using u8_codec.rd_put [where x = v and rest = rest] by (simp add: put_u8_def)

lemma rd_decision_code_byte:
  "rd_decision_code k (ByteReader (v # rest)) =
     (if v \<in> range DecisionCode_value then k (inv DecisionCode_value v) (ByteReader rest) else Inl ''invalid decision enum'')"
proof (cases "v \<in> range DecisionCode_value")
  case True
  then obtain c where "v = DecisionCode_value c" by blast
  then show ?thesis using rd_decision_code_put [of k c rest] enumerations_injective(4) by (simp add: put_u8_def)
next
  case False
  then have "19 < v" using DecisionCode_value_range [of v] by simp
  then show ?thesis using False by (simp add: rd_decision_code_def rd_u8_byte)
qed

lemma rd_exec_state_byte:
  "rd_exec_state e e' k (ByteReader (v # rest)) =
     (if v \<in> range ExecutionState_value then k (inv ExecutionState_value v) (ByteReader rest) else Inl e')"
proof (cases "v \<in> range ExecutionState_value")
  case True
  then obtain s where "v = ExecutionState_value s" by blast
  then show ?thesis using rd_exec_state_put [of e e' k s rest] enumerations_injective(1) by (simp add: put_u8_def)
next
  case False
  then have "\<not> valid_exec_state v" using ExecutionState_value_range [of v] by (simp add: valid_exec_state_def)
  then show ?thesis using False by (simp add: rd_exec_state_def rd_u8_byte)
qed

lemma rd_attempt_state_byte:
  "rd_attempt_state e e' k (ByteReader (v # rest)) =
     (if v \<in> range AttemptState_value then k (inv AttemptState_value v) (ByteReader rest) else Inl e')"
proof (cases "v \<in> range AttemptState_value")
  case True
  then obtain s where "v = AttemptState_value s" by blast
  then show ?thesis using rd_attempt_state_put [of e e' k s rest] enumerations_injective(2) by (simp add: put_u8_def)
next
  case False
  then have "\<not> valid_attempt_state v" using AttemptState_value_range [of v] by (simp add: valid_attempt_state_def)
  then show ?thesis using False by (simp add: rd_attempt_state_def rd_u8_byte)
qed

lemma rd_state_byte_byte:
  "rd_state_byte k (ByteReader (v # rest)) =
     (if v \<in> range ExecutionState_value then k v (ByteReader rest) else Inl ''invalid state enum'')"
proof -
  have "(v > 16) = (v \<notin> range ExecutionState_value)" using ExecutionState_value_range [of v] by (metis leD leI)
  then show ?thesis by (simp add: rd_state_byte_def rd_u8_byte)
qed

lemma decode_frame_type_byte:
  assumes "length p \<le> kMaxPayload"
  shows "decode_frame ((encode_frame t p)[5 := v]) =
     (if v \<in> range MsgType_value then Inr (\<lparr>frame_type = inv MsgType_value v, frame_payload = p\<rparr>, kFrameHeaderLen + length p)
      else Inl ''invalid message type'')"
proof (cases "v \<in> range MsgType_value")
  case True
  then obtain t' where "v = MsgType_value t'" by blast
  then show ?thesis using decode_frame_retyped [OF assms, of t t'] enumerations_injective(3) by simp
next
  case False
  then have "v > 26" using MsgType_value_range [of v] by simp
  moreover have "(put_u8 (MsgType_value t))[0 := v] = put_u8 v" by (simp add: put_u8_def)
  ultimately show ?thesis using False by (simp add: encode_frame_def list_update_append decode_frame_header)
qed

text \<open>C36: The enumeration bytes of the wire and disk formats. Whatever byte stands where an enumeration is read,
  the reader hands on the enumerator whose value it is, and refuses the byte with its error text when
  it is the value of none: the message type in a frame with a payload within the limit, the decision
  code and the state in a message (handed on as the byte), and the execution and attempt states in a
  snapshot. Distinct enumerators have distinct bytes.\<close>
theorem enumeration_bytes_typed:
  assumes "length p \<le> kMaxPayload"
  shows "decode_frame ((encode_frame t p)[5 := v]) =
     (if v \<in> range MsgType_value then Inr (\<lparr>frame_type = inv MsgType_value v, frame_payload = p\<rparr>, kFrameHeaderLen + length p)
      else Inl ''invalid message type'') \<and>
   rd_decision_code kd (ByteReader (v # rest)) =
     (if v \<in> range DecisionCode_value then kd (inv DecisionCode_value v) (ByteReader rest) else Inl ''invalid decision enum'') \<and>
   rd_state_byte kb (ByteReader (v # rest)) =
     (if v \<in> range ExecutionState_value then kb v (ByteReader rest) else Inl ''invalid state enum'') \<and>
   rd_exec_state e e' ks (ByteReader (v # rest)) =
     (if v \<in> range ExecutionState_value then ks (inv ExecutionState_value v) (ByteReader rest) else Inl e') \<and>
   rd_attempt_state e e' ka (ByteReader (v # rest)) =
     (if v \<in> range AttemptState_value then ka (inv AttemptState_value v) (ByteReader rest) else Inl e') \<and>
   inj MsgType_value \<and> inj DecisionCode_value \<and> inj ExecutionState_value \<and> inj AttemptState_value"
  using decode_frame_type_byte [OF assms] enumerations_injective
  by (simp add: rd_decision_code_byte rd_state_byte_byte rd_exec_state_byte rd_attempt_state_byte)

theorem enumeration_bytes_typed_witness:
  "decode_frame ((encode_frame PING [1, 2])[5 := 27]) = Inl ''invalid message type'' \<and>
   decode_frame ((encode_frame PING [1, 2])[5 := 26]) =
     Inr (\<lparr>frame_type = SHUTDOWN, frame_payload = [1, 2]\<rparr>, kFrameHeaderLen + length ([1, 2] :: u8 list))"
proof -
  have p: "length ([1, 2] :: u8 list) \<le> kMaxPayload" by (simp add: kMaxPayload_def)
  have "27 \<notin> range MsgType_value" using MsgType_value_range [of 27] by simp
  moreover have "inv MsgType_value 26 = SHUTDOWN" using inv_f_f [OF enumerations_injective(3), of SHUTDOWN] by simp
  moreover have "26 \<in> range MsgType_value" using MsgType_value_range [of 26] by simp
  ultimately show ?thesis
    using conjunct1 [OF enumeration_bytes_typed [OF p, where t = PING and v = 27]]
      conjunct1 [OF enumeration_bytes_typed [OF p, where t = PING and v = 26]] by simp
qed

section \<open>The result digest\<close>

text \<open>C37: What the digest code computes. For every message the byte-wise implementation is the block-wise hash
  of the padded message, whatever the uninitialised buffer held; but the length field counts whole
  blocks only, one round constant of the standard's 64 differs, no compression agrees with the
  standard's, and already the empty message has another digest than SHA-256.\<close>
theorem sha256_departs_from_standard:
  assumes "length junk = 64"
  shows "sha256_digest junk msg =
      sha_output (hash_blocks sha_compress sha_H0 (sha_pad (word_of_nat (64 * (length msg div 64)) * 8) msg)) \<and>
    list_all2 cube_root_fraction first_primes (sha_K[25 := 0xa831c66d]) \<and> sha_K ! 25 = 0xa831c66c \<and>
    sha_compress hs p \<noteq> sha_compress_with standard_K hs p \<and>
    sha256_digest junk [] \<noteq> SHA256_standard []"
  using sha256_digest_eq [OF assms] standard_K_cube_roots sha_compress_differs sha256_empty_differs [OF assms]
  by (simp add: standard_K_def sha_K_def)

theorem sha256_departs_from_standard_witness: "sha256_digest (replicate 64 0) [] \<noteq> SHA256_standard []"
proof -
  have "length (replicate 64 (0 :: u8)) = 64" by simp
  from sha256_departs_from_standard [OF this] show ?thesis by blast
qed

section \<open>Messages\<close>

text \<open>C15: What of a message survives the wire, for each of the twenty payload formats. Unpacking a packed
  payload returns the payload, provided that its strings and its result bytes are within the limits
  of the format and its state byte is that of a state, with these exceptions: CANCEL and PREEMPT lose
  the execution generation of the request, a decision keeps its code, reason, execution and execution
  generation only, and a digest not announced by its flag is replaced by the nil digest.\<close>
theorem messages_roundtrip:
  assumes "length (hp_tag h) \<le> kMaxString" "length (wp_coordinator_id w) \<le> kMaxString" "length (ra_reason ra) \<le> kMaxString"
    and "valid_exec_state (sa_state sa)" "length (sa_reason sa) \<le> kMaxString" "length (da_reason da) \<le> kMaxString"
    and "length (result_bytes cp) \<le> kMaxVector" "length (ca_reason ca) \<le> kMaxString"
    and "length (reason d) \<le> kMaxString" "valid_exec_state (qr_state qr)" "length (qr_detail qr) \<le> kMaxString"
  shows "unpack_hello (pack_hello h) = Inr h \<and> unpack_welcome (pack_welcome w) = Inr w \<and>
    unpack_register_ack (pack_register_ack ra) = Inr ra \<and> unpack_submit (pack_submit s) = Inr s \<and>
    unpack_submit_ack (pack_submit_ack sa) = Inr sa \<and> unpack_dispatch (pack_dispatch dr) = Inr dr \<and>
    unpack_dispatch_ack (pack_dispatch_ack da) = Inr da \<and> unpack_worker_dispatch (pack_worker_dispatch wd) = Inr wd \<and>
    unpack_start (pack_start st) = Inr st \<and>
    unpack_complete (pack_complete cp) =
      Inr (cp\<lparr>completion_ticket := (completion_ticket cp)\<lparr>ct_result_digest :=
        (if has_result (completion_ticket cp) then ct_result_digest (completion_ticket cp) else ResultDigest_nil)\<rparr>\<rparr>) \<and>
    unpack_complete_ack (pack_complete_ack ca) =
      Inr (ca\<lparr>ca_committed_digest := (if ca_committed ca then ca_committed_digest ca else ResultDigest_nil)\<rparr>) \<and>
    unpack_decision (pack_decision d) = Inr (wire_decision d) \<and>
    unpack_cancel (pack_cancel c) =
      Inr (c\<lparr>cancel_request := (cancel_request c)\<lparr>req_execution_generation := Gen 0\<rparr>\<rparr>) \<and>
    unpack_cancel (pack_preempt c) =
      Inr (c\<lparr>cancel_request := (cancel_request c)\<lparr>req_execution_generation := Gen 0\<rparr>\<rparr>) \<and>
    unpack_ack_preempt (pack_ack_preempt ap) = Inr ap \<and> unpack_mark_resumable (pack_mark_resumable mr) = Inr mr \<and>
    unpack_resume (pack_resume rr) = Inr rr \<and> unpack_worker_lost (pack_worker_lost wl) = Inr wl \<and>
    unpack_query (pack_query q) = Inr q \<and> unpack_query_response (pack_query_response qr) = Inr qr"
proof -
  let ?ca = "ca\<lparr>ca_committed_digest := (if ca_committed ca then ca_committed_digest ca else ResultDigest_nil)\<rparr>"
  have "pack_complete_ack ca = pack_complete_ack ?ca" by (simp add: pack_complete_ack_def)
  then have "unpack_complete_ack (pack_complete_ack ca) = Inr ?ca" using complete_ack_codec.unpack_pack [of ?ca] assms(8) by simp
  moreover have "unpack_decision (pack_decision d) = Inr (wire_decision d)" using unpack_decision_pack [OF assms(9), of "[]"] by simp
  ultimately show ?thesis using unpack_pack_complete [OF assms(7), unfolded received_completion_def]
    using assms by (simp add: hello_codec.unpack_pack welcome_codec.unpack_pack register_ack_codec.unpack_pack
        submit_codec.unpack_pack submit_ack_codec.unpack_pack dispatch_codec.unpack_pack dispatch_ack_codec.unpack_pack
        worker_dispatch_codec.unpack_pack start_codec.unpack_pack unpack_pack_cancel pack_preempt_def
        ack_preempt_codec.unpack_pack mark_resumable_codec.unpack_pack resume_codec.unpack_pack
        worker_lost_codec.unpack_pack query_codec.unpack_pack query_response_codec.unpack_pack)
qed

definition ex_complete_payload :: CompletePayload where
  "ex_complete_payload = complete_report (replicate 64 0) [1, 2, 3]
     \<lparr>wd_ticket = DispatchTicket_init, work_bytes = 1, work_seed = 0\<rparr>"

lemma ex_complete_fits: "length (result_bytes ex_complete_payload) \<le> kMaxVector" "has_result (completion_ticket ex_complete_payload)"
  by (simp_all add: ex_complete_payload_def complete_report_def completion_ticket_of_def kMaxVector_def)

theorem messages_roundtrip_witness:
  "unpack_complete (pack_complete ex_complete_payload) = Inr ex_complete_payload \<and>
   unpack_complete_ack (pack_complete_ack \<lparr>ca_decision = ALLOW, ca_reason = [], ca_committed = True, ca_committed_digest = ResultDigest_nil\<rparr>) =
     Inr \<lparr>ca_decision = ALLOW, ca_reason = [], ca_committed = True, ca_committed_digest = ResultDigest_nil\<rparr>"
  using messages_roundtrip [where cp = ex_complete_payload
      and h = "\<lparr>hp_role = 1, hp_protocol_version = 1, hp_worker_id = id_nil, hp_worker_boot_id = id_nil, hp_tag = []\<rparr>"
      and w = "\<lparr>wp_epoch = Gen 1, wp_coordinator_id = [], wp_protocol_version = 1\<rparr>"
      and ra = "\<lparr>ra_accepted = True, ra_reason = []\<rparr>"
      and sa = "\<lparr>sa_accepted = True, sa_execution_id = id_nil, sa_generation = Gen 1, sa_state = 1, sa_reason = []\<rparr>"
      and da = "\<lparr>da_accepted = True, da_decision = ALLOW, da_reason = [], da_ticket = DispatchTicket_init\<rparr>"
      and ca = "\<lparr>ca_decision = ALLOW, ca_reason = [], ca_committed = True, ca_committed_digest = ResultDigest_nil\<rparr>"
      and d = Decision_init
      and qr = "\<lparr>qr_found = True, qr_execution_id = id_nil, qr_state = 1, qr_generation = Gen 1, qr_epoch = Gen 1,
        qr_current_attempt = None, qr_current_attempt_generation = None, attempt_count = 0, qr_committed_digest = None, qr_detail = []\<rparr>"]
  by (simp add: ex_complete_fits Decision_init_def valid_exec_state_def)

section \<open>Frames\<close>

text \<open>C14: A frame is accepted exactly when the buffer starts with the encoding of that frame and the payload is
  within the limit; the number of bytes consumed is the length of the encoding.\<close>
theorem frame_accepted_iff:
  "decode_frame data = Inr (f, n) \<longleftrightarrow>
     length (frame_payload f) \<le> kMaxPayload \<and> n = kFrameHeaderLen + length (frame_payload f) \<and>
     n \<le> length data \<and> take n data = encode_frame (frame_type f) (frame_payload f)"
proof
  assume f: "length (frame_payload f) \<le> kMaxPayload \<and> n = kFrameHeaderLen + length (frame_payload f) \<and>
     n \<le> length data \<and> take n data = encode_frame (frame_type f) (frame_payload f)"
  then have "data = encode_frame (frame_type f) (frame_payload f) @ drop n data" by (metis append_take_drop_id)
  then show "decode_frame data = Inr (f, n)"
    using f decode_encode_frame [of "frame_payload f" "frame_type f" "drop n data"] by simp
qed (rule decode_frame_canonical)

text \<open>C22: Damage to a frame. Changing any one byte of the magic, the version, the checksum or the payload makes
  the receiver reject it. The message type is not protected: replacing it by another type gives a
  frame that is accepted with the same payload under the other type.\<close>
theorem frame_damage:
  assumes "length p \<le> kMaxPayload" "i < kFrameHeaderLen + length p" "i < 5 \<or> 10 \<le> i" "b \<noteq> encode_frame t p ! i"
  shows "(\<exists>e. decode_frame ((encode_frame t p)[i := b]) = Inl e) \<and>
    decode_frame ((encode_frame t p)[5 := MsgType_value t']) =
      Inr (\<lparr>frame_type = t', frame_payload = p\<rparr>, kFrameHeaderLen + length p)"
  using decode_frame_damaged [OF assms(1) _ assms(3,4)] decode_frame_retyped [OF assms(1)] assms(2) by simp

theorem frame_damage_witness:
  "(\<exists>e. decode_frame ((encode_frame CANCEL [1])[18 := 2]) = Inl e) \<and>
   decode_frame ((encode_frame CANCEL [1])[5 := MsgType_value PREEMPT]) =
     Inr (\<lparr>frame_type = PREEMPT, frame_payload = [1]\<rparr>, kFrameHeaderLen + length ([1] :: u8 list))"
  by (rule frame_damage)
    (simp_all add: kMaxPayload_def kFrameHeaderLen_def encode_frame_def nth_append)

section \<open>Transport\<close>

text \<open>C13: The receive loops return. When the peer's stream carries the encodings of some frames, in whatever
  chunks and with whatever would-block results in between, receiving that many frames terminates with
  exactly these frames, in order, and leaves the rest of the stream untouched.\<close>
theorem frames_received_in_order:
  assumes "fd_open c" "stream_clean (incoming c)" "list_all (\<lambda>f. length (frame_payload f) \<le> kMaxPayload) fs"
    and "stream_bytes (incoming c) = concat (map frame_bytes fs) @ later"
  shows "\<exists>evs. recv_frames (length fs) c = Some (fs, c\<lparr>incoming := evs\<rparr>) \<and> stream_clean evs \<and> stream_bytes evs = later"
  by (rule recv_frames_in_order [OF assms])

definition ex_frame :: DecodedFrame where
  "ex_frame = \<lparr>frame_type = PING, frame_payload = [1, 2]\<rparr>"

definition ex_connection :: tcp_connection where
  "ex_connection =
     \<lparr>fd_open = True,
      incoming = [Received (take 7 (frame_bytes ex_frame)), Recv_would_block, Received (drop 7 (frame_bytes ex_frame) @ [9])],
      send_results = [], sent = []\<rparr>"

theorem frames_received_in_order_witness:
  "\<exists>evs. recv_frames (length [ex_frame]) ex_connection = Some ([ex_frame], ex_connection\<lparr>incoming := evs\<rparr>) \<and>
     stream_clean evs \<and> stream_bytes evs = [9]"
proof (rule frames_received_in_order)
  have "length (frame_bytes ex_frame) = 20" by (simp add: frame_bytes_def kFrameHeaderLen_def ex_frame_def)
  then show "stream_clean (incoming ex_connection)"
    by (auto simp: ex_connection_def)
qed (simp_all add: ex_connection_def ex_frame_def kMaxPayload_def)

text \<open>C23: Bounded reads. Whatever the peer sends, a received frame has a payload within the limit, and exactly
  the bytes of this frame were taken off the stream.\<close>
theorem received_frame_bounded:
  assumes "recv_frame c = Some (Inr f, c')"
  shows "length (frame_payload f) \<le> kMaxPayload \<and>
    stream_bytes (incoming c) = encode_frame (frame_type f) (frame_payload f) @ stream_bytes (incoming c')"
  using recv_frame_bounded [OF assms] recv_frame_takes [OF assms] by (simp add: frame_bytes_def)

theorem received_frame_bounded_witness:
  "\<exists>evs. stream_bytes (incoming ex_connection) = encode_frame PING [1, 2] @ stream_bytes evs"
proof -
  have "length (frame_bytes ex_frame) = 20" by (simp add: frame_bytes_def kFrameHeaderLen_def ex_frame_def)
  then have "stream_clean (incoming ex_connection)" by (auto simp: ex_connection_def)
  from recv_frame_returns [OF _ this, of "[1, 2]" PING "[9]"]
  obtain evs where "recv_frame ex_connection = Some (Inr \<lparr>frame_type = PING, frame_payload = [1, 2]\<rparr>, ex_connection\<lparr>incoming := evs\<rparr>)"
    by (auto simp: ex_connection_def kMaxPayload_def frame_bytes_def ex_frame_def)
  from received_frame_bounded [OF this] show ?thesis by auto
qed

section \<open>The worker\<close>

text \<open>C12: A worker answers its stream. When the coordinator's bytes are the encodings of some well-formed frames
  followed by a shutdown, in whatever chunks, and the socket takes what it is given, the worker's
  loop returns without error and has sent exactly the answers to these frames, in order: start and
  completion reports for every dispatch, an echo for every ping, nothing else.\<close>
theorem worker_answers_stream:
  assumes "wk_connected w" "fd_open (wk_conn w)" "stream_clean (incoming (wk_conn w))" "send_clean (send_results (wk_conn w))"
    and "stream_bytes (incoming (wk_conn w)) = concat (map frame_bytes fs) @ encode_frame SHUTDOWN p @ later"
    and "list_all worker_accepts fs" "length p \<le> kMaxPayload"
    and "length (concat (map (worker_answer junk w) fs)) \<le> send_calls (send_results (wk_conn w))"
  shows "\<exists>w'. run_worker junk w = Some (Inr (), w') \<and>
    sent (wk_conn w') = sent (wk_conn w) @ concat (map (worker_answer junk w) fs) \<and> stream_bytes (incoming (wk_conn w')) = later"
  by (rule run_worker_answers [OF assms])

definition ex_dispatch_payload :: WorkerDispatchPayload where
  "ex_dispatch_payload = \<lparr>wd_ticket = DispatchTicket_init, work_bytes = 4096, work_seed = 0\<rparr>"

definition ex_dispatch_frame :: DecodedFrame where
  "ex_dispatch_frame = \<lparr>frame_type = WORKER_DISPATCH, frame_payload = pack_worker_dispatch ex_dispatch_payload\<rparr>"

definition ex_worker_runtime :: worker_runtime where
  "ex_worker_runtime =
     \<lparr>wk_worker_id = id_nil, wk_boot = id_nil,
      wk_conn = \<lparr>fd_open = True,
        incoming = [Recv_would_block, Received (frame_bytes ex_dispatch_frame @ frame_bytes ex_frame @ encode_frame SHUTDOWN [])],
        send_results = replicate 1000 (Sent 1), sent = []\<rparr>,
      wk_connected = True, wk_running = False, wk_executor = Some (\<lambda>_ _. [7])\<rparr>"

lemma send_replicate: "send_calls (replicate n (Sent k)) = n" "0 < k \<Longrightarrow> send_clean (replicate n (Sent k))"
  by (induction n) simp_all

theorem worker_answers_stream_witness:
  "\<exists>w'. run_worker (replicate 64 0) ex_worker_runtime = Some (Inr (), w') \<and>
     sent (wk_conn w') =
       encode_frame START (pack_start (start_report ex_dispatch_payload))
       @ encode_frame COMPLETE (pack_complete (complete_report (replicate 64 0) [7] ex_dispatch_payload)) @ encode_frame PONG [1, 2]"
proof -
  let ?w = ex_worker_runtime
  let ?junk = "replicate 64 (0 :: u8)"
  have u: "unpack_worker_dispatch (frame_payload ex_dispatch_frame) = Inr ex_dispatch_payload"
    by (simp add: ex_dispatch_frame_def worker_dispatch_codec.unpack_pack)
  have ans: "worker_answer ?junk ?w ex_dispatch_frame =
      encode_frame START (pack_start (start_report ex_dispatch_payload))
      @ encode_frame COMPLETE (pack_complete (complete_report ?junk [7] ex_dispatch_payload))"
    "worker_answer ?junk ?w ex_frame = encode_frame PONG [1, 2]"
    using u by (simp_all add: worker_answer_def ex_dispatch_frame_def ex_frame_def work_result_def ex_worker_runtime_def)
  have acc: "worker_accepts ex_dispatch_frame" "worker_accepts ex_frame"
    using u by (simp_all add: worker_accepts_def ex_frame_def kMaxPayload_def)
      (simp_all add: ex_dispatch_frame_def pack_worker_dispatch_def put_dispatch_ticket_def)
  have len: "length (pack_start (start_report ex_dispatch_payload)) \<le> 200"
    "length (pack_complete (complete_report ?junk [7] ex_dispatch_payload)) \<le> 400"
    by (simp_all add: pack_start_def put_start_ticket_def pack_complete_def put_completion_ticket_def complete_report_def
        completion_ticket_of_def)
  have conn: "wk_connected ?w" "fd_open (wk_conn ?w)" "send_clean (send_results (wk_conn ?w))" "sent (wk_conn ?w) = []"
    "send_calls (send_results (wk_conn ?w)) = 1000"
    by (simp_all add: ex_worker_runtime_def send_replicate)
  have "frame_bytes ex_dispatch_frame \<noteq> []" using length_encode_frame by (metis frame_bytes_def kFrameHeaderLen_def add_is_0 list.size(3) zero_neq_numeral)
  then have bytes: "stream_clean (incoming (wk_conn ?w))"
    "stream_bytes (incoming (wk_conn ?w)) = concat (map frame_bytes [ex_dispatch_frame, ex_frame]) @ encode_frame SHUTDOWN [] @ []"
    by (simp_all add: ex_worker_runtime_def)
  have n: "length (concat (map (worker_answer ?junk ?w) [ex_dispatch_frame, ex_frame])) \<le> send_calls (send_results (wk_conn ?w))"
    using len by (simp add: ans conn kFrameHeaderLen_def)
  have fs: "list_all worker_accepts [ex_dispatch_frame, ex_frame]" "length ([] :: u8 list) \<le> kMaxPayload" using acc by simp_all
  from worker_answers_stream [OF conn(1,2) bytes(1) conn(3) bytes(2) fs n] show ?thesis
    by (auto simp: ans conn(4))
qed

end
