(* ===== verification/Property_Test.thy ===== *)
theory Property_Test
  imports Engine_Facts
begin

text \<open>
  The invariants that \<^verbatim>\<open>tests/property_test.cpp\<close> checks after every random operation,
  as an executable predicate, and the proof that they hold after every run of the operations that
  test draws from (all but \<^verbatim>\<open>supersede\<close>). Beyond \<open>record_wf\<close> this needs the attempt
  generations to count the attempts, an invariant that only runs without supersession keep.
\<close>

section \<open>The checked invariants\<close>

definition check_record :: "ExecutionRecord \<Rightarrow> bool" where
  "check_record rec \<longleftrightarrow>
     list_all (\<lambda>i. \<not> at_generation (attempts rec ! i) \<le> at_generation (attempts rec ! (i - 1))) [1..<length (attempts rec)] \<and>
     list_all (\<lambda>i. \<not> at_ownership_generation (attempts rec ! i) < at_ownership_generation (attempts rec ! (i - 1)) \<and>
                  \<not> at_fence_generation (attempts rec ! i) < at_fence_generation (attempts rec ! (i - 1))) [1..<length (attempts rec)] \<and>
     (case current_attempt_id rec of
        None \<Rightarrow> True
      | Some c \<Rightarrow> let live = filter (\<lambda>at. at_state at \<noteq> AttemptState.SUPERSEDED) (attempts rec)
                 in live \<noteq> [] \<and> at_id (last live) = c) \<and>
     (state rec = COMMITTED \<longrightarrow> committed_digest rec \<noteq> None \<and> gen_is_set (commit_generation rec)) \<and>
     \<not> gen_value (commit_generation rec) > 1 \<and>
     gen_is_set (generation rec)"

definition check_invariants :: "engine \<Rightarrow> bool" where
  "check_invariants eng \<longleftrightarrow> list_all check_record (records eng)"

section \<open>Attempt generations count the attempts\<close>

definition is_supersede :: "engine_event \<Rightarrow> bool" where
  "is_supersede ev \<longleftrightarrow> (case ev of Supersede _ _ \<Rightarrow> True | _ \<Rightarrow> False)"

definition gens_wf :: "ExecutionRecord \<Rightarrow> bool" where
  "gens_wf r \<longleftrightarrow>
     map (\<lambda>at. gen_nat (at_generation at)) (cores r) = map (\<lambda>i. sat64 (i + 1)) [0..<length (cores r)] \<and>
     (current_attempt_id r = None \<longrightarrow> attempts r = [])"

definition grows :: "ExecutionRecord \<Rightarrow> ExecutionRecord \<Rightarrow> bool" where
  "grows r r' \<longleftrightarrow>
     (cores r' = cores r \<and> current_attempt_id r' = current_attempt_id r) \<or>
     (\<exists>a. cores r' = cores r @ [a] \<and> current_attempt_id r' = Some (at_id a) \<and>
        at_generation a = (case current_attempt_generation r of Some g \<Rightarrow> gen_next g | None \<Rightarrow> Gen 1))"

lemma gens_wf_grows:
  assumes "record_wf r" "gens_wf r" "grows r r'"
  shows "gens_wf r'"
proof -
  consider "cores r' = cores r" "current_attempt_id r' = current_attempt_id r"
    | a where "cores r' = cores r @ [a]" "current_attempt_id r' = Some (at_id a)" 
      "at_generation a = (case current_attempt_generation r of Some g \<Rightarrow> gen_next g | None \<Rightarrow> Gen 1)"
    using assms(3) by (auto simp: grows_def)
  then show ?thesis
  proof cases
    case 1
    then show ?thesis using assms(2) cores_eq_Nil [of r] cores_eq_Nil [of r'] by (simp add: gens_wf_def)
  next
    case (2 a)
    have "gen_nat (at_generation a) = sat64 (length (cores r) + 1)"
    proof (cases "current_attempt_id r")
      case None
      then have "current_attempt_generation r = None" "attempts r = []"
        using assms(1,2) by (auto simp: record_wf_def authority_wf_def gens_wf_def)
      then show ?thesis using 2(3) by (simp add: sat64_def cores_def)
    next
      case (Some c)
      then have ne: "cores r \<noteq> []" and cg: "current_attempt_generation r = Some (at_generation (last (cores r)))"
        using assms(1) by (auto simp: record_wf_def authority_wf_def)
      have "last (map (\<lambda>at. gen_nat (at_generation at)) (cores r)) = last (map (\<lambda>i. sat64 (i + 1)) [0..<length (cores r)])"
        using assms(2) by (simp add: gens_wf_def)
      then have "gen_nat (at_generation (last (cores r))) = sat64 (length (cores r))"
        using ne by (simp add: last_map)
      then show ?thesis using 2(3) cg gen_nat_next by simp
    qed
    then show ?thesis using assms(2) 2 by (simp add: gens_wf_def)
  qed
qed

lemma grows_install:
  assumes "map at_core xs = cores r"
  shows "grows r (snd (transition (install_attempt (new_attempt (r\<lparr>attempts := xs\<rparr>) w b ra rd) (r\<lparr>attempts := xs\<rparr>)) s))"
  using assms by (auto simp: grows_def install_attempt_def new_attempt_def cores_def)

lemma grows_dispatch: "grows r (snd (snd (dispatch_rec ep w b ra rd tk r)))"
proof (cases "dispatch_refusal r")
  case None
  have "supersede_current r = r\<lparr>attempts := attempts (supersede_current r)\<rparr>"
    by (cases "current_attempt_id r"; simp add: supersede_current_def)
  then show ?thesis
    using grows_install [of "attempts (supersede_current r)" r w b ra rd ExecutionState.DISPATCHED] supersede_current_sel(7) [of r]
    by (simp add: dispatch_rec_def None Let_def split_beta cores_def del: snd_transition supersede_current_sel)
qed (simp add: dispatch_rec_def grows_def)

lemma grows_resume: "grows r (snd (snd (resume_rec ep e w b g ra rd tk r)))"
  using grows_install [of "supersede_preempted (current_attempt_id r) (attempts r)" "r\<lparr>resume_generation := g\<rparr>" w b ra rd RESUMING]
  by (auto simp: resume_rec_def Let_def split_beta cores_def grows_def simp del: snd_transition)

lemma grows_record_effect: "\<not> is_supersede ev \<Longrightarrow> grows r (record_effect ep ev r)"
  by (cases ev) (simp_all add: grows_dispatch grows_resume is_supersede_def, 
    simp_all add: grows_def rec_ops Let_def split_beta)

definition counters_wf :: "engine \<Rightarrow> bool" where
  "counters_wf eng \<longleftrightarrow> engine_wf eng \<and> (\<forall>i r. find_record eng i = Some r \<longrightarrow> gens_wf r)"

interpretation supersede_free_runs: step_invariant "\<lambda>eng ev eng'. \<not> is_supersede ev \<and> engine_step eng ev eng'" counters_wf
proof
  fix eng ev eng'
  assume wf: "counters_wf eng" and step: "\<not> is_supersede ev \<and> engine_step eng ev eng'"
  then obtain d where call: "engine_call eng ev = Inr (d, eng')" by (auto simp: engine_step_def)
  have "gens_wf r'" if r': "find_record eng' i = Some r'" for i r'
  proof (cases "find_record eng i")
    case None
    then obtain e now where "r' = created_record i e now"
      using r' engine_call_records [OF call, of i] by (cases ev) (auto split: if_splits)
    then show ?thesis by (simp add: gens_wf_def created_record_def ExecutionRecord_init_def cores_def)
  next
    case (Some r)
    then have "record_wf r" "gens_wf r" using wf find_record_wf by (auto simp: counters_wf_def)
    then have "gens_wf (record_effect (eng_epoch eng) ev r)"
      using gens_wf_grows grows_record_effect step by blast
    then show ?thesis using Some r' engine_call_records [OF call, of i] \<open>gens_wf r\<close> by (auto split: if_splits)
  qed
  then show "counters_wf eng'" using wf engine_call_wf [OF call] by (auto simp: counters_wf_def)
qed

lemma run_supersede_free:
  "engine_run eng es = Some eng' \<Longrightarrow> list_all (\<lambda>ev. \<not> is_supersede ev) es \<Longrightarrow>
     steps (\<lambda>eng ev eng'. \<not> is_supersede ev \<and> engine_step eng ev eng') eng es eng'"
  by (induction eng es rule: engine_run.induct) (auto simp: engine_step_def split: sum.splits)

section \<open>The invariants hold\<close>

lemma attempt_generation:
  assumes "gens_wf r" "k < length (attempts r)"
  shows "gen_nat (at_generation (attempts r ! k)) = sat64 (k + 1)"
proof -
  have "map (\<lambda>at. gen_nat (at_generation at)) (cores r) ! k = map (\<lambda>i. sat64 (i + 1)) [0..<length (cores r)] ! k"
    using assms(1) by (simp add: gens_wf_def)
  then show ?thesis using assms(2) by (simp add: cores_def)
qed

lemma check_record_wf:
  assumes wf: "record_wf r" and gens: "gens_wf r" and len: "length (attempts r) < 2 ^ 64"
  shows "check_record r"
proof -
  have 1: "\<not> at_generation (attempts r ! i) \<le> at_generation (attempts r ! (i - 1))"
    if "1 \<le> i" "i < length (attempts r)" for i
    using attempt_generation [OF gens, of i] attempt_generation [OF gens, of "i - 1"] that len
      sat64_less [of i "i + 1"] by (simp add: gen_le_iff_unat)
  have 2: "\<not> at_ownership_generation (attempts r ! i) < at_ownership_generation (attempts r ! (i - 1)) \<and>
          \<not> at_fence_generation (attempts r ! i) < at_fence_generation (attempts r ! (i - 1))"
    if "1 \<le> i" "i < length (attempts r)" for i
    using attempt_ownership [OF wf, of i] attempt_ownership [OF wf, of "i - 1"]
      attempt_fence [OF wf, of i] attempt_fence [OF wf, of "i - 1"] that
      sat64_mono [of "i - 1 + 2" "i + 2"] by (simp add: gen_less_iff_unat)
  have 3: "let live = filter (\<lambda>at. at_state at \<noteq> AttemptState.SUPERSEDED) (attempts r) in live \<noteq> [] \<and> at_id (last live) = c"
    if c: "current_attempt_id r = Some c" for c
  proof -
    have ne: "attempts r \<noteq> []" and sup: "at_state (last (attempts r)) \<noteq> AttemptState.SUPERSEDED" and "at_id (last (cores r)) = c"
      using wf c by (auto simp: record_wf_def authority_wf_def lifecycle_wf_def)
    then have id: "at_id (last (attempts r)) = c" by (simp add: cores_def last_map)
    have "filter (\<lambda>at. at_state at \<noteq> AttemptState.SUPERSEDED) (butlast (attempts r) @ [last (attempts r)]) =
        filter (\<lambda>at. at_state at \<noteq> AttemptState.SUPERSEDED) (butlast (attempts r)) @ [last (attempts r)]"
      using sup by simp
    then show ?thesis using ne id by (simp add: Let_def)
  qed
  show ?thesis
    using 1 2 3 wf by (auto simp: check_record_def list_all_iff record_wf_def commit_wf_def gen_is_set_def split: option.split if_splits)
qed

lemma run_attempts:
  assumes "engine_run (ExecutionEngine e0) es = Some eng" "list_all (\<lambda>ev. \<not> is_supersede ev) es"
    "find_record eng i = Some r"
  shows "length (attempts r) \<le> length es"
  using assms
proof (induction es arbitrary: eng r rule: rev_induct)
  case Nil
  then show ?case by (auto simp: ExecutionEngine_def find_record_def)
next
  case (snoc ev es)
  then obtain eng1 d where run: "engine_run (ExecutionEngine e0) es = Some eng1"
      and call: "engine_call eng1 ev = Inr (d, eng)"
    by (auto simp: engine_run_append split: option.splits sum.splits)
  show ?case
  proof (cases "find_record eng1 i")
    case None
    then obtain e now where "r = created_record i e now"
      using snoc.prems(3) engine_call_records [OF call, of i] by (cases ev) (auto split: if_splits)
    then show ?thesis by (simp add: created_record_def ExecutionRecord_init_def)
  next
    case (Some r1)
    then have "length (attempts r1) \<le> length es" using snoc.IH [OF run] snoc.prems(2) by simp
    moreover have "r = r1 \<or> grows r1 r"
      using Some snoc.prems engine_call_records [OF call, of i] grows_record_effect [of ev r1 "eng_epoch eng1"]
      by (auto split: if_splits)
    moreover have "length (cores r) = length (attempts r)" "length (cores r1) = length (attempts r1)"
      by (simp_all add: cores_def)
    ultimately show ?thesis by (auto simp: grows_def)
  qed
qed

lemma run_check_invariants:
  assumes run: "engine_run (ExecutionEngine e0) es = Some eng" and free: "list_all (\<lambda>ev. \<not> is_supersede ev) es"
    and len: "length es < 2 ^ 64"
  shows "check_invariants eng"
proof -
  have "counters_wf (ExecutionEngine e0)"
    using engine_wf_init by (simp add: counters_wf_def ExecutionEngine_def find_record_def)
  then have wf: "counters_wf eng"
    using supersede_free_runs.inv_steps [OF run_supersede_free [OF run free]] by simp
  have "check_record r" if r: "r \<in> set (records eng)" for r
  proof -
    obtain i where i: "find_record eng i = Some r" using r wf by (auto simp: counters_wf_def in_records)
    then have "record_wf r" "gens_wf r" using wf find_record_wf by (auto simp: counters_wf_def)
    then show ?thesis using run_attempts [OF run free i] len by (intro check_record_wf) simp_all
  qed
  then show ?thesis by (simp add: check_invariants_def list_all_iff)
qed

end
