(* ===== verification/Engine_Properties.thy ===== *)
theory Engine_Properties
  imports Property_Test
begin

text \<open>
  The properties of the authority engine, each with a worked instance. The instances share one
  small scenario: an execution is created, activated and dispatched under epoch 1, then started,
  completed, dispatched again, or preempted and resumed.
\<close>

section \<open>The scenario of the worked instances\<close>

definition ex_exec :: ExecutionId where
  "ex_exec = Id (uuid_random (1, 1))"

definition ex_worker :: "u64 \<Rightarrow> WorkerId" where
  "ex_worker n = Id (uuid_random (2, n))"

definition ex_boot :: "u64 \<Rightarrow> WorkerBootId" where
  "ex_boot n = Id (uuid_random (3, n))"

definition ex_digest :: ResultDigest where
  "ex_digest = ResultDigest (to_array [7])"

definition ex_engine :: "engine_event list \<Rightarrow> engine" where
  "ex_engine es = the (engine_run (ExecutionEngine (Gen 1)) es)"

definition ex_record :: "engine_event list \<Rightarrow> ExecutionRecord" where
  "ex_record es = the (find_record (ex_engine es) ex_exec)"

definition ex_dispatch :: "u64 \<Rightarrow> engine_event" where
  "ex_dispatch n = Dispatch ex_exec (ex_worker n) (ex_boot n) (Gen 1) (4, n) (5, n)"

definition ex_ticket :: "engine_event list \<Rightarrow> u64 \<Rightarrow> DispatchTicket" where
  "ex_ticket es n =
     (case dispatch (ex_engine es) ex_exec (ex_worker n) (ex_boot n) (Gen 1) (4, n) (5, n) DispatchTicket_init of
        Inr (_, tk, _) \<Rightarrow> tk | Inl _ \<Rightarrow> DispatchTicket_init)"

definition ex_ready :: "engine_event list" where
  "ex_ready = [Create ex_exec (Gen 1) ''t0'', Activate ex_exec (Gen 1)]"

definition ex_dispatched :: "engine_event list" where
  "ex_dispatched = ex_ready @ [ex_dispatch 1]"

definition ex_running :: "engine_event list" where
  "ex_running = ex_dispatched @ [MarkRunning (start_ticket_of (ex_ticket ex_ready 1))]"

definition ex_completion :: CompletionTicket where
  "ex_completion = completion_ticket_of (ex_ticket ex_ready 1) ex_digest"

definition ex_request :: ControlRequest where
  "ex_request =
     \<lparr>req_execution_id = ex_exec, req_execution_generation = Gen 1, req_epoch = Gen 1,
      authority_generation = Gen 2, req_cancellation_generation = Gen 0,
      req_preemption_generation = Gen 0, req_resume_generation = Gen 0\<rparr>"

definition ex_resuming :: "engine_event list" where
  "ex_resuming =
     ex_running @ [Preempt ex_request, AcknowledgePreempt ex_exec (Gen 1), MarkResumable ex_exec (Gen 1),
       Resume ex_exec (ex_worker 2) (ex_boot 2) (Gen 1) (Gen 1) (4, 2) (5, 2)]"

definition ex_start_resumed :: engine_event where
  "ex_start_resumed =
     MarkRunning
       \<lparr>st_execution_id = ex_exec, st_execution_generation = Gen 1,
        st_attempt_id = id_random (4, 2), st_attempt_generation = Gen 2,
        st_worker_id = ex_worker 2, st_worker_boot_id = ex_boot 2, st_epoch = Gen 1,
        st_dispatch_id = id_random (5, 2), st_dispatch_generation = Gen 1,
        st_ownership_generation = Gen 3, st_fence_generation = Gen 3\<rparr>"

lemma ex_reachable: "engine_run (ExecutionEngine (Gen 1)) es \<noteq> None \<Longrightarrow> engine_reachable (ex_engine es)"
  unfolding ex_engine_def by (auto dest: engine_run_reachable)

lemma ex_run_append:
  "engine_run (ExecutionEngine (Gen 1)) (es @ fs) \<noteq> None \<Longrightarrow>
     engine_run (ex_engine es) fs = Some (ex_engine (es @ fs))"
  unfolding ex_engine_def by (auto simp: engine_run_append split: option.splits)

lemma ex_found: "find_record (ex_engine es) ex_exec \<noteq> None \<Longrightarrow> find_record (ex_engine es) ex_exec = Some (ex_record es)"
  unfolding ex_record_def by auto

lemma ex_reachable_runs:
  "engine_reachable (ex_engine ex_ready)" "engine_reachable (ex_engine ex_dispatched)"
  "engine_reachable (ex_engine ex_running)" "engine_reachable (ex_engine ex_resuming)"
  by (rule ex_reachable, code_simp)+

lemma ex_find_runs:
  "find_record (ex_engine ex_ready) ex_exec = Some (ex_record ex_ready)"
  "find_record (ex_engine ex_dispatched) ex_exec = Some (ex_record ex_dispatched)"
  "find_record (ex_engine ex_running) ex_exec = Some (ex_record ex_running)"
  "find_record (ex_engine ex_resuming) ex_exec = Some (ex_record ex_resuming)"
  by (rule ex_found, code_simp)+

lemma ex_complete_allowed: "code (fst (complete (ex_engine ex_running) ex_completion ''t1'')) = ALLOW"
  by code_simp

section \<open>Commit authority\<close>

text \<open>C1: The commit boundary. In every reachable engine a completion is allowed exactly when the
  execution is known, in a committable state and of the engine's epoch, and the ticket names the
  attempt that holds authority now: its id, generation, worker, boot, dispatch id, ownership and
  fence generation, and the execution generation; and it carries a non-nil digest.\<close>
theorem complete_allow_iff:
  assumes "engine_reachable eng"
  shows "code (fst (complete eng t now)) = ALLOW \<longleftrightarrow>
     (\<exists>r a. find_record eng (ct_execution_id t) = Some r \<and>
        holder (ledger_of r) = Some a \<and> ticket_names t a \<and>
        ct_execution_generation t = generation r \<and>
        ct_epoch t = eng_epoch eng \<and> ct_epoch t = coordinator_epoch r \<and>
        state r \<in> committable \<and>
        has_result t \<and> \<not> ResultDigest_is_nil (ct_result_digest t) \<and>
        \<not> id_is_nil (ct_execution_id t) \<and> \<not> id_is_nil (ct_worker_id t) \<and> \<not> id_is_nil (ct_worker_boot_id t) \<and>
        (\<forall>at \<in> set (attempts r). at_id at = ct_attempt_id t \<longrightarrow> at_dispatch_id at = ct_dispatch_id t))"
  by (rule complete_authority [OF reachable_wf [OF assms]])

theorem complete_allow_iff_witness:
  "\<exists>r a. find_record (ex_engine ex_running) (ct_execution_id ex_completion) = Some r \<and>
     holder (ledger_of r) = Some a \<and> ticket_names ex_completion a \<and> state r \<in> committable"
  using complete_allow_iff [OF ex_reachable_runs(3), of ex_completion "''t1''"] ex_complete_allowed by blast

text \<open>C2: Fencing. Once an execution has a newer attempt, a completion carrying the ownership
  generation of an older one is never allowed again, in any continuation of the run, and leaves the
  engine as it is; this holds as long as fewer than \<open>2 ^ 64 - 2\<close> attempts were made, the range of
  the saturating counter.\<close>
theorem fenced_ticket_never_commits:
  assumes "engine_reachable eng" and r: "find_record eng i = Some r"
    and k: "k + 1 < length (attempts r)"
    and t: "ct_execution_id t = i" "ct_ownership_generation t = at_ownership_generation (attempts r ! k)"
    and run: "engine_run eng es = Some eng'" and r': "find_record eng' i = Some r'"
    and bound: "length (attempts r') < 2 ^ 64 - 2"
  shows "code (fst (complete eng' t now)) \<noteq> ALLOW \<and> snd (complete eng' t now) = eng'"
proof -
  have wf: "engine_wf eng" "record_wf r" using assms(1) r by (auto dest: reachable_wf find_record_wf)
  obtain q where q: "find_record eng' i = Some q" "record_advances r q" "record_wf q"
    using run_record [OF wf(1) run [unfolded engine_run_steps] r] by blast
  have len: "length (attempts r) \<le> length (attempts r')" using q(1,2) r' record_advances_attempts by simp
  have own: "gen_nat (ownership_generation r') = sat64 (length (attempts r') + 1)"
    using q r' len k by (intro record_ownership) auto
  have "gen_nat (ct_ownership_generation t) = sat64 (k + 2)"
    using t(2) k attempt_ownership [OF wf(2)] by simp
  moreover have "sat64 (k + 2) \<noteq> sat64 (length (attempts r') + 1)"
    using k len bound sat64_less [of "k + 2" "length (attempts r') + 1"] by simp
  ultimately have "ct_ownership_generation t \<noteq> ownership_generation r'" using own by metis
  then have "\<not> completion_admitted (eng_epoch eng') t r'"
    by (simp add: completion_admitted_def validate_ticket_allow)
  with complete_unchanged [of eng' t r' now] r' t(1) show ?thesis by simp
qed

theorem fenced_ticket_never_commits_witness:
  "code (fst (complete (ex_engine ex_resuming) ex_completion ''t9'')) \<noteq> ALLOW \<and>
   snd (complete (ex_engine ex_resuming) ex_completion ''t9'') = ex_engine ex_resuming"
proof (rule fenced_ticket_never_commits [OF ex_reachable_runs(4) ex_find_runs(4), of 0 _ "[]"])
  show "0 + 1 < length (attempts (ex_record ex_resuming))"
    and "ct_execution_id ex_completion = ex_exec"
    and "ct_ownership_generation ex_completion = at_ownership_generation (attempts (ex_record ex_resuming) ! 0)"
    by code_simp+
  have "length (attempts (ex_record ex_resuming)) = 2" by code_simp
  then show "length (attempts (ex_record ex_resuming)) < 2 ^ 64 - 2" by simp
qed (simp_all add: ex_find_runs)

text \<open>C5: Refinement. Every engine operation acts on the ledger of an execution as one of the
  abstract actions its event may take, or leaves it unchanged: only a completion whose ticket names
  the holder commits, only dispatch and resume grant authority, and a closed ledger takes no action.\<close>
theorem engine_refines_ledger:
  assumes "engine_reachable eng" "engine_call eng ev = Inr (d, eng')" "find_record eng i = Some r"
  shows "\<exists>r'. find_record eng' i = Some r' \<and>
     (ledger_of r' = ledger_of r \<or>
      event_target ev = Some i \<and>
      (\<exists>act. event_action ev act \<and> ledger_step (ledger_of r) act (ledger_of r')))"
  using refines_record_effect [of r ev "eng_epoch eng"] find_record_wf [OF reachable_wf [OF assms(1)] assms(3)]
    engine_call_records [OF assms(2), of i] assms(3)
  by (auto simp: refines_def)

theorem engine_refines_ledger_witness:
  "\<exists>r'. find_record (snd (complete (ex_engine ex_running) ex_completion ''t1'')) ex_exec = Some r' \<and>
     (ledger_of r' = ledger_of (ex_record ex_running) \<or>
      event_target (Complete ex_completion ''t1'') = Some ex_exec \<and>
      (\<exists>act. event_action (Complete ex_completion ''t1'') act \<and>
         ledger_step (ledger_of (ex_record ex_running)) act (ledger_of r')))"
  by (rule engine_refines_ledger [OF ex_reachable_runs(3) _ ex_find_runs(3)]) (simp add: prod_eq_iff)

text \<open>C6: At most one commit. After a completion was allowed, and whatever runs afterwards in the same
  epoch, the same ticket is recognised as a duplicate and a ticket with another digest as a conflict;
  neither changes the engine.\<close>
theorem commit_at_most_once:
  assumes reach: "engine_reachable eng" and c: "complete eng t now = (d, eng1)" "code d = ALLOW"
    and run: "engine_run eng1 es = Some eng2" and ep: "eng_epoch eng2 = eng_epoch eng1"
  shows "code (fst (complete eng2 t now')) = REJECT_ALREADY_COMMITTED \<and> snd (complete eng2 t now') = eng2 \<and>
    (dg \<noteq> ct_result_digest t \<longrightarrow>
      code (fst (complete eng2 (t\<lparr>ct_result_digest := dg\<rparr>) now')) = REJECT_CONFLICTING_COMPLETION \<and>
      snd (complete eng2 (t\<lparr>ct_result_digest := dg\<rparr>) now') = eng2)"
proof -
  let ?i = "ct_execution_id t"
  obtain r where r: "find_record eng ?i = Some r" "completion_admitted (eng_epoch eng) t r" and
      eng1: "eng1 = store_record ?i (r\<lparr>attempts := complete_attempt (ct_attempt_id t) (ct_result_digest t) (attempts r),
         committed_digest := Some (ct_result_digest t), commit_generation := gen_next (commit_generation r), committed_at := now,
         state := COMMITTED\<rparr>) eng" (is "eng1 = store_record ?i ?r eng")
    using complete_allow_record [of eng t now] c by auto
  have reach1: "engine_reachable eng1"
    using reach c by (auto intro!: reach_step [of eng "Complete t now"] simp: engine_step_def)
  have r2: "find_record eng2 ?i = Some ?r"
    using run_record [OF reachable_wf [OF reach1] run [unfolded engine_run_steps], of ?i ?r] eng1
    by (auto simp: record_advances_def is_terminal_iff)
  have v: "code (validate_ticket (eng_epoch eng2) ?r (t\<lparr>ct_result_digest := g\<rparr>)) = ALLOW" for g
    using r(2) ep eng1 by (intro validate_ticket_frame [of _ r]) (simp_all add: completion_admitted_def)
  have hr: "has_result t" using r(2) by (simp add: completion_admitted_def)
  have "code (fst (complete eng2 t now')) = REJECT_ALREADY_COMMITTED \<and> snd (complete eng2 t now') = eng2"
    using complete_committed [OF r2 _ v [of "ct_result_digest t", simplified]] hr by simp
  moreover have "dg \<noteq> ct_result_digest t \<Longrightarrow>
      code (fst (complete eng2 (t\<lparr>ct_result_digest := dg\<rparr>) now')) = REJECT_CONFLICTING_COMPLETION \<and>
      snd (complete eng2 (t\<lparr>ct_result_digest := dg\<rparr>) now') = eng2"
    using complete_committed [OF _ _ v [of dg], of now'] r2 by simp
  ultimately show ?thesis by blast
qed

theorem commit_at_most_once_witness:
  "code (fst (complete (snd (complete (ex_engine ex_running) ex_completion ''t1'')) ex_completion ''t2'')) =
     REJECT_ALREADY_COMMITTED"
  by (rule conjunct1 [OF commit_at_most_once [OF ex_reachable_runs(3) prod.collapse [symmetric] ex_complete_allowed, of "[]"]])
    (rule engine_run.simps(1), rule refl)

text \<open>C9: Provenance of a commit. If a record is committed after some run from a fresh engine, then the
  run contains a completion of that execution which was made in a committable state by a ticket naming
  the attempt that held authority at that moment, and the committed digest is the one it carried.\<close>
theorem commit_provenance:
  assumes "engine_run (ExecutionEngine e0) es = Some eng" "find_record eng i = Some r" "state r = COMMITTED"
  shows "\<exists>es1 t now es2 eng1 r1.
     es = es1 @ Complete t now # es2 \<and> engine_run (ExecutionEngine e0) es1 = Some eng1 \<and>
     ct_execution_id t = i \<and> find_record eng1 i = Some r1 \<and> state r1 \<in> committable \<and>
     holder (ledger_of r1) \<noteq> None \<and> ticket_names t (the (holder (ledger_of r1))) \<and>
     committed_digest r = Some (ct_result_digest t)"
  using assms
proof (induction es arbitrary: eng r rule: rev_induct)
  case Nil
  then show ?case by (auto simp: ExecutionEngine_def find_record_def)
next
  case (snoc ev es)
  then obtain eng1 d where run: "engine_run (ExecutionEngine e0) es = Some eng1"
      and call: "engine_call eng1 ev = Inr (d, eng)"
    by (auto simp: engine_run_append split: option.splits sum.splits)
  have wf: "engine_wf eng1" using run engine_run_reachable reachable_wf by blast
  have "find_record eng1 i \<noteq> None"
    using engine_call_records [OF call, of i] snoc.prems(2,3)
    by (cases "find_record eng1 i") (auto split: if_splits engine_event.splits)
  then obtain r1 where r1: "find_record eng1 i = Some r1" by auto
  show ?case
  proof (cases "state r1 = COMMITTED")
    case True
    then have "r = r1"
      using engine_advances_find [OF engine_call_advances [OF call wf] r1 snoc.prems(2)]
      by (simp add: record_advances_def is_terminal_iff)
    with snoc.IH [OF run r1 True] show ?thesis by force
  next
    case False
    from commit_step [OF wf call r1 False snoc.prems(2,3)] run r1 show ?thesis by (metis append_Cons append_Nil)
  qed
qed

theorem commit_provenance_witness:
  "\<exists>es1 t now es2 eng1 r1. ex_running @ [Complete ex_completion ''t1''] = es1 @ Complete t now # es2 \<and>
     engine_run (ExecutionEngine (Gen 1)) es1 = Some eng1 \<and> find_record eng1 ex_exec = Some r1 \<and> state r1 \<in> committable"
proof -
  let ?es = "ex_running @ [Complete ex_completion ''t1'']"
  have "engine_run (ExecutionEngine (Gen 1)) ?es = Some (ex_engine ?es)"
    unfolding ex_engine_def by (rule option.collapse [symmetric]) code_simp
  moreover have "find_record (ex_engine ?es) ex_exec = Some (ex_record ?es)" by (rule ex_found) code_simp
  moreover have "state (ex_record ?es) = COMMITTED" by code_simp
  ultimately show ?thesis using commit_provenance [of "Gen 1" ?es "ex_engine ?es" ex_exec "ex_record ?es"] by blast
qed

text \<open>C10: A record in a terminal state (committed, failed, cancelled, superseded) is never changed again,
  by any sequence of engine operations.\<close>
theorem terminal_records_never_change:
  assumes "engine_reachable eng" "find_record eng i = Some r" "ExecutionStateMachine_is_terminal (state r)"
    and "engine_run eng es = Some eng'"
  shows "find_record eng' i = Some r"
  by (rule terminal_find_run [OF assms])

theorem terminal_records_never_change_witness:
  "find_record (ex_engine (ex_running @ [Complete ex_completion ''t1'', Cancel ex_request])) ex_exec =
     Some (ex_record (ex_running @ [Complete ex_completion ''t1'']))"
proof -
  let ?es = "ex_running @ [Complete ex_completion ''t1'']"
  have "find_record (ex_engine (?es @ [Cancel ex_request])) ex_exec = Some (ex_record ?es)"
  proof (rule terminal_records_never_change)
    show "engine_reachable (ex_engine ?es)" by (rule ex_reachable) code_simp
    show "find_record (ex_engine ?es) ex_exec = Some (ex_record ?es)" by (rule ex_found) code_simp
    show "ExecutionStateMachine_is_terminal (state (ex_record ?es))" by code_simp
    show "engine_run (ex_engine ?es) [Cancel ex_request] = Some (ex_engine (?es @ [Cancel ex_request]))"
      by (rule ex_run_append) code_simp
  qed
  then show ?thesis by simp
qed

text \<open>C18: Well-formedness. In every reachable engine the identities are distinct keys and every record
  is well-formed: the current-authority fields are empty or name the last attempt with its owner and
  generations, the \<open>i\<close>-th attempt has ownership and fence generation \<open>i + 2\<close>, a digest and commit
  generation 1 are present exactly in COMMITTED, and the states that need an owner have one.\<close>
theorem reachable_engines_well_formed:
  assumes "engine_reachable eng"
  shows "engine_wf eng"
  by (rule reachable_wf [OF assms])

theorem reachable_engines_well_formed_witness: "engine_wf (ex_engine ex_resuming)"
  by (rule reachable_engines_well_formed [OF ex_reachable_runs(4)])



section \<open>Granting authority\<close>

text \<open>C20: An authorised dispatch appends one attempt for the requested worker and boot, makes it the holder
  of authority, advances the ownership and fence generations, and issues a ticket that names exactly
  this attempt under the engine's epoch.\<close>
theorem dispatch_grants_authority:
  assumes reach: "engine_reachable eng" and disp: "dispatch eng i w b e ra rd tk0 = Inr (d, tk, eng')" and ok: "code d = ALLOW"
  shows "\<exists>r r' a.
     find_record eng i = Some r \<and> find_record eng' i = Some r' \<and>
     cores r' = cores r @ [a] \<and> holder (ledger_of r') = Some a \<and> state r' = ExecutionState.DISPATCHED \<and>
     at_worker_id a = w \<and> at_worker_boot_id a = b \<and>
     ownership_generation r' = gen_next (ownership_generation r) \<and>
     fence_generation r' = gen_next (fence_generation r) \<and>
     dt_epoch tk = eng_epoch eng' \<and> dt_execution_id tk = i \<and>
     dt_execution_generation tk = generation r' \<and> ticket_names (completion_ticket_of tk dg) a"
proof -
  obtain r r' at where g: "find_record eng i = Some r" "\<not> e < eng_epoch eng" "\<not> e < coordinator_epoch r"
    "state r \<in> {READY, ExecutionState.DISPATCHED, ExecutionState.RUNNING, AMBIGUOUS}"
    "at = new_attempt (supersede_current r) w b ra rd"
    "r' = (install_attempt at (supersede_current r))\<lparr>state := ExecutionState.DISPATCHED\<rparr>"
    "tk = issue_ticket e r' at" "eng' = store_record i r' (adopt_epoch e eng)"
    using dispatch_granted [OF disp ok] by metis
  have "rec_id r = i" using find_record_wf [OF reachable_wf [OF reach] g(1)] by simp
  moreover have "max e (eng_epoch eng) = e" using g(2) by (simp add: max_def)
  moreover have "cores r' = cores r @ [at_core at]" by (simp add: g(6))
  moreover have "at_worker_id at = w" "at_worker_boot_id at = b" 
    "at_ownership_generation at = gen_next (ownership_generation r)" "at_fence_generation at = gen_next (fence_generation r)"
    by (simp_all add: g(5) new_attempt_def)
  ultimately show ?thesis using g(1) unfolding g(7,8)
    by (intro exI [of _ r] exI [of _ r'] exI [of _ "at_core at"])
      (simp add: g(6) install_attempt_def issue_ticket_def ticket_names_def completion_ticket_of_def ledger_of_def)
qed

theorem dispatch_grants_authority_witness:
  "\<exists>r' a. find_record (ex_engine ex_dispatched) ex_exec = Some r' \<and> holder (ledger_of r') = Some a \<and>
     ticket_names (completion_ticket_of (ex_ticket ex_ready 1) ex_digest) a"
proof -
  let ?d = "dispatch (ex_engine ex_ready) ex_exec (ex_worker 1) (ex_boot 1) (Gen 1) (4, 1) (5, 1) DispatchTicket_init"
  obtain d tk eng' where d: "?d = Inr (d, tk, eng')"
    using ex_find_runs(1)
    by (cases ?d) (auto simp: dispatch_def require_def Let_def split_beta split: if_splits)
  have "code (fst (projr ?d)) = ALLOW" by code_simp
  then have "code d = ALLOW" by (simp add: d)
  moreover have "engine_run (ExecutionEngine (Gen 1)) ex_ready \<noteq> None" by code_simp
  then have "ex_engine ex_dispatched = eng'"
    using d by (auto simp: ex_engine_def ex_dispatched_def engine_run_append ex_dispatch_def)
  moreover have "ex_ticket ex_ready 1 = tk" by (simp add: ex_ticket_def d)
  ultimately show ?thesis using dispatch_grants_authority [OF ex_reachable_runs(1) d, of ex_digest] by auto
qed

text \<open>C21: Preemption and resume. A running execution whose owner asks for preemption goes through
  PREEMPTED and RESUMABLE; the resume with the next resume generation is authorised, and its ticket
  starts a fresh attempt of the new worker, which then holds authority.\<close>
theorem preempt_resume_cycle:
  assumes reach: "engine_reachable eng" and r: "find_record eng i = Some r" and st: "state r = ExecutionState.RUNNING"
    and e: "coordinator_epoch r = eng_epoch eng"
    and req: "req_execution_id req = i" "req_epoch req = eng_epoch eng" "authority_generation req = ownership_generation r"
  shows "\<exists>eng1 d tk eng2 d' eng3 r' a.
     engine_run eng [Preempt req, AcknowledgePreempt i (eng_epoch eng), MarkResumable i (eng_epoch eng)] = Some eng1 \<and>
     resume eng1 i w b (eng_epoch eng) (gen_next (resume_generation r)) ra rd tk0 = (d, tk, eng2) \<and> code d = RESUME_ALLOWED \<and>
     mark_running eng2 (start_ticket_of tk) = (d', eng3) \<and> code d' = ALLOW \<and>
     find_record eng3 i = Some r' \<and> state r' = ExecutionState.RUNNING \<and>
     cores r' = cores r @ [a] \<and> holder (ledger_of r') = Some a \<and>
     at_worker_id a = w \<and> at_worker_boot_id a = b \<and> ticket_names (completion_ticket_of tk dg) a"
proof -
  define q where "q = r\<lparr>preemption_generation := gen_next (preemption_generation r),
     attempts := mark_current AttemptState.PREEMPTED (current_attempt_id r) (attempts r), state := RESUMABLE\<rparr>"
  let ?eng1 = "store_record i q eng"
  have run: "engine_run eng [Preempt req, AcknowledgePreempt i (eng_epoch eng), MarkResumable i (eng_epoch eng)] = Some ?eng1"
    unfolding q_def by (rule preempted_to_resumable [OF r st e req])
  have q: "rec_id q = i" "state q = RESUMABLE" "coordinator_epoch q = eng_epoch eng"
      "resume_generation q = resume_generation r"
    using find_record_wf [OF reachable_wf [OF reach] r] e by (simp_all add: q_def)
  have cs: "cores q = cores r" by (simp add: q_def cores_def)
  obtain d p at where p: "resume ?eng1 i w b (eng_epoch eng) (gen_next (resume_generation r)) ra rd tk0 =
       (d, issue_ticket (eng_epoch eng) p at, store_record i p ?eng1)"
    "code d = RESUME_ALLOWED" "state p = RESUMING" "rec_id p = i" "cores p = cores r @ [at_core at]"
    "at_worker_id at = w" "at_worker_boot_id at = b"
    "current_attempt_id p = Some (at_id at)" "current_attempt_generation p = Some (at_generation at)"
    "owner_worker p = Some (at_worker_id at)" "owner_worker_boot p = Some (at_worker_boot_id at)"
    "ownership_generation p = at_ownership_generation at" "fence_generation p = at_fence_generation at"
    using resume_granted [of ?eng1 i q w b ra rd tk0] by (simp add: q cs) metis
  let ?tk = "issue_ticket (eng_epoch eng) p at"
  obtain d' r' where "mark_running (store_record i p ?eng1) (start_ticket_of ?tk) =
       (d', store_record i r' (store_record i p ?eng1))" "code d' = ALLOW" "state r' = ExecutionState.RUNNING"
     "cores r' = cores r @ [at_core at]" "holder (ledger_of r') = Some (at_core at)"
     "ticket_names (completion_ticket_of ?tk dg) (at_core at)"
    by (rule started_attempt [of "store_record i p ?eng1" i p at "cores r" ?tk dg]) (use p in simp_all)
  moreover have "find_record (store_record i r' (store_record i p ?eng1)) i = Some r'" by simp
  moreover have "at_worker_id (at_core at) = w" "at_worker_boot_id (at_core at) = b" using p by simp_all
  ultimately show ?thesis using run p(1,2) by blast
qed

theorem preempt_resume_cycle_witness:
  "\<exists>eng1 d tk eng2. engine_run (ex_engine ex_running) [Preempt ex_request,
       AcknowledgePreempt ex_exec (eng_epoch (ex_engine ex_running)), MarkResumable ex_exec (eng_epoch (ex_engine ex_running))] = Some eng1 \<and>
     resume eng1 ex_exec (ex_worker 2) (ex_boot 2) (eng_epoch (ex_engine ex_running))
       (gen_next (resume_generation (ex_record ex_running))) (4, 2) (5, 2) DispatchTicket_init = (d, tk, eng2) \<and>
     code d = RESUME_ALLOWED"
proof -
  have "state (ex_record ex_running) = ExecutionState.RUNNING"
    "coordinator_epoch (ex_record ex_running) = eng_epoch (ex_engine ex_running)" "req_execution_id ex_request = ex_exec"
    "req_epoch ex_request = eng_epoch (ex_engine ex_running)"
    "authority_generation ex_request = ownership_generation (ex_record ex_running)"
    by code_simp+
  from preempt_resume_cycle [OF ex_reachable_runs(3) ex_find_runs(3) this] show ?thesis by blast
qed

section \<open>Losing authority\<close>

text \<open>C28: Worker loss, on every branch. When the owner is reported lost the attempt history is kept and the
  execution becomes READY from DISPATCHED, AMBIGUOUS from RUNNING, CANCELLED or PREEMPTED when that was
  requested; otherwise it stays as it is and the report is deferred or refused.\<close>
theorem worker_loss_outcome:
  assumes reach: "engine_reachable eng" and r: "find_record eng i = Some r" and e: "eng_epoch eng \<le> e"
    and own: "owner_worker r = Some w" "owner_worker_boot r = Some b"
  shows "\<exists>d eng' r'. mark_worker_lost eng i w b e = (d, eng') \<and> find_record eng' i = Some r' \<and>
     cores r' = cores r \<and>
     (code d, state r') =
       (case state r of
          ExecutionState.DISPATCHED \<Rightarrow> (ALLOW, READY)
        | ExecutionState.RUNNING \<Rightarrow> (ALLOW, AMBIGUOUS)
        | CANCELLATION_REQUESTED \<Rightarrow> (ALLOW, ExecutionState.CANCELLED)
        | PREEMPTION_REQUESTED \<Rightarrow> (ALLOW, ExecutionState.PREEMPTED)
        | s \<Rightarrow> (if ExecutionStateMachine_is_terminal s then REJECT_ALREADY_TERMINAL else DEFER, s))"
proof -
  have "\<not> e < eng_epoch eng" "\<not> e < coordinator_epoch r"
    using e find_record_wf [OF reachable_wf [OF reach] r] by auto
  then show ?thesis using r own
    by (cases "state r") (simp_all add: mark_worker_lost_def on_record_def mark_worker_lost_rec_def Let_def split_beta is_terminal_iff)
qed

theorem worker_loss_outcome_witness:
  "\<exists>d eng' r'. mark_worker_lost (ex_engine ex_running) ex_exec (ex_worker 1) (ex_boot 1) (Gen 1) = (d, eng') \<and>
     find_record eng' ex_exec = Some r' \<and> state r' = AMBIGUOUS"
proof -
  have "state (ex_record ex_running) = ExecutionState.RUNNING" "eng_epoch (ex_engine ex_running) \<le> Gen 1"
    "owner_worker (ex_record ex_running) = Some (ex_worker 1)" "owner_worker_boot (ex_record ex_running) = Some (ex_boot 1)"
    by code_simp+
  with worker_loss_outcome [OF ex_reachable_runs(3) ex_find_runs(3), of "Gen 1" "ex_worker 1" "ex_boot 1"]
  show ?thesis by auto
qed

text \<open>C29: Cancellation, on every branch, for a request that carries the current epoch and ownership
  generation. The cancellation generation advances even when the request is refused because the
  execution is preempted, resumable, resuming or ambiguous.\<close>
theorem cancel_outcome:
  assumes r: "find_record eng (req_execution_id req) = Some r" and e: "coordinator_epoch r = eng_epoch eng" "req_epoch req = eng_epoch eng"
    and auth: "authority_generation req = ownership_generation r"
  shows "\<exists>d eng' r'. cancel eng req = (d, eng') \<and> find_record eng' (req_execution_id req) = Some r' \<and>
     cores r' = cores r \<and>
     (code d, state r') =
       (if ExecutionStateMachine_is_terminal (state r) then (REJECT_ALREADY_TERMINAL, state r)
        else if state r = ExecutionState.CREATED then (ALLOW, ExecutionState.CANCELLED)
        else if state r \<in> {READY, ExecutionState.DISPATCHED, ExecutionState.RUNNING, CANCELLATION_REQUESTED}
        then (ALLOW, CANCELLATION_REQUESTED)
        else (REJECT_NOT_OWNER, state r)) \<and>
     cancellation_generation r' =
       (if ExecutionStateMachine_is_terminal (state r) \<or> state r = CANCELLATION_REQUESTED then cancellation_generation r
        else gen_next (cancellation_generation r))"
  using assms by (cases "state r") (simp_all add: cancel_def on_record_def cancel_rec_def Let_def split_beta is_terminal_iff)

theorem cancel_outcome_witness:
  "\<exists>d eng' r'. cancel (ex_engine ex_running) ex_request = (d, eng') \<and> code d = ALLOW \<and>
     find_record eng' (req_execution_id ex_request) = Some r' \<and> state r' = CANCELLATION_REQUESTED"
proof -
  have "state (ex_record ex_running) = ExecutionState.RUNNING" "req_execution_id ex_request = ex_exec"
    "coordinator_epoch (ex_record ex_running) = eng_epoch (ex_engine ex_running)"
    "req_epoch ex_request = eng_epoch (ex_engine ex_running)"
    "authority_generation ex_request = ownership_generation (ex_record ex_running)"
    by code_simp+
  with cancel_outcome [of "ex_engine ex_running" ex_request "ex_record ex_running"] ex_find_runs(3)
  show ?thesis by (auto simp: is_terminal_iff)
qed

text \<open>C30: Supersession, on every branch. An authorised caller always advances the execution generation,
  marks the current attempt SUPERSEDED when it is dispatched, running or preempted, and clears all four
  authority fields (attempt, its generation, worker, boot); nothing else of the record changes but
  the state, which becomes SUPERSEDED from READY, DISPATCHED, RUNNING and AMBIGUOUS. From the other
  open states the call reports a rejection after these changes.\<close>
theorem supersede_outcome:
  assumes r: "find_record eng i = Some r" and e: "e = eng_epoch eng" "coordinator_epoch r = e"
    and st: "\<not> ExecutionStateMachine_is_terminal (state r)"
  shows "\<exists>d eng' to. supersede eng i e = (d, eng') \<and>
     find_record eng' i = Some (r
       \<lparr>generation := gen_next (generation r), state := to,
        current_attempt_id := None, current_attempt_generation := None, owner_worker := None, owner_worker_boot := None,
        attempts := map (\<lambda>at. if Some (at_id at) = current_attempt_id r \<and>
             at_state at \<in> {AttemptState.DISPATCHED, AttemptState.RUNNING, AttemptState.PREEMPTED}
           then at\<lparr>at_state := AttemptState.SUPERSEDED\<rparr> else at) (attempts r)\<rparr>) \<and>
     (if state r \<in> {READY, ExecutionState.DISPATCHED, ExecutionState.RUNNING, AMBIGUOUS}
      then code d = ALLOW \<and> to = ExecutionState.SUPERSEDED
      else code d = REJECT_ALREADY_TERMINAL \<and> to = state r)"
proof -
  have mark: "mark_current AttemptState.SUPERSEDED cur ats =
      map (\<lambda>at. if Some (at_id at) = cur \<and> at_state at \<in> {AttemptState.DISPATCHED, AttemptState.RUNNING, AttemptState.PREEMPTED}
         then at\<lparr>at_state := AttemptState.SUPERSEDED\<rparr> else at) ats" for cur ats
  proof -
    have "(if Some (at_id at) = cur \<and> \<not> AttemptStateMachine_is_terminal (at_state at)
        then snd (transition_attempt at AttemptState.SUPERSEDED) else at) =
      (if Some (at_id at) = cur \<and> at_state at \<in> {AttemptState.DISPATCHED, AttemptState.RUNNING, AttemptState.PREEMPTED}
        then at\<lparr>at_state := AttemptState.SUPERSEDED\<rparr> else at)" for at
      by (cases "at_state at") (simp_all add: transition_attempt_def AttemptStateMachine_is_terminal_def)
    then show ?thesis by (simp add: mark_current_def)
  qed
  show ?thesis using r e st
    by (cases "state r") (simp_all add: supersede_def on_record_def supersede_rec_def transition_def mark Let_def is_terminal_iff)
qed

theorem supersede_outcome_witness:
  "\<exists>d eng' r'. supersede (ex_engine ex_resuming) ex_exec (Gen 1) = (d, eng') \<and> code d = REJECT_ALREADY_TERMINAL \<and>
     find_record eng' ex_exec = Some r' \<and> current_attempt_id r' = None \<and> state r' = RESUMING"
proof -
  have "state (ex_record ex_resuming) = RESUMING" "Gen 1 = eng_epoch (ex_engine ex_resuming)"
    "coordinator_epoch (ex_record ex_resuming) = Gen 1" by code_simp+
  with supersede_outcome [OF ex_find_runs(4), of "Gen 1"] show ?thesis by (fastforce simp: is_terminal_iff)
qed

text \<open>C31: A dispatch of an execution in RESUMING is refused, yet it has already installed a new attempt for
  the requested worker and moved authority to it, while no ticket is issued for it.\<close>
theorem resuming_dispatch_mutates:
  assumes r: "find_record eng i = Some r" and st: "state r = RESUMING" and e: "eng_epoch eng \<le> e" "coordinator_epoch r \<le> e"
  shows "\<exists>d eng' r'. dispatch eng i w b e ra rd tk0 = Inr (d, tk0, eng') \<and> code d = REJECT_ALREADY_TERMINAL \<and>
     find_record eng' i = Some r' \<and> state r' = RESUMING \<and>
     owner_worker r' = Some w \<and> owner_worker_boot r' = Some b \<and>
     current_attempt_id r' = Some (id_random ra) \<and> length (attempts r') = Suc (length (attempts r))"
proof -
  have none: "dispatch_refusal r = None" using st by (simp add: dispatch_refusal_iff)
  have len: "length (attempts (supersede_current r)) = length (attempts r)"
    by (simp add: supersede_current_def supersede_attempt_def split: option.split)
  have e': "\<not> e < eng_epoch eng" "\<not> e < coordinator_epoch r" using e by simp_all
  show ?thesis
    by (simp add: dispatch_on_record [OF r e'] dispatch_rec_def none Let_def split_beta st)
       (simp add: install_attempt_def new_attempt_def st len)
qed

theorem resuming_dispatch_mutates_witness:
  "\<exists>d eng' r'. dispatch (ex_engine ex_resuming) ex_exec (ex_worker 3) (ex_boot 3) (Gen 1) (4, 3) (5, 3) DispatchTicket_init =
       Inr (d, DispatchTicket_init, eng') \<and> code d = REJECT_ALREADY_TERMINAL \<and>
     find_record eng' ex_exec = Some r' \<and> owner_worker r' = Some (ex_worker 3)"
proof -
  have "state (ex_record ex_resuming) = RESUMING" "eng_epoch (ex_engine ex_resuming) \<le> Gen 1"
    "coordinator_epoch (ex_record ex_resuming) \<le> Gen 1" by code_simp+
  with resuming_dispatch_mutates [OF ex_find_runs(4)] show ?thesis by blast
qed

text \<open>The only way out of RESUMING is an accepted start of the resumed attempt: no other operation
  (cancel, supersede, worker loss, dispatch) changes the state of a resuming execution.\<close>
theorem resuming_exit:
  assumes "engine_reachable eng" and r: "find_record eng i = Some r" and st: "state r = RESUMING"
    and call: "engine_call eng ev = Inr (d, eng')" and r': "find_record eng' i = Some r'" and ch: "state r' \<noteq> RESUMING"
  shows "state r' = ExecutionState.RUNNING \<and> (\<exists>t. ev = MarkRunning t \<and> code (validate_start (eng_epoch eng) r t) = ALLOW)"
proof -
  have eff: "r' = record_effect (eng_epoch eng) ev r" 
    using engine_call_records [OF call, of i] r r' st ch by (auto split: if_splits)
  show ?thesis
  proof (cases ev)
    case (Dispatch j w b e ra rd)
    then show ?thesis using eff st ch
      by (auto simp: dispatch_rec_def Let_def split_beta dispatch_refusal_iff split: option.splits if_splits)
  qed (use eff st ch in \<open>auto simp: rec_ops Let_def split_beta is_terminal_iff split: if_splits\<close>)
qed

theorem resuming_exit_witness:
  "\<exists>t. ex_start_resumed = MarkRunning t \<and> code (validate_start (Gen 1) (ex_record ex_resuming) t) = ALLOW"
proof -
  let ?es = "ex_resuming @ [ex_start_resumed]"
  let ?c = "engine_call (ex_engine ex_resuming) ex_start_resumed"
  have "find_record (snd (projr ?c)) ex_exec = Some (the (find_record (snd (projr ?c)) ex_exec))"
    by (rule option.collapse [symmetric]) code_simp
  moreover have "?c = Inr (fst (projr ?c), snd (projr ?c))" by (simp add: ex_start_resumed_def)
  moreover have "state (ex_record ex_resuming) = RESUMING"
      "state (the (find_record (snd (projr ?c)) ex_exec)) \<noteq> RESUMING" "eng_epoch (ex_engine ex_resuming) = Gen 1"
    by code_simp+
  ultimately show ?thesis using resuming_exit [OF ex_reachable_runs(4) ex_find_runs(4)] by metis
qed

text \<open>C32: After the engine has moved to a later epoch, an execution created under an earlier one is stuck:
  in every continuation its completion is refused, and cancel, preempt, resume and supersede are
  rejected as stale, all without effect.\<close>
theorem epoch_change_blocks_commit:
  assumes reach: "engine_reachable eng" and r: "find_record eng i = Some r" and old: "coordinator_epoch r < eng_epoch eng"
    and run: "engine_run eng es = Some eng'" and t: "ct_execution_id t = i" and req: "req_execution_id req = i"
  shows "code (fst (complete eng' t now)) \<noteq> ALLOW \<and> snd (complete eng' t now) = eng' \<and>
     code (fst (cancel eng' req)) = REJECT_STALE_EPOCH \<and> snd (cancel eng' req) = eng' \<and>
     code (fst (preempt eng' req)) = REJECT_STALE_EPOCH \<and> snd (preempt eng' req) = eng' \<and>
     code (fst (resume eng' i w b e g ra rd tk)) = REJECT_STALE_EPOCH \<and> snd (resume eng' i w b e g ra rd tk) = (tk, eng') \<and>
     code (fst (supersede eng' i e)) = REJECT_STALE_EPOCH \<and> snd (supersede eng' i e) = eng'"
proof -
  obtain r' where r': "find_record eng' i = Some r'" "coordinator_epoch r' < eng_epoch eng'"
    using old_record_run [OF reach r old run] by blast
  then have no: "\<not> completion_admitted (eng_epoch eng') t r'"
    by (auto simp: completion_admitted_def validate_ticket_allow)
  have "code (fst (complete eng' t now)) \<noteq> ALLOW \<and> snd (complete eng' t now) = eng'"
    using complete_unchanged [OF _ no, of now] r' t by simp
  moreover have "code (fst (cancel eng' req)) = REJECT_STALE_EPOCH \<and> snd (cancel eng' req) = eng' \<and>
       code (fst (preempt eng' req)) = REJECT_STALE_EPOCH \<and> snd (preempt eng' req) = eng'"
    using r' req by (auto simp: cancel_def preempt_def on_record_def cancel_rec_def preempt_rec_def store_same)
  moreover have "code (fst (resume eng' i w b e g ra rd tk)) = REJECT_STALE_EPOCH \<and> snd (resume eng' i w b e g ra rd tk) = (tk, eng')"
    using r' by (auto simp: resume_def resume_rec_def store_same)
  moreover have "code (fst (supersede eng' i e)) = REJECT_STALE_EPOCH \<and> snd (supersede eng' i e) = eng'"
    using r' by (auto simp: supersede_def on_record_def supersede_rec_def store_same)
  ultimately show ?thesis by simp
qed

theorem epoch_change_blocks_commit_witness:
  "code (fst (complete (ex_engine (ex_running @ [RaiseEpoch (Gen 2)])) ex_completion ''t1'')) \<noteq> ALLOW"
proof -
  let ?es = "ex_running @ [RaiseEpoch (Gen 2)]"
  have "engine_reachable (ex_engine ?es)" by (rule ex_reachable) code_simp
  moreover have "find_record (ex_engine ?es) ex_exec = Some (ex_record ?es)" by (rule ex_found) code_simp
  moreover have "coordinator_epoch (ex_record ?es) < eng_epoch (ex_engine ?es)" by code_simp
  moreover have "engine_run (ex_engine ?es) [] = Some (ex_engine ?es)" by simp
  moreover have "ct_execution_id ex_completion = ex_exec" "req_execution_id ex_request = ex_exec" by code_simp+
  ultimately show ?thesis using epoch_change_blocks_commit by blast
qed

section \<open>The store of records\<close>

text \<open>C33: The invariants of the randomised property test hold after every run without supersession, for
  every choice of ids, tickets and epochs, as long as the run has fewer than \<open>2 ^ 64\<close> events.\<close>
theorem property_test_invariants:
  assumes run: "engine_run (ExecutionEngine e0) es = Some eng" and free: "list_all (\<lambda>ev. \<not> is_supersede ev) es"
    and len: "length es < 2 ^ 64"
  shows "check_invariants eng"
  by (rule run_check_invariants [OF assms])

theorem property_test_invariants_witness: "check_invariants (ex_engine ex_resuming)"
proof (rule property_test_invariants)
  show "engine_run (ExecutionEngine (Gen 1)) ex_resuming = Some (ex_engine ex_resuming)"
    unfolding ex_engine_def by (rule option.collapse [symmetric]) code_simp
  show "list_all (\<lambda>ev. \<not> is_supersede ev) ex_resuming" by code_simp
  have "length ex_resuming = 8" by code_simp
  then show "length ex_resuming < 2 ^ 64" by simp
qed

end
