(* ===== verification/Store_Properties.thy ===== *)
theory Store_Properties
  imports Recovery Engine_Properties
begin

text \<open>
  The properties of the binary format, the checksum and the snapshot store, and of the engine's
  records in it, each with a worked instance.
\<close>

section \<open>Records of the worked instances\<close>

definition ex_created :: ExecutionRecord where
  "ex_created = created_record ex_exec (Gen 1) ''t0''"

definition ex_store :: file_store where
  "ex_store = FilePersistenceStore ''s''"

definition ex_io :: io_outcome where
  "ex_io = \<lparr>io_write = Write_succeeds, io_remove_error = False, io_rename_error = False\<rparr>"


lemma ex_created_storable: "storable ex_created"
  by (simp add: storable_def fits_record_def ex_created_def created_record_def ExecutionRecord_init_def
      kMaxString_def kMaxCount_def validate_record_def gen_is_set_def check_committed_def check_owner_def
      encode_record_def put_opt_def put_string_def kMaxRecordPayload_def)

lemma ex_created_storable_list: "storable_records [ex_created]"
  by (simp add: storable_records_def ex_created_storable kMaxCount_def)

section \<open>The record format\<close>

text \<open>The cross-field conditions on a record, as a specification.\<close>

definition record_valid :: "ExecutionRecord \<Rightarrow> bool" where
  "record_valid rec \<longleftrightarrow>
     gen_is_set (generation rec) \<and>
     distinct (map at_id (attempts rec)) \<and> distinct (map at_dispatch_id (attempts rec)) \<and>
     (\<forall>at \<in> set (attempts rec). gen_is_set (at_generation at) \<and> gen_is_set (at_dispatch_generation at)) \<and>
     (\<forall>c. current_attempt_id rec = Some c \<longrightarrow>
        (\<exists>at \<in> set (attempts rec). at_id at = c \<and> current_attempt_generation rec = Some (at_generation at))) \<and>
     (state rec = COMMITTED \<longrightarrow> committed_digest rec \<noteq> None \<and> gen_is_set (commit_generation rec)) \<and>
     (state rec \<in> {ExecutionState.DISPATCHED, ExecutionState.RUNNING, RESUMING, CANCELLATION_REQUESTED, PREEMPTION_REQUESTED} \<longrightarrow>
        current_attempt_id rec \<noteq> None \<and> owner_worker rec \<noteq> None \<and> owner_worker_boot rec \<noteq> None)"

lemma check_current_None:
  "distinct (map at_id ats) \<Longrightarrow> check_current c cg found ats = None \<longleftrightarrow>
     cg \<noteq> None \<and> (if found then c \<notin> at_id ` set ats else \<exists>at \<in> set ats. at_id at = c \<and> cg = Some (at_generation at))"
  by (induction ats arbitrary: found) (auto simp: image_iff split: if_splits)

lemma validate_record_iff: "validate_record rec = None \<longleftrightarrow> record_valid rec"
proof -
  have parts: "validate_record rec = None \<longleftrightarrow> gen_is_set (generation rec) \<and> check_attempts {} {} (attempts rec) = None \<and>
      (\<forall>c. current_attempt_id rec = Some c \<longrightarrow> check_current c (current_attempt_generation rec) False (attempts rec) = None) \<and>
      check_committed rec = None \<and> check_owner rec = None"
    by (auto simp: validate_record_def split: option.split)
  have current: "(\<forall>c. current_attempt_id rec = Some c \<longrightarrow> check_current c (current_attempt_generation rec) False (attempts rec) = None) \<longleftrightarrow>
      (\<forall>c. current_attempt_id rec = Some c \<longrightarrow>
        (\<exists>at \<in> set (attempts rec). at_id at = c \<and> current_attempt_generation rec = Some (at_generation at)))"
    if "distinct (map at_id (attempts rec))"
    by (simp add: check_current_None [OF that]) blast
  have rest: "check_committed rec = None \<longleftrightarrow> (state rec = COMMITTED \<longrightarrow> committed_digest rec \<noteq> None \<and> gen_is_set (commit_generation rec))"
    "check_owner rec = None \<longleftrightarrow>
     (state rec \<in> {ExecutionState.DISPATCHED, ExecutionState.RUNNING, RESUMING, CANCELLATION_REQUESTED, PREEMPTION_REQUESTED} \<longrightarrow>
        current_attempt_id rec \<noteq> None \<and> owner_worker rec \<noteq> None \<and> owner_worker_boot rec \<noteq> None)"
    by (simp_all add: check_committed_def check_owner_def) blast+
  show ?thesis unfolding parts rest record_valid_def check_attempts_None using current by blast
qed

text \<open>C26: The decoder admits exactly the valid records. Whatever bytes are decoded, an accepted record
  satisfies every cross-field condition: its generation is set, its attempt and dispatch ids are
  distinct and their generations set, a current attempt is in the history with the same generation,
  a committed record has digest and commit generation, and an active one has attempt, owner and boot.
  And of the records within the size limits the encodings of the valid ones are all accepted.\<close>
theorem decoded_records_are_valid:
  "(decode_record bs = Inr rec \<longrightarrow> record_valid rec) \<and>
   (fits_record rec \<longrightarrow> (decode_record (encode_record rec) = Inr rec \<longleftrightarrow> record_valid rec))"
  using decode_record_valid [of bs rec] decode_record_valid [of "encode_record rec" rec] decode_record_encode [of rec]
  by (auto simp: validate_record_iff)

theorem decoded_records_are_valid_witness:
  "decode_record (encode_record ex_created) = Inr ex_created \<and> record_valid ex_created"
proof -
  have "decode_record (encode_record ex_created) = Inr ex_created"
    using ex_created_storable by (intro decode_record_encode) (simp_all add: storable_def)
  with decoded_records_are_valid [of "encode_record ex_created" ex_created] show ?thesis by simp
qed

section \<open>The snapshot\<close>

text \<open>C11: A save that reports success is what the next load returns, whatever the file system held before,
  provided that the records are in the range of the snapshot format and that no buffered byte was lost
  when the file was closed. Under a failing read the load reports so and returns no records. Without
  the second proviso a save reports success and leaves a truncated file at the path.\<close>
theorem save_then_load:
  assumes "storable_records rs" "flushed io" "save io rs ep st fs = (True, st', fs')"
  shows "load ro ep0 st' fs' =
      (if ro = Read_succeeds then (True, rs, ep, st\<lparr>last_error := []\<rparr>)
       else (False, [], ep0, st\<lparr>last_error := ''load: cannot read file (missing?)''\<rparr>)) \<and>
    (\<exists>fs''. save (io\<lparr>io_write := Flush_stops n\<rparr>) rs ep st fs = (True, st', fs'') \<and> fs'' (path st) = Some (take n (snapshot_bytes rs ep)))"
proof -
  have "load_bytes ep0 (snapshot_bytes rs ep) = Inr (rs, ep)"
    using assms(1) by (intro load_bytes_snapshot) (simp_all add: storable_records_def)
  moreover have "\<not> io_remove_error io" "\<not> io_rename_error io"
    using assms(3) by (auto simp: save_eval split: write_outcome.splits if_splits)
  ultimately show ?thesis
    using save_success [OF assms(3,2)] save_unflushed [of "io\<lparr>io_write := Flush_stops n\<rparr>" n rs ep st fs] by (auto simp: load_def)
qed

theorem save_then_load_witness:
  "\<exists>st' fs'. save ex_io [ex_created] (Gen 3) ex_store Map.empty = (True, st', fs') \<and>
     load Read_succeeds (Gen 0) st' fs' = (True, [ex_created], Gen 3, ex_store\<lparr>last_error := []\<rparr>)"
proof -
  obtain st' fs' where s: "save ex_io [ex_created] (Gen 3) ex_store Map.empty = (True, st', fs')"
    by (simp add: save_eval ex_io_def)
  have "flushed ex_io" by (simp add: flushed_def ex_io_def)
  from save_then_load [OF ex_created_storable_list this s, of Read_succeeds "Gen 0"] s show ?thesis by auto
qed

text \<open>C8: Integrity. Changing any one byte of a snapshot file, in the header, a record, the trailer magic or
  the checksum, makes the load fail: the corruption is never decoded into a plausible state.\<close>
theorem corrupt_byte_is_detected:
  assumes "i < length (snapshot_bytes rs ep)" "b \<noteq> snapshot_bytes rs ep ! i"
  shows "\<exists>e. load_bytes ep0 ((snapshot_bytes rs ep)[i := b]) = Inl e"
  by (rule load_bytes_changed [OF assms])

theorem corrupt_byte_is_detected_witness:
  "\<exists>e. load_bytes (Gen 0) ((snapshot_bytes [] (Gen 3))[12 := 4]) = Inl e"
proof (rule corrupt_byte_is_detected)
  note layout = snapshot_bytes_def snapshot_body_def kMagic_def kFormatVersion_def
  show "12 < length (snapshot_bytes [] (Gen 3))" by (simp add: layout)
  show "4 \<noteq> snapshot_bytes [] (Gen 3) ! 12"
    by (simp add: layout Let_def put_u64_def put_u32_def put_gen_def upt_rec nth_append)
qed

text \<open>C24: The death of the process during a save. In every state that the file system passes through, the
  target path holds its old content or the complete new snapshot, never a torn one; or it is missing,
  in the window between remove and rename, and then the complete new snapshot is in the temporary
  file. This needs that no buffered byte is lost when the temporary file is closed. The window is
  reached by every save that succeeds, and a save that loses bytes at the close does put the torn
  file in place. (The death of the machine is another matter: the code never syncs.)\<close>
theorem save_crash_leaves_no_torn_file:
  "(flushed io \<longrightarrow> (\<forall>fs' \<in> save_states io rs ep st fs.
      fs' (path st) = fs (path st) \<or> fs' (path st) = Some (snapshot_bytes rs ep) \<or>
      (fs' (path st) = None \<and> fs' (path st @ ''.tmp'') = Some (snapshot_bytes rs ep)))) \<and>
   (fst (save io rs ep st fs) \<longrightarrow> (\<exists>fs' \<in> save_states io rs ep st fs. fs' (path st) = None)) \<and>
   (fst (save io rs ep st fs) \<and> io_write io = Flush_stops n \<longrightarrow>
      (\<exists>fs' \<in> save_states io rs ep st fs. fs' (path st) = Some (take n (snapshot_bytes rs ep))))"
proof -
  have "\<exists>fs' \<in> save_states io rs ep st fs. fs' (path st) = None" if "fst (save io rs ep st fs)"
    using that by (auto simp: save_states_def save_eval split: write_outcome.splits if_splits)
  moreover have "\<exists>fs' \<in> save_states io rs ep st fs. fs' (path st) = Some (take n (snapshot_bytes rs ep))"
    if ok: "fst (save io rs ep st fs)" and w: "io_write io = Flush_stops n"
  proof -
    have "\<not> io_remove_error io" "\<not> io_rename_error io"
      using ok by (auto simp: save_eval split: write_outcome.splits if_splits)
    then show ?thesis using save_unflushed [OF w, of rs ep st fs] save_final_state by blast
  qed
  ultimately show ?thesis using save_state_target by blast
qed

theorem save_crash_leaves_no_torn_file_witness:
  "\<exists>fs' \<in> save_states ex_io [ex_created] (Gen 3) ex_store [''s'' \<mapsto> []].
     fs' (path ex_store) = None \<and> fs' (path ex_store @ ''.tmp'') = Some (snapshot_bytes [ex_created] (Gen 3))"
proof -
  have "flushed ex_io" "fst (save ex_io [ex_created] (Gen 3) ex_store [''s'' \<mapsto> []])"
    by (simp_all add: flushed_def ex_io_def save_eval)
  moreover have "path ex_store = ''s''" by (simp add: ex_store_def FilePersistenceStore_def)
  ultimately show ?thesis
    using save_crash_leaves_no_torn_file [of ex_io "[ex_created]" "Gen 3" ex_store "[''s'' \<mapsto> []]"] by fastforce
qed

text \<open>A record of a reachable engine with distinct attempt and dispatch ids is accepted by the decoder's
  validation exactly when, in the states RESUMING, CANCELLATION_REQUESTED and PREEMPTION_REQUESTED, it
  has a current attempt.\<close>
theorem engine_record_valid_iff:
  assumes "engine_reachable eng" "find_record eng i = Some r"
    and "distinct (map at_id (attempts r))" "distinct (map at_dispatch_id (attempts r))"
  shows "validate_record r = None \<longleftrightarrow>
     (state r \<in> {RESUMING, CANCELLATION_REQUESTED, PREEMPTION_REQUESTED} \<longrightarrow> current_attempt_id r \<noteq> None)"
proof -
  have wf: "record_wf r" using find_record_wf [OF reachable_wf [OF assms(1)] assms(2)] by simp
  show ?thesis unfolding record_wf_validate [OF wf assms(3,4)] by (rule record_wf_check_owner [OF wf])
qed

theorem engine_record_valid_iff_witness: "validate_record (ex_record ex_resuming) = None"
proof -
  have "distinct (map at_id (attempts (ex_record ex_resuming)))"
    "distinct (map at_dispatch_id (attempts (ex_record ex_resuming)))"
    "current_attempt_id (ex_record ex_resuming) \<noteq> None" by code_simp+
  then show ?thesis using engine_record_valid_iff [OF ex_reachable_runs(4) ex_find_runs(4)] by blast
qed



section \<open>The checksum\<close>

text \<open>C35: The table-driven checksum computes the bit-by-bit reference: each byte is added to the state and
  followed by eight division steps by the reflected polynomial.\<close>
theorem crc64_is_bitwise_division:
  "crc64 bs = fold (\<lambda>b s. (crc_bit ^^ 8) (s XOR ucast b)) bs (- 1)"
  by (simp add: crc64_def crc_update_def crc_step_bits)

end
