(* ===== verification/System_Properties.thy ===== *)
theory System_Properties
  imports Durability Programs Wire_Properties Store_Properties
begin

text \<open>
  The properties of the coordinator process and of the system it forms with its workers and its
  snapshot file, each with a worked instance.
\<close>

section \<open>The coordinator process\<close>

text \<open>C7: Whatever frames arrive on whatever connections, in whatever interleaving of acceptor, readers and
  decision thread, every run of the coordinator keeps the engine well-formed and never takes a
  record, a generation or an epoch back.\<close>
theorem coordinator_runs_keep_engine:
  assumes "engine_wf (co_engine c)" "steps coordinator_step c acts c'"
  shows "engine_wf (co_engine c') \<and> engine_advances (co_engine c) (co_engine c')"
  using coordinator_runs.inv_steps [OF assms(2,1)] coordinator_runs.advances_steps [OF assms(2,1)] by blast

definition ex_env :: environment where
  "ex_env = \<lparr>env_now = ''t0'', env_attempt_draws = (4, 1), env_dispatch_draws = (5, 1), env_io = ex_io,
     env_junk = replicate 64 0, env_uninit = 0\<rparr>"

definition ex_coordinator :: "engine_event list \<Rightarrow> coordinator" where
  "ex_coordinator es =
     (coordinator_start (Coordinator Read_succeeds ''s'' (Gen 1) Map.empty))
       \<lparr>co_engine := ex_engine es,
        conns := [(1, ConnEntry\<lparr>ce_conn := True, is_worker := True, ce_worker_id := ex_worker 1, ce_boot := ex_boot 1,
                       active_execution := Some ex_exec\<rparr>)]\<rparr>"

lemma ex_coordinator_engine [simp]: "co_engine (ex_coordinator es) = ex_engine es"
  by (simp add: ex_coordinator_def)

lemma ex_coordinator_store: "\<exists>st. co_store (ex_coordinator es) = Some st \<and> path st = ''s''"
  by (simp add: ex_coordinator_def coordinator_start_def Coordinator_def load_def read_all_def FilePersistenceStore_def Let_def)

theorem coordinator_runs_keep_engine_witness:
  "\<exists>c'. steps coordinator_step (ex_coordinator ex_running) [Connection_ended 1, Decide ex_env] c' \<and> engine_wf (co_engine c')"
proof -
  let ?c = "ex_coordinator ex_running"
  let ?c1 = "enqueue (closed_marker 1) ?c"
  have "co_queue ?c1 = [closed_marker 1]"
    by (simp add: enqueue_def ex_coordinator_def coordinator_start_def Coordinator_def load_def read_all_def Let_def)
  then have "coordinator_step ?c1 (Decide ex_env) (on_conn_closed ex_env 1 (?c1\<lparr>co_queue := []\<rparr>))"
    by (intro step_decide) (auto simp: decide_inbound_def closed_marker_def)
  then have run: "steps coordinator_step ?c [Connection_ended 1, Decide ex_env] (on_conn_closed ex_env 1 (?c1\<lparr>co_queue := []\<rparr>))"
    using step_ended by blast
  have "engine_wf (co_engine ?c)" using reachable_wf [OF ex_reachable_runs(3)] by simp
  from coordinator_runs_keep_engine [OF this run] run show ?thesis by blast
qed

text \<open>C4: A saved commit is final. When a completion is allowed and the snapshot of the resulting records was
  written, the execution stays committed with the digest of that completion, and no completion for it
  is ever allowed again, along every further run of threads, deaths and restarts under these
  conditions: the records that a turn leaves behind are in the range of the snapshot format (a
  cancellation before the first dispatch, for one, leaves it); no save loses buffered bytes at the
  close, and no rename fails after the remove, though saves may fail in every other way; the process
  may die between any two steps and in every state of a save but the one between remove and rename;
  and the restarted process can read the file. Where one of these fails, the next start may find no
  snapshot that it can load, and the coordinator then starts empty.\<close>
theorem commit_survives_restarts:
  assumes "engine_wf (co_engine c)" "co_store c = Some st" "path st \<noteq> []"
    and "code (fst (complete (co_engine c) (with_digest (env_junk env) cp) (env_now env))) = ALLOW"
    and "storable_records (records (co_engine (handle_complete env conn cp c)))"
    and "env_io env = io_success"
    and run: "steps durable_step (handle_complete env conn cp c) acts c'"
  shows "\<exists>r. find_record (co_engine c') (ct_execution_id (completion_ticket cp)) = Some r \<and>
    state r = COMMITTED \<and> committed_digest r = Some (ct_result_digest (with_digest (env_junk env) cp)) \<and>
    (\<forall>t now. ct_execution_id t = ct_execution_id (completion_ticket cp) \<longrightarrow> code (fst (complete (co_engine c') t now)) \<noteq> ALLOW)"
proof -
  obtain r where d: "durable (ct_execution_id (completion_ticket cp)) r (handle_complete env conn cp c)"
      "state r = COMMITTED" "committed_digest r = Some (ct_result_digest (with_digest (env_junk env) cp))"
    by (rule completion_durable [OF assms(1-6)])
  from durable_runs.inv_steps [OF run d(1)]
  have r: "engine_wf (co_engine c')" "find_record (co_engine c') (ct_execution_id (completion_ticket cp)) = Some r"
    by (simp_all add: durable_def)
  then have "ct_execution_id t = ct_execution_id (completion_ticket cp) \<Longrightarrow> code (fst (complete (co_engine c') t now)) \<noteq> ALLOW" for t now
    using complete_authority [OF r(1), of t now] d(2) by (auto simp: committable_def)
  then show ?thesis using r(2) d(2,3) by blast
qed

definition ex_complete_request :: CompletePayload where
  "ex_complete_request = \<lparr>completion_ticket = ex_completion, result_bytes = []\<rparr>"

lemma ex_with_digest: "with_digest junk ex_complete_request = ex_completion"
proof -
  have "\<not> ResultDigest_is_nil (ct_result_digest ex_completion)" by code_simp
  then show ?thesis by (simp add: with_digest_def ex_complete_request_def)
qed

theorem commit_survives_restarts_witness:
  "\<exists>c' r. steps durable_step (handle_complete ex_env 1 ex_complete_request (ex_coordinator ex_running)) [Restart Read_succeeds (Gen 1)] c' \<and>
     find_record (co_engine c') ex_exec = Some r \<and> state r = COMMITTED \<and> committed_digest r = Some ex_digest"
proof -
  let ?c = "ex_coordinator ex_running"
  let ?eng = "snd (complete (ex_engine ex_running) ex_completion ''t0'')"
  have eng: "co_engine (handle_complete ex_env 1 ex_complete_request ?c) = ?eng"
    by (simp add: engine_handlers(5) ex_with_digest ex_env_def)
  have "map (\<lambda>r. (length (encode_record r), length (created_at r), length (committed_at r), length (attempts r))) (records ?eng)
      = [(331, 2, 2, 1)]"
    "map validate_record (records ?eng) = [None]" "map (\<lambda>r. map (\<lambda>a. (result_payload_hex a, failure_reason a)) (attempts r)) (records ?eng) = [[(None, None)]]"
    by code_simp+
  then have "storable_records (records ?eng)"
    by (auto simp: storable_records_def storable_def fits_record_def fits_attempt_def short_opt_def kMaxString_def kMaxCount_def
        kMaxRecordPayload_def)
  note storable = this
  have facts: "code (fst (complete (ex_engine ex_running) ex_completion ''t0'')) = ALLOW"
    "ct_execution_id ex_completion = ex_exec" "ct_result_digest ex_completion = ex_digest" by code_simp+
  obtain st where st: "co_store ?c = Some st" "path st = ''s''" using ex_coordinator_store by blast
  have env: "env_now ex_env = ''t0''" "env_io ex_env = io_success"
    by (simp_all add: ex_env_def ex_io_def io_success_def)
  have id: "ct_execution_id (completion_ticket ex_complete_request) = ex_exec"
    by (simp add: ex_complete_request_def facts)
  have wf: "engine_wf (co_engine ?c)" using reachable_wf [OF ex_reachable_runs(3)] by simp
  have ok: "code (fst (complete (co_engine ?c) (with_digest (env_junk ex_env) ex_complete_request) (env_now ex_env))) = ALLOW"
    by (simp add: ex_with_digest env facts)
  have rs: "storable_records (records (co_engine (handle_complete ex_env 1 ex_complete_request ?c)))"
    unfolding eng by (rule storable)
  have p: "path st \<noteq> []" using st(2) by simp
  obtain st' where "co_store (handle_complete ex_env 1 ex_complete_request ?c) = Some st'"
    using completion_durable [OF wf st(1) p ok rs env(2)] by (metis durable_def)
  then have "durable_step (handle_complete ex_env 1 ex_complete_request ?c) (Restart Read_succeeds (Gen 1))
      (coordinator_start (Coordinator Read_succeeds (path st') (Gen 1) (co_fs (handle_complete ex_env 1 ex_complete_request ?c))))"
    by (simp add: durable_step_def step_restart)
  then obtain c' where run: "steps durable_step (handle_complete ex_env 1 ex_complete_request ?c) [Restart Read_succeeds (Gen 1)] c'"
    by auto
  from commit_survives_restarts [OF wf st(1) p ok rs env(2) run] run show ?thesis
    by (auto simp: id ex_with_digest facts(3))
qed

text \<open>C38: A dispatch request for an execution the coordinator does not know ends the process when it names a
  connected worker: the engine throws and no handler catches. Without such a worker it is refused,
  and the engine is left alone.\<close>
theorem unknown_dispatch_ends_process:
  assumes "find_record (co_engine c) (dr_execution_id dp) = None"
  shows "handle_frame env conn DISPATCH (pack_dispatch dp) c =
    (if find_worker (dr_worker_id dp) c = 0
     then Inr (send_to conn DISPATCH_ACK
            (pack_dispatch_ack \<lparr>da_accepted = False, da_decision = REJECT_NOT_OWNER,
               da_reason = ''worker not connected'', da_ticket = DispatchTicket_init\<rparr>) c)
     else Inl OutOfRange)"
  using assms
  by (simp add: handle_frame_def on_payload_def dispatch_codec.unpack_pack handle_dispatch_def Let_def dispatch_def require_def)

theorem unknown_dispatch_ends_process_witness:
  "handle_frame ex_env 1 DISPATCH
     (pack_dispatch \<lparr>dr_execution_id = id_nil, dr_epoch = Gen 1, dr_worker_id = ex_worker 1, dr_worker_boot_id = ex_boot 1\<rparr>)
     (ex_coordinator []) = Inl OutOfRange"
proof -
  have "find_record (co_engine (ex_coordinator [])) id_nil = None"
    by (simp add: ex_engine_def ExecutionEngine_def find_record_def)
  moreover have "find_worker (ex_worker 1) (ex_coordinator []) \<noteq> 0"
    by (simp add: find_worker_def ex_coordinator_def)
  ultimately show ?thesis using unknown_dispatch_ends_process [of "ex_coordinator []"] by simp
qed

text \<open>The coordinator reports worker losses under the epoch it was started with. Once the engine has adopted
  a higher epoch from a request, the end of a worker's connection changes no record: the execution
  stays with the lost worker.\<close>
theorem adopted_epoch_hides_worker_loss:
  assumes "co_epoch c < eng_epoch (co_engine c)"
  shows "find_record (co_engine (on_conn_closed env conn c)) i = find_record (co_engine c) i"
proof -
  have "snd (mark_worker_lost (co_engine c) j w b (co_epoch c)) = co_engine c" for j w b
    using assms store_same [of "co_engine c" j]
    by (auto simp: mark_worker_lost_def on_record_def mark_worker_lost_rec_def split: option.split)
  then show ?thesis by (simp add: on_conn_closed_def Let_def split: option.split bool.split)
qed

definition ex_raised :: coordinator where
  "ex_raised = (ex_coordinator ex_running)\<lparr>co_engine := raise_epoch (Gen 2) (ex_engine ex_running)\<rparr>"

theorem adopted_epoch_hides_worker_loss_witness:
  "find_record (co_engine (on_conn_closed ex_env 1 ex_raised)) ex_exec = Some (ex_record ex_running)"
proof -
  have "co_epoch ex_raised = Gen 1"
    by (simp add: ex_raised_def ex_coordinator_def coordinator_start_def Coordinator_def load_def read_all_def Let_def)
  moreover have "eng_epoch (co_engine ex_raised) = Gen 2"
  proof -
    have "eng_epoch (ex_engine ex_running) = Gen 1" by code_simp
    then show ?thesis by (simp add: ex_raised_def raise_epoch_def max_def less_eq_gen_def word_le_nat_alt)
  qed
  ultimately have "co_epoch ex_raised < eng_epoch (co_engine ex_raised)" by (simp add: less_gen_def)
  from adopted_epoch_hides_worker_loss [OF this] ex_find_runs(3) show ?thesis
    by (simp add: ex_raised_def raise_epoch_def)
qed

section \<open>A worker and the coordinator\<close>

text \<open>Hashing again a result whose digest is nil yields the nil digest: the ticket stays as it was.\<close>

lemma with_digest_report:
  assumes "length junk = 64" "length junk' = 64"
  shows "with_digest junk' (complete_report junk result wdp) = completion_ticket_of (wd_ticket wdp) (of_buffer junk result)"
  by (simp add: with_digest_def complete_report_def completion_ticket_of_def of_buffer_def Let_def
      sha256_digest_eq [OF assms(1)] sha256_digest_eq [OF assms(2)])

text \<open>What two coordinators may differ in without any effect on an execution: everything but its record and the epoch.\<close>

definition same_record :: "ExecutionId \<Rightarrow> coordinator \<Rightarrow> coordinator \<Rightarrow> bool" where
  "same_record ex c c' \<longleftrightarrow>
     find_record (co_engine c') ex = find_record (co_engine c) ex \<and> eng_epoch (co_engine c') = eng_epoch (co_engine c)"

lemma on_record_same:
  assumes "find_record eng' ex = find_record eng ex"
  shows "find_record (snd (on_record eng' i u body)) ex = find_record (snd (on_record eng i u body)) ex"
  using assms by (cases "i = ex") (auto simp: on_record_def split_beta split: option.split)

lemma on_record_epoch [simp]: "eng_epoch (snd (on_record eng i u body)) = eng_epoch eng"
  by (simp add: on_record_def split_beta split: option.split)

lemma reports_same_record:
  assumes "same_record ex c c'"
  shows "same_record ex (handle_start conn sp c) (handle_start conn' sp c')"
    "env_now env = env_now env' \<Longrightarrow> with_digest (env_junk env) cp = with_digest (env_junk env') cp \<Longrightarrow>
       same_record ex (handle_complete env conn cp c) (handle_complete env' conn' cp c')"
  using assms on_record_same [of "co_engine c'" ex "co_engine c"]
  by (simp_all add: same_record_def engine_handlers mark_running_def complete_def)

lemma report_lengths:
  "length (pack_start sp) \<le> kMaxPayload"
  "length (result_bytes cp) \<le> kMaxVector \<Longrightarrow> length (pack_complete cp) \<le> kMaxPayload"
  "length (pack_worker_dispatch wdp) \<le> kMaxPayload"
  by (simp_all add: pack_start_def put_start_ticket_def pack_complete_def put_completion_ticket_def pack_worker_dispatch_def
      put_dispatch_ticket_def kMaxPayload_def kMaxVector_def put_digest_def)

text \<open>The frame in which a dispatch reaches the worker.\<close>

definition dispatch_frame :: "WorkerDispatchPayload \<Rightarrow> DecodedFrame" where
  "dispatch_frame wdp = \<lparr>frame_type = WORKER_DISPATCH, frame_payload = pack_worker_dispatch wdp\<rparr>"

lemma dispatch_frame_answer:
  "worker_accepts (dispatch_frame wdp)"
  "worker_answer junk w (dispatch_frame wdp) =
     concat (map frame_bytes
       [\<lparr>frame_type = START, frame_payload = pack_start (start_report wdp)\<rparr>,
        \<lparr>frame_type = COMPLETE, frame_payload = pack_complete (complete_report junk (work_result w wdp) wdp)\<rparr>])"
  by (simp_all add: dispatch_frame_def worker_accepts_def worker_answer_def frame_bytes_def worker_dispatch_codec.unpack_pack report_lengths)

text \<open>What a granted dispatch adds for the worker is its ticket.\<close>

lemma dispatched_payload:
  assumes "handle_frame env conn DISPATCH (pack_dispatch dp) c = Inr c1"
    and wconn: "find_worker (dr_worker_id dp) c = wconn" "wconn \<noteq> 0" "map_of (conns c) wconn = Some e" "ce_conn e"
    and d: "dispatch (co_engine c) (dr_execution_id dp) (dr_worker_id dp) (dr_worker_boot_id dp) (dr_epoch dp)
          (env_attempt_draws env) (env_dispatch_draws env) DispatchTicket_init = Inr (d, tk, eng)" "code d = ALLOW"
    and new: "(wconn, WORKER_DISPATCH, pack_worker_dispatch wdp) \<in> set (outbox c1) - set (outbox c)"
  shows "wd_ticket wdp = tk" "co_engine c1 = eng" "co_queue c1 = co_queue c"
proof -
  let ?p = "\<lparr>wd_ticket = tk, work_bytes = 4096, work_seed = 0\<rparr>"
  obtain acks where c1: "co_engine c1 = eng" "co_queue c1 = co_queue c"
      "outbox c1 = outbox c @ (wconn, WORKER_DISPATCH, pack_worker_dispatch ?p) # acks" "list_all (\<lambda>(_, ty, _). ty = DISPATCH_ACK) acks"
    using handle_dispatch_granted [OF wconn(1,2) d wconn(3,4), of conn] assms(1)
    by (auto simp: handle_frame_def on_payload_def dispatch_codec.unpack_pack)
  then have "pack_worker_dispatch wdp = pack_worker_dispatch ?p" using new by (auto simp: list_all_iff)
  then have "wdp = ?p" by (metis worker_dispatch_codec.unpack_pack sum.inject(2))
  then show "wd_ticket wdp = tk" by simp
  show "co_engine c1 = eng" "co_queue c1 = co_queue c" by (fact c1)+
qed

text \<open>One turn of the worker's loop on the frame of a dispatch.\<close>

lemma worker_turn_on_dispatch:
  assumes "wk_running w" "fd_open (wk_conn w)" "stream_clean (incoming (wk_conn w))" "send_clean (send_results (wk_conn w))"
    and bytes: "stream_bytes (incoming (wk_conn w)) = frame_bytes (dispatch_frame wdp) @ later"
    and n: "length (worker_answer junk w (dispatch_frame wdp)) \<le> send_calls (send_results (wk_conn w))"
  obtains tc w' where "recv_frame (wk_conn w) = Some (Inr (dispatch_frame wdp), tc)"
    "on_worker_dispatch junk wdp (w\<lparr>wk_conn := tc\<rparr>) = Some w'" "worker_run junk w = worker_run junk w'"
    "sent (wk_conn w') = sent (wk_conn w) @ worker_answer junk w (dispatch_frame wdp)" "stream_bytes (incoming (wk_conn w')) = later"
proof -
  obtain evs where r: "recv_frame (wk_conn w) = Some (Inr (dispatch_frame wdp), (wk_conn w)\<lparr>incoming := evs\<rparr>)" "stream_bytes evs = later"
    using recv_frame_returns [OF assms(2,3), of "frame_payload (dispatch_frame wdp)" "frame_type (dispatch_frame wdp)" later] bytes
    by (auto simp: dispatch_frame_def frame_bytes_def report_lengths)
  let ?w = "w\<lparr>wk_conn := (wk_conn w)\<lparr>incoming := evs\<rparr>\<rparr>"
  have ans: "worker_answer junk ?w (dispatch_frame wdp) = encode_frame START (pack_start (start_report wdp))
      @ encode_frame COMPLETE (pack_complete (complete_report junk (work_result ?w wdp) wdp))"
    by (simp add: dispatch_frame_answer frame_bytes_def)
  obtain sevs where d: "on_worker_dispatch junk wdp ?w =
      Some (?w\<lparr>wk_conn := (wk_conn ?w)\<lparr>send_results := sevs, sent := sent (wk_conn ?w) @ worker_answer junk ?w (dispatch_frame wdp)\<rparr>\<rparr>)"
    using on_worker_dispatch_returns [of ?w junk "dispatch_frame wdp" wdp, OF _ _ ans] assms(2,4) n by auto
  have "unpack_worker_dispatch (frame_payload (dispatch_frame wdp)) = Inr wdp"
    by (simp add: dispatch_frame_def worker_dispatch_codec.unpack_pack)
  with r d assms(1) have "worker_run junk w =
      worker_run junk (?w\<lparr>wk_conn := (wk_conn ?w)\<lparr>send_results := sevs, sent := sent (wk_conn ?w) @ worker_answer junk ?w (dispatch_frame wdp)\<rparr>\<rparr>)"
    by (subst worker_run.simps) (simp add: dispatch_frame_def)
  with r d show thesis by (intro that) auto
qed

text \<open>C3: From dispatch to commit over the wire. Let an open execution of the current epoch be dispatched to a
  connected worker, and the frame of that dispatch be the next one on the worker's stream, whatever
  comes after it. Then the worker's loop receives the dispatch, sends two reports, and goes on with the
  rest of its stream. A reader that gets these bytes, in whatever chunks and with whatever behind them,
  receives exactly two frames. Deciding the first and later the second, with any other turns before and
  in between that leave the record of the execution and the epoch as they are, commits the digest of
  the worker's result; a digest of all zeros is the one that is refused, and the execution is then not
  committed.\<close>
theorem dispatch_commits_over_the_wire:
  assumes eng: "engine_wf (co_engine c)" "find_record (co_engine c) (dr_execution_id dp) = Some r0"
    "state r0 \<in> {READY, ExecutionState.DISPATCHED, ExecutionState.RUNNING, AMBIGUOUS}"
    "coordinator_epoch r0 = eng_epoch (co_engine c)"
    "\<not> id_is_nil (dr_execution_id dp)" "\<not> id_is_nil (dr_worker_id dp)" "\<not> id_is_nil (dr_worker_boot_id dp)"
    "id_random (env_attempt_draws env) \<notin> at_id ` set (attempts r0)"
    and ep: "dr_epoch dp = eng_epoch (co_engine c)"
    and wconn: "find_worker (dr_worker_id dp) c = wconn" "wconn \<noteq> 0" "map_of (conns c) wconn = Some e" "ce_conn e"
    and c1: "handle_frame env conn DISPATCH (pack_dispatch dp) c = Inr c1"
    and new: "(wconn, WORKER_DISPATCH, pack_worker_dispatch wdp) \<in> set (outbox c1) - set (outbox c)"
    and w: "wk_running w" "fd_open (wk_conn w)" "stream_clean (incoming (wk_conn w))" "send_clean (send_results (wk_conn w))"
      "length (work_result w wdp) \<le> kMaxVector"
      "length (worker_answer junk w (dispatch_frame wdp)) \<le> send_calls (send_results (wk_conn w))"
      "stream_bytes (incoming (wk_conn w)) = frame_bytes (dispatch_frame wdp) @ later"
    and junk: "length junk = 64"
  shows "\<exists>tc w' bs f1 f2.
    recv_frame (wk_conn w) = Some (Inr (dispatch_frame wdp), tc) \<and>
    on_worker_dispatch junk wdp (w\<lparr>wk_conn := tc\<rparr>) = Some w' \<and> worker_run junk w = worker_run junk w' \<and>
    sent (wk_conn w') = sent (wk_conn w) @ bs \<and> stream_bytes (incoming (wk_conn w')) = later \<and>
    (\<forall>rc rest. fd_open rc \<and> stream_clean (incoming rc) \<and> stream_bytes (incoming rc) = bs @ rest \<longrightarrow>
      (\<exists>evs. recv_frames 2 rc = Some ([f1, f2], rc\<lparr>incoming := evs\<rparr>) \<and> stream_bytes evs = rest)) \<and>
    (\<forall>env1 c2. same_record (dr_execution_id dp) c1 c2 \<longrightarrow>
      (\<exists>c3. handle_frame env1 wconn (frame_type f1) (frame_payload f1) c2 = Inr c3 \<and>
        (\<forall>env2 c4. length (env_junk env2) = 64 \<and> same_record (dr_execution_id dp) c3 c4 \<longrightarrow>
          (\<exists>c5 r. handle_frame env2 wconn (frame_type f2) (frame_payload f2) c4 = Inr c5 \<and>
            find_record (co_engine c5) (dr_execution_id dp) = Some r \<and>
            (if ResultDigest_is_nil (of_buffer junk (work_result w wdp)) then state r \<noteq> COMMITTED
             else state r = COMMITTED \<and> committed_digest r = Some (of_buffer junk (work_result w wdp)))))))"
proof -
  let ?dg = "of_buffer junk (work_result w wdp)" and ?ex = "dr_execution_id dp"
  let ?sp = "start_report wdp" and ?cp = "complete_report junk (work_result w wdp) wdp"
  let ?f1 = "\<lparr>frame_type = START, frame_payload = pack_start ?sp\<rparr>" and ?f2 = "\<lparr>frame_type = COMPLETE, frame_payload = pack_complete ?cp\<rparr>"
  let ?bs = "worker_answer junk w (dispatch_frame wdp)"
  obtain d1 tk eng1 where d: "dispatch (co_engine c) ?ex (dr_worker_id dp) (dr_worker_boot_id dp)
        (dr_epoch dp) (env_attempt_draws env) (env_dispatch_draws env) DispatchTicket_init = Inr (d1, tk, eng1)" "code d1 = ALLOW"
    using dispatched_worker_reports [OF eng, of "env_dispatch_draws env" ?dg] unfolding ep by blast
  have r: "\<exists>r. find_record (snd (complete (snd (mark_running eng1 (start_ticket_of tk))) (completion_ticket_of tk ?dg) now)) ?ex = Some r \<and>
      (if ResultDigest_is_nil ?dg then state r \<noteq> COMMITTED else state r = COMMITTED \<and> committed_digest r = Some ?dg)" for now
    using dispatched_worker_reports [OF eng, of "env_dispatch_draws env" ?dg now] d unfolding ep by auto
  note p = dispatched_payload [OF c1 wconn d new]
  have res: "length (result_bytes ?cp) \<le> kMaxVector" using w(5) by (simp add: complete_report_def)
  obtain tc w' where turn: "recv_frame (wk_conn w) = Some (Inr (dispatch_frame wdp), tc)"
    "on_worker_dispatch junk wdp (w\<lparr>wk_conn := tc\<rparr>) = Some w'" "worker_run junk w = worker_run junk w'"
    "sent (wk_conn w') = sent (wk_conn w) @ ?bs" "stream_bytes (incoming (wk_conn w')) = later"
    by (rule worker_turn_on_dispatch [OF w(1-4,7,6)])
  have reader: "\<exists>evs. recv_frames 2 rc = Some ([?f1, ?f2], rc\<lparr>incoming := evs\<rparr>) \<and> stream_bytes evs = rest"
    if "fd_open rc" "stream_clean (incoming rc)" "stream_bytes (incoming rc) = ?bs @ rest" for rc rest
    using recv_frames_in_order [OF that(1,2), of "[?f1, ?f2]" rest] that(3) report_lengths(1) report_lengths(2) [OF res]
    by (auto simp: dispatch_frame_answer numeral_2_eq_2)
  have fits: "complete_fits ?cp" using res by (simp add: complete_fits_def complete_report_def completion_ticket_of_def)
  have start: "handle_frame env1 wconn START (pack_start ?sp) c2 = Inr (handle_start wconn ?sp c2)" for env1 c2
    by (simp add: handle_frame_def on_payload_def start_codec.unpack_pack)
  have finish: "handle_frame env2 wconn COMPLETE (pack_complete ?cp) c4 = Inr (handle_complete env2 wconn ?cp c4)" for env2 c4
    by (simp add: handle_frame_def on_payload_def complete_codec.unpack_pack [OF fits])
  have decided: "\<exists>r. find_record (co_engine (handle_complete env2 wconn ?cp c4)) ?ex = Some r \<and>
      (if ResultDigest_is_nil ?dg then state r \<noteq> COMMITTED else state r = COMMITTED \<and> committed_digest r = Some ?dg)"
    if c2: "same_record ?ex c1 c2" and c4: "same_record ?ex (handle_start wconn ?sp c2) c4" and j: "length (env_junk env2) = 64" for env2 c2 c4
  proof -
    have "same_record ?ex (handle_start wconn ?sp c1) c4"
      using reports_same_record(1) [OF c2, of wconn ?sp wconn] c4 by (simp add: same_record_def)
    from reports_same_record(2) [OF this, of env2 env2 ?cp wconn wconn]
    have "find_record (co_engine (handle_complete env2 wconn ?cp c4)) ?ex =
        find_record (co_engine (handle_complete env2 wconn ?cp (handle_start wconn ?sp c1))) ?ex"
      by (simp add: same_record_def)
    also have "\<dots> = find_record (snd (complete (snd (mark_running eng1 (start_ticket_of tk))) (completion_ticket_of tk ?dg) (env_now env2))) ?ex"
      using with_digest_report [OF junk j, of "work_result w wdp" wdp] by (simp add: engine_handlers p(1,2) start_report_def)
    finally show ?thesis using r [of "env_now env2"] by simp
  qed
  show ?thesis
    by (intro exI [of _ tc] exI [of _ w'] exI [of _ ?bs] exI [of _ ?f1] exI [of _ ?f2])
      (use turn reader start finish decided in auto)
qed

definition ex_dispatch_request :: DispatchRequestPayload where
  "ex_dispatch_request = \<lparr>dr_execution_id = ex_exec, dr_epoch = Gen 1, dr_worker_id = ex_worker 1, dr_worker_boot_id = ex_boot 1\<rparr>"

definition ex_wire_worker :: "WorkerDispatchPayload \<Rightarrow> worker_runtime" where
  "ex_wire_worker wdp = ex_worker_runtime\<lparr>wk_running := True, wk_conn :=
     \<lparr>fd_open = True, incoming = [Received (frame_bytes (dispatch_frame wdp) @ [9])],
      send_results = replicate 1000 (Sent 1), sent = []\<rparr>\<rparr>"

definition ex_reader :: "u8 list \<Rightarrow> tcp_connection" where
  "ex_reader bs = \<lparr>fd_open = True, incoming = [Received bs], send_results = [], sent = []\<rparr>"

lemma frame_bytes_not_empty [simp]: "frame_bytes f \<noteq> []"
  by (metis frame_bytes_def length_encode_frame kFrameHeaderLen_def add_is_0 list.size(3) zero_neq_numeral)

lemma ex_wire_worker_facts:
  "wk_running (ex_wire_worker wdp)" "fd_open (wk_conn (ex_wire_worker wdp))"
  "stream_clean (incoming (wk_conn (ex_wire_worker wdp)))" "send_clean (send_results (wk_conn (ex_wire_worker wdp)))"
  "length (work_result (ex_wire_worker wdp) wdp) \<le> kMaxVector"
  "length (worker_answer (replicate 64 0) (ex_wire_worker wdp) (dispatch_frame wdp)) \<le> send_calls (send_results (wk_conn (ex_wire_worker wdp)))"
  "stream_bytes (incoming (wk_conn (ex_wire_worker wdp))) = frame_bytes (dispatch_frame wdp) @ [9]"
proof -
  have r: "work_result (ex_wire_worker wdp) wdp = [7]"
    by (simp add: work_result_def ex_wire_worker_def ex_worker_runtime_def)
  have n: "send_calls (send_results (wk_conn (ex_wire_worker wdp))) = 1000"
    by (simp add: ex_wire_worker_def send_replicate)
  show "length (worker_answer (replicate 64 0) (ex_wire_worker wdp) (dispatch_frame wdp)) \<le> send_calls (send_results (wk_conn (ex_wire_worker wdp)))"
    unfolding n by (simp add: dispatch_frame_answer frame_bytes_def r kFrameHeaderLen_def pack_start_def put_start_ticket_def
        pack_complete_def put_completion_ticket_def complete_report_def completion_ticket_of_def)
  show "length (work_result (ex_wire_worker wdp) wdp) \<le> kMaxVector" by (simp add: r kMaxVector_def)
qed (simp_all add: ex_wire_worker_def ex_worker_runtime_def send_replicate)

lemma same_record_refl: "same_record ex c c"
  by (simp add: same_record_def)

theorem dispatch_commits_over_the_wire_witness:
  "\<exists>wdp c1 tc w' bs f1 f2 evs c3 c5 r.
    handle_frame ex_env 9 DISPATCH (pack_dispatch ex_dispatch_request) (ex_coordinator ex_ready) = Inr c1 \<and>
    (1, WORKER_DISPATCH, pack_worker_dispatch wdp) \<in> set (outbox c1) \<and>
    on_worker_dispatch (replicate 64 0) wdp ((ex_wire_worker wdp)\<lparr>wk_conn := tc\<rparr>) = Some w' \<and> sent (wk_conn w') = bs \<and>
    recv_frames 2 (ex_reader (bs @ [5])) = Some ([f1, f2], (ex_reader (bs @ [5]))\<lparr>incoming := evs\<rparr>) \<and> stream_bytes evs = [5] \<and>
    handle_frame ex_env 1 (frame_type f1) (frame_payload f1) c1 = Inr c3 \<and>
    handle_frame ex_env 1 (frame_type f2) (frame_payload f2) c3 = Inr c5 \<and>
    find_record (co_engine c5) ex_exec = Some r \<and>
    (if ResultDigest_is_nil (of_buffer (replicate 64 0) (work_result (ex_wire_worker wdp) wdp)) then state r \<noteq> COMMITTED
     else state r = COMMITTED \<and> committed_digest r = Some (of_buffer (replicate 64 0) (work_result (ex_wire_worker wdp) wdp)))"
proof -
  let ?c = "ex_coordinator ex_ready" and ?junk = "replicate 64 (0 :: u8)"
  have req: "dr_execution_id ex_dispatch_request = ex_exec" "dr_epoch ex_dispatch_request = Gen 1"
    "dr_worker_id ex_dispatch_request = ex_worker 1" "dr_worker_boot_id ex_dispatch_request = ex_boot 1"
    by (simp_all add: ex_dispatch_request_def)
  have eng: "engine_wf (co_engine ?c)" "find_record (co_engine ?c) ex_exec = Some (ex_record ex_ready)"
    using reachable_wf [OF ex_reachable_runs(1)] ex_find_runs(1) by simp_all
  have ex: "state (ex_record ex_ready) = READY" "coordinator_epoch (ex_record ex_ready) = Gen 1"
    "eng_epoch (ex_engine ex_ready) = Gen 1" "attempts (ex_record ex_ready) = []"
    "\<not> id_is_nil ex_exec" "\<not> id_is_nil (ex_worker 1)" "\<not> id_is_nil (ex_boot 1)"
    by code_simp+
  have conn: "find_worker (ex_worker 1) ?c = 1" "\<exists>e. map_of (conns ?c) 1 = Some e \<and> ce_conn e"
    by (simp_all add: find_worker_def ex_coordinator_def)
  obtain e where e: "map_of (conns ?c) 1 = Some e" "ce_conn e" using conn(2) by blast
  have q: "outbox ?c = []"
    by (simp add: ex_coordinator_def coordinator_start_def Coordinator_def load_def read_all_def Let_def)
  have st: "state (ex_record ex_ready) \<in> {READY, ExecutionState.DISPATCHED, ExecutionState.RUNNING, AMBIGUOUS}"
    "coordinator_epoch (ex_record ex_ready) = eng_epoch (co_engine ?c)" "Gen 1 = eng_epoch (co_engine ?c)"
    "id_random (env_attempt_draws ex_env) \<notin> at_id ` set (attempts (ex_record ex_ready))" "(1 :: u64) \<noteq> 0"
    by (simp_all add: ex)
  obtain d1 tk eng1 where d: "dispatch (co_engine ?c) ex_exec (ex_worker 1) (ex_boot 1) (Gen 1)
      (env_attempt_draws ex_env) (env_dispatch_draws ex_env) DispatchTicket_init = Inr (d1, tk, eng1)" "code d1 = ALLOW"
    using dispatched_worker_reports [OF eng st(1,2) ex(5-7) st(4)] unfolding st(3) by blast
  let ?wdp = "\<lparr>wd_ticket = tk, work_bytes = 4096, work_seed = 0\<rparr>"
  obtain c1 where c1: "handle_frame ex_env 9 DISPATCH (pack_dispatch ex_dispatch_request) ?c = Inr c1"
      "(1, WORKER_DISPATCH, pack_worker_dispatch ?wdp) \<in> set (outbox c1) - set (outbox ?c)"
    using handle_dispatch_granted [of ex_dispatch_request, unfolded req, OF conn(1) st(5) d e, of 9] q
    by (auto simp: handle_frame_def on_payload_def dispatch_codec.unpack_pack)
  have len: "length ?junk = 64" "length (env_junk ex_env) = 64" by (simp_all add: ex_env_def)
  let ?w = "ex_wire_worker ?wdp"
  have sent: "sent (wk_conn ?w) = []" by (simp add: ex_wire_worker_def)
  show ?thesis
    using dispatch_commits_over_the_wire [of ?c ex_dispatch_request "ex_record ex_ready" ex_env, unfolded req,
      OF eng st(1,2) ex(5-7) st(4,3) conn(1) st(5) e c1 ex_wire_worker_facts len(1)]
  proof (elim exE conjE)
    fix tc w' bs f1 f2
    assume w': "on_worker_dispatch ?junk ?wdp (?w\<lparr>wk_conn := tc\<rparr>) = Some w'" "sent (wk_conn w') = sent (wk_conn ?w) @ bs"
      and reader: "\<forall>rc rest. fd_open rc \<and> stream_clean (incoming rc) \<and> stream_bytes (incoming rc) = bs @ rest \<longrightarrow>
        (\<exists>evs. recv_frames 2 rc = Some ([f1, f2], rc\<lparr>incoming := evs\<rparr>) \<and> stream_bytes evs = rest)"
      and decided: "\<forall>env1 c2. same_record ex_exec c1 c2 \<longrightarrow>
        (\<exists>c3. handle_frame env1 1 (frame_type f1) (frame_payload f1) c2 = Inr c3 \<and>
          (\<forall>env2 c4. length (env_junk env2) = 64 \<and> same_record ex_exec c3 c4 \<longrightarrow>
            (\<exists>c5 r. handle_frame env2 1 (frame_type f2) (frame_payload f2) c4 = Inr c5 \<and>
              find_record (co_engine c5) ex_exec = Some r \<and>
              (if ResultDigest_is_nil (of_buffer ?junk (work_result ?w ?wdp)) then state r \<noteq> COMMITTED
               else state r = COMMITTED \<and> committed_digest r = Some (of_buffer ?junk (work_result ?w ?wdp))))))"
    obtain evs where "recv_frames 2 (ex_reader (bs @ [5])) = Some ([f1, f2], (ex_reader (bs @ [5]))\<lparr>incoming := evs\<rparr>)" "stream_bytes evs = [5]"
      using reader [rule_format, of "ex_reader (bs @ [5])" "[5]"] by (auto simp: ex_reader_def)
    note evs = this
    obtain c3 c5 r where "handle_frame ex_env 1 (frame_type f1) (frame_payload f1) c1 = Inr c3"
        "handle_frame ex_env 1 (frame_type f2) (frame_payload f2) c3 = Inr c5" "find_record (co_engine c5) ex_exec = Some r"
        "if ResultDigest_is_nil (of_buffer ?junk (work_result ?w ?wdp)) then state r \<noteq> COMMITTED
         else state r = COMMITTED \<and> committed_digest r = Some (of_buffer ?junk (work_result ?w ?wdp))"
      using decided [rule_format, OF same_record_refl, of ex_env] len(2) same_record_refl by blast
    note decisions = this
    show ?thesis
      by (rule exI [of _ ?wdp], rule exI [of _ c1], rule exI [of _ tc], rule exI [of _ w'], rule exI [of _ bs], rule exI [of _ f1],
        rule exI [of _ f2], rule exI [of _ evs], rule exI [of _ c3], rule exI [of _ c5], rule exI [of _ r])
        (intro conjI c1(1) DiffD1 [OF c1(2)] w'(1) evs decisions, simp add: w'(2) sent)
  qed
qed

section \<open>Descriptors\<close>

text \<open>C25: No descriptor leaks and none is shared. In every run of opening, accepting, moving and closing of
  socket objects, with whatever failures of the calls that open, bind, listen, connect and accept, the
  open descriptors are exactly those that an object holds, and each is held by exactly one object; in
  particular a failed connect or listen leaves none behind. Closing a descriptor releases it also when
  it reports an error, as it does on Linux.\<close>
theorem descriptors_never_leak:
  assumes "fds_owned t" "steps socket_step t acts t'"
  shows "s \<in> open_fds t' \<longleftrightarrow> s \<noteq> kInvalid \<and> (\<exists>!x. holds t' x = s)"
  using socket_objects.inv_steps [OF assms(2,1)] unfolding fds_owned_def by metis

definition ex_sockets :: socket_table where
  "ex_sockets = \<lparr>listening = \<lparr>l_fd = kInvalid, l_port = 0\<rparr>, handles = (\<lambda>_. kInvalid), open_fds = {}\<rparr>"

theorem descriptors_never_leak_witness:
  "\<exists>t'. steps socket_step ex_sockets
      [Do_listen (Some 3) True True (Some 3000) \<lparr>sin_port = 3000, sin_addr = 0\<rparr>, Do_accept 0 (Some 4),
       Do_connect 1 (Some 5) False \<lparr>sin_port = 3001, sin_addr = 1\<rparr>, Do_move 1 0] t' \<and>
     open_fds t' = {3, 4} \<and> (\<exists>!x. holds t' x = 4)"
proof -
  define t1 where "t1 = \<lparr>listening = \<lparr>l_fd = 3, l_port = 3000\<rparr>, handles = (\<lambda>_. kInvalid), open_fds = {3 :: fd}\<rparr>"
  define t2 where "t2 = t1\<lparr>handles := (handles t1)(0 := 4), open_fds := {3, 4 :: fd}\<rparr>"
  define t3 where "t3 = t2\<lparr>handles := (handles t2)(1 := kInvalid), open_fds := {3, 4 :: fd}\<rparr>"
  define t4 where "t4 = t3\<lparr>handles := (handles t3)(1 := 4, 0 := kInvalid), open_fds := {3, 4 :: fd}\<rparr>"
  have inv: "(3 :: fd) \<noteq> kInvalid" "(4 :: fd) \<noteq> kInvalid" "(5 :: fd) \<noteq> kInvalid" by (simp_all add: kInvalid_def)
  have "socket_step ex_sockets (Do_listen (Some 3) True True (Some 3000) \<lparr>sin_port = 3000, sin_addr = 0\<rparr>)
      (ex_sockets\<lparr>listening := \<lparr>l_fd = 3, l_port = 3000\<rparr>, open_fds := {3}\<rparr>)"
    using inv by (intro step_listen) (auto simp: ex_sockets_def new_fd_def listener_listen_def listener_close_def conn_close_def Let_def)
  moreover have "ex_sockets\<lparr>listening := \<lparr>l_fd = 3, l_port = 3000\<rparr>, open_fds := {3}\<rparr> = t1" by (simp add: ex_sockets_def t1_def)
  ultimately have s1: "socket_step ex_sockets (Do_listen (Some 3) True True (Some 3000) \<lparr>sin_port = 3000, sin_addr = 0\<rparr>) t1"
    by simp
  have s2: "socket_step t1 (Do_accept 0 (Some 4)) t2"
    unfolding t2_def using inv by (intro step_listener_accept) (auto simp: t1_def new_fd_def listener_accept_def conn_close_def)
  have s3: "socket_step t2 (Do_connect 1 (Some 5) False \<lparr>sin_port = 3001, sin_addr = 1\<rparr>) t3"
    unfolding t3_def using inv
    by (intro step_connect) (auto simp: t1_def t2_def new_fd_def conn_connect_def conn_close_def close_sock_def Let_def)
  have s4: "socket_step t3 (Do_move 1 0) t4"
    unfolding t4_def by (intro step_move) (auto simp: t1_def t2_def t3_def conn_move_def conn_close_def)
  have run: "steps socket_step ex_sockets [Do_listen (Some 3) True True (Some 3000) \<lparr>sin_port = 3000, sin_addr = 0\<rparr>, Do_accept 0 (Some 4),
       Do_connect 1 (Some 5) False \<lparr>sin_port = 3001, sin_addr = 1\<rparr>, Do_move 1 0] t4"
    using s1 s2 s3 s4 by blast
  have "fds_owned ex_sockets" by (auto simp: fds_owned_def ex_sockets_def holds_def split: option.splits)
  note owned = descriptors_never_leak [OF this run, of 4]
  have fds: "open_fds t4 = {3, 4}" by (simp add: t4_def)
  with owned have "\<exists>!x. holds t4 x = 4" by blast
  with run fds show ?thesis by blast
qed

section \<open>The inspection tool\<close>

text \<open>C27: The inspection tool shows what is in the store. Let a save of records in the range of the snapshot
  format have succeeded without losing bytes at the close. On the file the tool exits with 0 and prints
  the epoch, the number of executions and each of the saved records in order; when the file cannot be
  read, or when any one byte of it is changed, it exits with 1 and an error text.\<close>
theorem inspect_reports_snapshot:
  assumes rs: "storable_records rs" and sv: "save io rs ep st fs = (True, st', fs')" and fl: "flushed io"
    and i: "i < length (snapshot_bytes rs ep)" "b \<noteq> snapshot_bytes rs ep ! i"
  shows "ef_inspect ro [path st] fs' =
      (if ro = Read_succeeds
       then (0, ''Executor Fabric store: '' @ path st @ newline
          @ ''Coordinator epoch: '' @ gen_to_string ep @ '', executions: '' @ decimal (length rs)
          @ newline @ newline @ concat (map inspect_record rs))
       else (1, ''inspect failed: load: cannot read file (missing?)'' @ newline)) \<and>
    (\<exists>e. ef_inspect ro [path st] (fs'(path st \<mapsto> (snapshot_bytes rs ep)[i := b])) = (1, ''inspect failed: '' @ e @ newline))"
proof -
  have stored: "fs' (path st) = Some (snapshot_bytes rs ep)" by (rule save_success(2) [OF sv fl])
  have l: "load_bytes (Gen 0) (snapshot_bytes rs ep) = Inr (rs, ep)"
    using rs by (intro load_bytes_snapshot) (simp_all add: storable_records_def)
  obtain e ep' where bad: "load_bytes (Gen 0) ((snapshot_bytes rs ep)[i := b]) = Inl (e, ep')"
    using load_bytes_changed [OF i, of "Gen 0"] by auto
  have "read_all ro (path st) (fs'(path st \<mapsto> (snapshot_bytes rs ep)[i := b])) \<in> {None, Some ((snapshot_bytes rs ep)[i := b])}"
    by (auto simp: read_all_def)
  then show ?thesis using stored l bad by (auto simp: ef_inspect_def load_def FilePersistenceStore_def)
qed

theorem inspect_reports_snapshot_witness:
  "\<exists>st' fs'. save ex_io [ex_created] (Gen 3) ex_store Map.empty = (True, st', fs') \<and>
     fst (ef_inspect Read_succeeds [''s''] fs') = 0 \<and> fst (ef_inspect Read_fails [''s''] fs') = 1 \<and>
     fst (ef_inspect Read_succeeds [''s''] (fs'(''s'' \<mapsto> (snapshot_bytes [ex_created] (Gen 3))[12 := 4]))) = 1"
proof -
  obtain st' fs' where s: "save ex_io [ex_created] (Gen 3) ex_store Map.empty = (True, st', fs')"
    by (simp add: save_eval ex_io_def)
  note layout = snapshot_bytes_def snapshot_body_def kMagic_def kFormatVersion_def
  have i: "12 < length (snapshot_bytes [ex_created] (Gen 3))" by (simp add: layout)
  have b: "4 \<noteq> snapshot_bytes [ex_created] (Gen 3) ! 12"
    by (simp add: layout Let_def put_u64_def put_u32_def put_gen_def upt_rec nth_append)
  have p: "path ex_store = ''s''" by (simp add: ex_store_def FilePersistenceStore_def)
  have "flushed ex_io" by (simp add: flushed_def ex_io_def)
  note shown = inspect_reports_snapshot [OF ex_created_storable_list s this i b, unfolded p]
  show ?thesis using shown [of Read_succeeds] shown [of Read_fails] s by auto
qed

end
