(* ===== verification/Replies.thy ===== *)
theory Replies
  imports Coordinator
begin

text \<open>
  Every decision of the engine renders to a short text: the reasons are literals of the source, at most
  with two generations or two state names in them, and \<^verbatim>\<open>Decision::to_string\<close> adds at most
  seven numbers and identities. So no reply of the coordinator exceeds the string limit of the codec,
  and the sides never disagree about a frame for that reason.
\<close>

section \<open>Rendered values\<close>

lemma length_decimal: "n < 10 ^ Suc k \<Longrightarrow> length (decimal n) \<le> Suc k"
proof (induction n arbitrary: k rule: decimal.induct)
  case (1 n)
  show ?case
  proof (cases "n < 10")
    case False
    then obtain k' where "k = Suc k'" using "1.prems" by (cases k) auto
    then show ?thesis using "1.IH" [OF False, of k'] "1.prems" False by (subst decimal.simps) auto
  qed (subst decimal.simps, simp)
qed

lemma length_std_to_string: "length (std_to_string v) \<le> 20"
proof -
  have "unat v < 2 ^ 64" using unsigned_less [of v, where 'a = nat] by simp
  then have "unat v < 10 ^ Suc 19" by simp
  then show ?thesis using length_decimal [of "unat v" 19] by (simp add: std_to_string_def)
qed

lemma length_id_to_string: "length (id_to_string i) \<le> 52"
proof -
  have "length (concat (map f [0..<16])) \<le> 48" if "\<And>k. length (f k) \<le> 3" for f :: "nat \<Rightarrow> string"
  proof -
    have "sum_list (map (\<lambda>k. length (f k)) [0..<16]) \<le> sum_list (map (\<lambda>_. 3) [0..<16::nat])"
      by (rule sum_list_mono) (rule that)
    then show ?thesis by (simp add: length_concat comp_def sum_list_triv)
  qed
  then show ?thesis unfolding id_to_string_def uuid_to_string_def
    by (rule order_trans) (auto simp: hex_pair_def)
qed

section \<open>Decisions\<close>

definition brief :: "Decision \<Rightarrow> bool" where
  "brief d \<longleftrightarrow> length (reason d) \<le> 200 \<and> required_authority d = []"

lemma length_opt_field: "(\<And>x. length (f x) \<le> n) \<Longrightarrow> length (opt_field l f v) \<le> length l + n"
  by (simp add: opt_field_def split: option.split)

lemma length_code: "length (DecisionCode_to_string c) \<le> 40"
  by (cases c) simp_all

lemma brief_text: 
  assumes "brief d"
  shows "length (Decision_to_string d) \<le> 1000"
proof -
  note g = length_opt_field [of gen_to_string 20, unfolded gen_to_string_def, OF length_std_to_string, folded gen_to_string_def]
  note i = length_opt_field [of id_to_string 52, OF length_id_to_string]
  show ?thesis
    using assms length_code [of "code d"] g [of "'' gen=''" "d_execution_generation d"] i [of "'' attempt=''" "d_attempt_id d"]
      g [of "'' attemptGen=''" "d_attempt_generation d"] i [of "'' worker=''" "d_worker_id d"] i [of "'' boot=''" "d_worker_boot_id d"]
      g [of "'' epoch=''" "d_coordinator_epoch d"] length_id_to_string [of "the (d_execution_id d)"]
    by (cases "d_execution_id d") (auto simp: Decision_to_string_def brief_def)
qed

text \<open>Every decision the engine takes.\<close>

lemma brief_mk [simp]: "brief (mk_decision c r) \<longleftrightarrow> length r \<le> 200"
  by (simp add: brief_def mk_decision_def Decision_init_def)

lemma brief_fill [simp]: "brief (fill_context d rec) = brief d" "brief (decide rec c r) \<longleftrightarrow> length r \<le> 200"
  by (simp_all add: brief_def fill_context_def decide_def mk_decision_def Decision_init_def)

lemma brief_fields [simp]: "brief (d\<lparr>d_execution_id := i, d_coordinator_epoch := e\<rparr>) = brief d"
  by (simp add: brief_def)

lemma length_state: "length (ExecutionState_to_string s) \<le> 30"
  by (cases s) simp_all

lemma brief_transition [simp]: "brief (fst (transition rec to))"
  using length_state [of to] length_state [of "state rec"] by (simp add: transition_def Let_def)

lemma brief_validate [simp]: "brief (validate_ticket ep rec t)" "brief (validate_start ep rec st)"
  by (simp_all add: validate_ticket_def validate_start_def)

lemma brief_bodies:
  "brief (fst (activate_rec rec))" "brief (fst (complete_rec ep now t rec))" "brief (fst (cancel_rec ep req rec))"
  "brief (fst (preempt_rec ep req rec))" "brief (fst (acknowledge_preempt_rec ep e rec))" "brief (fst (mark_resumable_rec ep e rec))"
  by (simp_all add: activate_rec_def complete_rec_def cancel_rec_def preempt_rec_def acknowledge_preempt_rec_def mark_resumable_rec_def
      Let_def split_beta)

lemma brief_dispatch_rec: "brief (fst (dispatch_rec ep w b ra ry tk rec))"
proof (cases "dispatch_refusal rec")
  case None
  then show ?thesis using order_trans [OF length_std_to_string, of 124] by (simp add: dispatch_rec_def Let_def split_beta)
next
  case (Some d)
  then have "brief d" by (auto simp: dispatch_refusal_def Let_def split: if_splits)
  then show ?thesis using Some by (simp add: dispatch_rec_def)
qed

lemma brief_resume_rec: "brief (fst (resume_rec ep e w b rg ra ry tk rec))"
  by (simp add: resume_rec_def Let_def split_beta)

lemma brief_on_record: "length unknown \<le> 200 \<Longrightarrow> (\<And>rec. brief (fst (body rec))) \<Longrightarrow> brief (fst (on_record eng i unknown body))"
  by (simp add: on_record_def split_beta split: option.split)

lemma brief_create: "brief (fst (create eng i e now))"
proof -
  have "length (std_to_string a) + length (std_to_string b) \<le> 142" for a b
    using length_std_to_string [of a] length_std_to_string [of b] by simp
  then show ?thesis by (simp add: create_def Let_def)
qed

lemma brief_operations:
  "brief (fst (complete eng t now))" "brief (fst (cancel eng req))" "brief (fst (preempt eng req))"
  "brief (fst (acknowledge_preempt eng i e))" "brief (fst (mark_resumable eng i e))" "brief (fst (create eng i e now))"
  "brief (fst (resume eng i w b e rg ra ry tk))"
  "activate eng i e = Inr (d, eng') \<Longrightarrow> brief d" "dispatch eng i w b e ra ry tk = Inr (d, tk', eng') \<Longrightarrow> brief d"
  using brief_bodies brief_dispatch_rec [of _ w b ra ry tk] brief_resume_rec brief_create
  by (auto simp: complete_def cancel_def preempt_def acknowledge_preempt_def mark_resumable_def resume_def activate_def dispatch_def require_def
      brief_on_record split_beta split: option.splits if_splits prod.splits)

lemma brief_wire: "brief d \<Longrightarrow> length (reason (wire_decision d)) \<le> kMaxString"
  by (simp add: brief_def wire_decision_def kMaxString_def)

lemma brief_reason: "brief d \<Longrightarrow> length (Decision_to_string d) \<le> kMaxString"
  using brief_text [of d] by (simp add: kMaxString_def)

end
