(* ===== verification/Controller.thy ===== *)
theory Controller
  imports Replies Transport Sha256
begin

text \<open>
  The controller client of \<^verbatim>\<open>proof/proof_harness.cpp\<close>: requests to the coordinator over one
  connection, each followed by reading one frame. As in the transport, \<open>None\<close> is a call that blocks
  forever. When a call fails the model returns the error text; what is then in the output parameter
  is not modelled.

  Shown: whatever the coordinator decides in between for other connections, the calls of a client
  return, in order, the answers of the coordinator to its requests as they arrive, or an error where
  the state byte of an answer is uninitialised and no state.
\<close>

section \<open>The client\<close>

record controller =
  ctl_conn :: tcp_connection
  ctl_epoch :: CoordinatorEpoch

type_synonym 'a call = "controller \<Rightarrow> ((string + 'a) \<times> controller) option"

text \<open>
  The shape of all calls but the first: send a frame, receive one, unpack its payload. The type of
  the frame received is not looked at.
\<close>

definition exchange :: "MsgType \<Rightarrow> u8 list \<Rightarrow> (u8 list \<Rightarrow> string + 'a) \<Rightarrow> 'a call" where
  "exchange type payload unpack c =
     (case send_frame type payload (ctl_conn c) of
        None \<Rightarrow> None
      | Some (Inl err, conn) \<Rightarrow> Some (Inl err, c\<lparr>ctl_conn := conn\<rparr>)
      | Some (Inr _, conn) \<Rightarrow>
          (case recv_frame conn of
             None \<Rightarrow> None
           | Some (Inl err, conn) \<Rightarrow> Some (Inl err, c\<lparr>ctl_conn := conn\<rparr>)
           | Some (Inr f, conn) \<Rightarrow> Some (unpack (frame_payload f), c\<lparr>ctl_conn := conn\<rparr>)))"

definition controller_hello :: HelloPayload where
  "controller_hello =
     \<lparr>hp_role = 0, hp_protocol_version = kFrameVersion, hp_worker_id = id_nil, hp_worker_boot_id = id_nil,
      hp_tag = ''proof-controller''\<rparr>"

text \<open>The result of \<^verbatim>\<open>TcpConnection::connect\<close>, an error text or the open connection, is an argument.\<close>

definition controller_connect :: "string + tcp_connection \<Rightarrow> unit call" where
  "controller_connect connect c =
     (case connect of
        Inl err \<Rightarrow> Some (Inl err, c)
      | Inr conn \<Rightarrow>
          (case send_frame HELLO (pack_hello controller_hello) conn of
             None \<Rightarrow> None
           | Some (Inl err, conn) \<Rightarrow> Some (Inl err, c\<lparr>ctl_conn := conn\<rparr>)
           | Some (Inr _, conn) \<Rightarrow>
               (case recv_frame conn of
                  None \<Rightarrow> None
                | Some (Inl err, conn) \<Rightarrow> Some (Inl err, c\<lparr>ctl_conn := conn\<rparr>)
                | Some (Inr f, conn) \<Rightarrow>
                    let c = c\<lparr>ctl_conn := conn\<rparr> in
                    (if frame_type f \<noteq> WELCOME then Some (Inl ''expected WELCOME'', c)
                     else case unpack_welcome (frame_payload f) of
                       Inl err \<Rightarrow> Some (Inl err, c)
                     | Inr wp \<Rightarrow> Some (Inr (), c\<lparr>ctl_epoch := wp_epoch wp\<rparr>)))))"

definition controller_submit :: "ExecutionId \<Rightarrow> CoordinatorEpoch \<Rightarrow> SubmitAckPayload call" where
  "controller_submit ex epoch =
     exchange SUBMIT (pack_submit \<lparr>sp_execution_id = ex, sp_epoch = epoch\<rparr>) unpack_submit_ack"

definition controller_dispatch :: "ExecutionId \<Rightarrow> WorkerId \<Rightarrow> WorkerBootId \<Rightarrow> CoordinatorEpoch \<Rightarrow> DispatchAckPayload call" where
  "controller_dispatch ex w b epoch =
     exchange DISPATCH
       (pack_dispatch \<lparr>dr_execution_id = ex, dr_epoch = epoch, dr_worker_id = w, dr_worker_boot_id = b\<rparr>)
       unpack_dispatch_ack"

definition controller_complete :: "CompletionTicket \<Rightarrow> u8 list \<Rightarrow> CompleteAckPayload call" where
  "controller_complete ct result =
     exchange COMPLETE (pack_complete \<lparr>completion_ticket = ct, result_bytes = result\<rparr>) unpack_complete_ack"

definition controller_cancel :: "ControlRequest \<Rightarrow> Decision call" where
  "controller_cancel req = exchange CANCEL (pack_cancel \<lparr>cancel_request = req\<rparr>) unpack_decision"

definition controller_preempt :: "ControlRequest \<Rightarrow> Decision call" where
  "controller_preempt req = exchange PREEMPT (pack_preempt \<lparr>cancel_request = req\<rparr>) unpack_decision"

definition controller_ack_preempt :: "ExecutionId \<Rightarrow> CoordinatorEpoch \<Rightarrow> Decision call" where
  "controller_ack_preempt ex epoch =
     exchange ACK_PREEMPT (pack_ack_preempt \<lparr>ap_execution_id = ex, ap_epoch = epoch\<rparr>) unpack_decision"

definition controller_mark_resumable :: "ExecutionId \<Rightarrow> CoordinatorEpoch \<Rightarrow> Decision call" where
  "controller_mark_resumable ex epoch =
     exchange MARK_RESUMABLE (pack_mark_resumable \<lparr>mr_execution_id = ex, mr_epoch = epoch\<rparr>) unpack_decision"

definition controller_resume :: "ResumeRequestPayload \<Rightarrow> DispatchAckPayload call" where
  "controller_resume rp = exchange RESUME (pack_resume rp) unpack_dispatch_ack"

definition controller_query :: "ExecutionId \<Rightarrow> QueryResponsePayload call" where
  "controller_query ex = exchange QUERY (pack_query \<lparr>qp_execution_id = ex\<rparr>) unpack_query_response"

text \<open>
  \<^verbatim>\<open>wait_state\<close>: the elapsed times that the successive readings of the clock give are an argument.
  The loop has not ended when there is no further reading: \<open>None\<close>.
\<close>

fun wait_state :: "ExecutionId \<Rightarrow> ExecutionState list \<Rightarrow> int \<Rightarrow> int list \<Rightarrow> controller
    \<Rightarrow> (QueryResponsePayload option \<times> controller) option" where
  "wait_state ex want timeout_ms [] c = None"
| "wait_state ex want timeout_ms (t # ts) c =
     (if \<not> t < timeout_ms then Some (None, c)
      else case controller_query ex c of
        None \<Rightarrow> None
      | Some (Inl _, c) \<Rightarrow> wait_state ex want timeout_ms ts c
      | Some (Inr qr, c) \<Rightarrow>
          if list_ex (\<lambda>s. qr_state qr = ExecutionState_value s) want then Some (Some qr, c)
          else wait_state ex want timeout_ms ts c)"

section \<open>The answers of the coordinator\<close>

text \<open>The frames a handler hands to one connection.\<close>

definition replies :: "u64 \<Rightarrow> coordinator \<Rightarrow> coordinator \<Rightarrow> DecodedFrame list" where
  "replies conn c c' =
     map (\<lambda>(_, ty, p). \<lparr>frame_type = ty, frame_payload = p\<rparr>)
       (filter (\<lambda>(k, _). k = conn) (drop (length (outbox c)) (outbox c')))"

definition conn_open :: "u64 \<Rightarrow> coordinator \<Rightarrow> bool" where
  "conn_open conn c \<longleftrightarrow> (case map_of (conns c) conn of None \<Rightarrow> False | Some e \<Rightarrow> ce_conn e)"

lemma outbox_send [simp]:
  "outbox (send_to conn ty p c) = outbox c @ (if conn_open conn c then [(conn, ty, p)] else [])"
  by (auto simp: send_to_def conn_open_def split: option.split)

lemma conn_open_helpers [simp]:
  "conn_open k (send_to conn ty p c) = conn_open k c" "conn_open k (persist io c) = conn_open k c"
  "conn_open k (set_active conn t c) = conn_open k c" "conn_open k (c\<lparr>co_engine := eng\<rparr>) = conn_open k c"
  by (auto simp: conn_open_def send_to_def persist_def set_active_def update_conv split: option.split prod.split)

text \<open>
  A connection that neither fails nor ends, that will still take \<open>n\<close> bytes and deliver exactly \<open>bs\<close>,
  in whatever pieces.
\<close>

definition channel :: "tcp_connection \<Rightarrow> nat \<Rightarrow> u8 list \<Rightarrow> bool" where
  "channel tc n bs \<longleftrightarrow>
     fd_open tc \<and> stream_clean (incoming tc) \<and> stream_bytes (incoming tc) = bs \<and>
     send_clean (send_results tc) \<and> n \<le> send_calls (send_results tc)"

lemma send_then_receive:
  assumes "channel tc (length (encode_frame ty p) + n) (encode_frame ty' p' @ later)" "length p' \<le> kMaxPayload"
  shows "\<exists>tc1 tc2. send_frame ty p tc = Some (Inr (), tc1) \<and> recv_frame tc1 = Some (Inr \<lparr>frame_type = ty', frame_payload = p'\<rparr>, tc2) \<and>
    channel tc2 n later \<and> sent tc2 = sent tc @ encode_frame ty p"
proof -
  note ch = assms(1)[unfolded channel_def]
  have "length (encode_frame ty p) \<le> send_calls (send_results tc)" using ch by simp
  then obtain sevs where s: "send_frame ty p tc = Some (Inr (), tc\<lparr>send_results := sevs, sent := sent tc @ encode_frame ty p\<rparr>)"
      "send_clean sevs" "send_calls (send_results tc) \<le> length (encode_frame ty p) + send_calls sevs"
    using send_frame_returns [of tc ty p] ch by blast
  let ?tc = "tc\<lparr>send_results := sevs, sent := sent tc @ encode_frame ty p\<rparr>"
  obtain evs where r: "recv_frame ?tc = Some (Inr \<lparr>frame_type = ty', frame_payload = p'\<rparr>, ?tc\<lparr>incoming := evs\<rparr>)"
      "stream_clean evs" "stream_bytes evs = later"
    using recv_frame_returns [of ?tc p' ty' later] ch assms(2) by auto
  have "channel (?tc\<lparr>incoming := evs\<rparr>) n later" using ch s r by (simp add: channel_def)
  then show ?thesis using s(1) r(1) by (intro exI [of _ ?tc] exI [of _ "?tc\<lparr>incoming := evs\<rparr>"]) simp
qed

lemma exchange_returns:
  assumes "channel (ctl_conn ctl) (length (encode_frame ty p) + n) (encode_frame ty' p' @ later)" "length p' \<le> kMaxPayload"
  shows "\<exists>ctl'. exchange ty p unpack ctl = Some (unpack p', ctl') \<and> channel (ctl_conn ctl') n later \<and>
    sent (ctl_conn ctl') = sent (ctl_conn ctl) @ encode_frame ty p \<and> ctl_epoch ctl' = ctl_epoch ctl"
  using send_then_receive [OF assms] by (fastforce simp: exchange_def)

text \<open>
  A request, its reply, and what both sides rely on: the handler sends one frame to the client, and
  the client's unpacking reads the payload of that frame.
\<close>

locale request_reply =
  fixes type :: MsgType and pack :: "'r \<Rightarrow> u8 list" and valid :: "u64 \<Rightarrow> coordinator \<Rightarrow> 'r \<Rightarrow> bool"
    and unpack_ack :: "u8 list \<Rightarrow> string + 'a" and outcome_of :: "environment \<Rightarrow> coordinator \<Rightarrow> 'r \<Rightarrow> string + 'a"
  assumes answered: "valid conn c r \<Longrightarrow> conn_open conn c \<Longrightarrow> handle_frame env conn type (pack r) c = Inr c' \<Longrightarrow>
      \<exists>ack p. replies conn c c' = [\<lparr>frame_type = ack, frame_payload = p\<rparr>] \<and> length p \<le> kMaxPayload \<and> unpack_ack p = outcome_of env c r"
begin

lemma call_answered:
  assumes "valid conn c r" "conn_open conn c" "handle_frame env conn type (pack r) c = Inr c'"
    and "channel (ctl_conn ctl) (length (encode_frame type (pack r)) + n) (concat (map frame_bytes (replies conn c c')) @ later)"
  shows "\<exists>ctl'. exchange type (pack r) unpack_ack ctl = Some (outcome_of env c r, ctl') \<and> channel (ctl_conn ctl') n later \<and>
    sent (ctl_conn ctl') = sent (ctl_conn ctl) @ encode_frame type (pack r) \<and> ctl_epoch ctl' = ctl_epoch ctl"
proof -
  obtain ack p where "replies conn c c' = [\<lparr>frame_type = ack, frame_payload = p\<rparr>]" "length p \<le> kMaxPayload" "unpack_ack p = outcome_of env c r"
    using answered [OF assms(1-3)] by blast
  then show ?thesis using exchange_returns [of ctl type "pack r" n ack p later unpack_ack] assms(4) by (simp add: frame_bytes_def)
qed

end

section \<open>The requests of a client\<close>

datatype request =
    Submit ExecutionId CoordinatorEpoch
  | Dispatch_to ExecutionId WorkerId WorkerBootId CoordinatorEpoch
  | Report CompletionTicket "u8 list"
  | Cancel_it ControlRequest
  | Preempt_it ControlRequest
  | Ack_preempt ExecutionId CoordinatorEpoch
  | Make_resumable ExecutionId CoordinatorEpoch
  | Resume_it ResumeRequestPayload
  | Ask ExecutionId

datatype reply =
    Submitted SubmitAckPayload
  | Dispatched DispatchAckPayload
  | Reported CompleteAckPayload
  | Decided Decision
  | Asked QueryResponsePayload

definition as_reply :: "('a \<Rightarrow> reply) \<Rightarrow> ((string + 'a) \<times> controller) option \<Rightarrow> ((string + reply) \<times> controller) option" where
  "as_reply f = map_option (map_prod (map_sum id f) id)"

fun controller_call :: "request \<Rightarrow> reply call" where
  "controller_call (Submit ex e) c = as_reply Submitted (controller_submit ex e c)"
| "controller_call (Dispatch_to ex w b e) c = as_reply Dispatched (controller_dispatch ex w b e c)"
| "controller_call (Report ct result) c = as_reply Reported (controller_complete ct result c)"
| "controller_call (Cancel_it req) c = as_reply Decided (controller_cancel req c)"
| "controller_call (Preempt_it req) c = as_reply Decided (controller_preempt req c)"
| "controller_call (Ack_preempt ex e) c = as_reply Decided (controller_ack_preempt ex e c)"
| "controller_call (Make_resumable ex e) c = as_reply Decided (controller_mark_resumable ex e c)"
| "controller_call (Resume_it rp) c = as_reply Dispatched (controller_resume rp c)"
| "controller_call (Ask ex) c = as_reply Asked (controller_query ex c)"

text \<open>What the coordinator has to answer, from the decisions of the engine.\<close>

definition submit_answer :: "environment \<Rightarrow> coordinator \<Rightarrow> SubmitPayload \<Rightarrow> SubmitAckPayload" where
  "submit_answer env c sp =
     (case create (co_engine c) (sp_execution_id sp) (sp_epoch sp) (env_now env) of
        (d, eng) \<Rightarrow>
          if code d \<noteq> ALLOW then submit_ack env eng (sp_execution_id sp) d
          else (case activate eng (sp_execution_id sp) (sp_epoch sp) of
                  Inl _ \<Rightarrow> submit_ack env eng (sp_execution_id sp) d
                | Inr (d, eng) \<Rightarrow> submit_ack env eng (sp_execution_id sp) d))"

definition dispatch_answer :: "environment \<Rightarrow> coordinator \<Rightarrow> DispatchRequestPayload \<Rightarrow> DispatchAckPayload" where
  "dispatch_answer env c dp =
     (if find_worker (dr_worker_id dp) c = 0
      then \<lparr>da_accepted = False, da_decision = REJECT_NOT_OWNER, da_reason = ''worker not connected'', da_ticket = DispatchTicket_init\<rparr>
      else case dispatch (co_engine c) (dr_execution_id dp) (dr_worker_id dp) (dr_worker_boot_id dp) (dr_epoch dp)
             (env_attempt_draws env) (env_dispatch_draws env) DispatchTicket_init of
        Inl _ \<Rightarrow> \<lparr>da_accepted = False, da_decision = ALLOW, da_reason = [], da_ticket = DispatchTicket_init\<rparr>
      | Inr (d, ticket, _) \<Rightarrow>
          \<lparr>da_accepted = (code d = ALLOW), da_decision = code d, da_reason = Decision_to_string d, da_ticket = ticket\<rparr>)"

definition complete_answer :: "environment \<Rightarrow> coordinator \<Rightarrow> CompletePayload \<Rightarrow> CompleteAckPayload" where
  "complete_answer env c cp =
     (let t = with_digest (env_junk env) cp; d = fst (complete (co_engine c) t (env_now env))
      in \<lparr>ca_decision = code d, ca_reason = Decision_to_string d, ca_committed = (code d = ALLOW),
          ca_committed_digest = (if code d = ALLOW then ct_result_digest t else ResultDigest_nil)\<rparr>)"

definition resume_answer :: "environment \<Rightarrow> coordinator \<Rightarrow> ResumeRequestPayload \<Rightarrow> DispatchAckPayload" where
  "resume_answer env c rp =
     (case resume (co_engine c) (rr_execution_id rp) (rr_worker_id rp) (rr_worker_boot_id rp) (rr_epoch rp) (resume_gen rp)
        (env_attempt_draws env) (env_dispatch_draws env) DispatchTicket_init of
      (d, ticket, _) \<Rightarrow>
        \<lparr>da_accepted = (code d = RESUME_ALLOWED \<or> code d = ALLOW), da_decision = code d,
         da_reason = Decision_to_string d, da_ticket = ticket\<rparr>)"

section \<open>Every handler answers\<close>

lemmas answer_eval = handle_frame_def on_payload_def replies_def Let_def split_beta

text \<open>The texts of the answers are short.\<close>

lemma submit_returns: "create eng i e now = (d, eng') \<Longrightarrow> code d = ALLOW \<Longrightarrow> \<exists>r. activate eng' i e = Inr r"
  by (auto simp: create_def activate_def require_def Let_def mk_decision_def split: if_splits option.splits prod.splits)

lemma ack_texts:
  "sa_reason (submit_ack env eng i d) = Decision_to_string d" "length (qr_detail (query_response env eng i)) \<le> kMaxString"
  using order_trans [OF length_state, of 1048570]
  by (simp_all add: submit_ack_def query_response_def kMaxString_def Let_def split: option.split)

lemma submit_answer_ack: "\<exists>eng d. submit_answer env c sp = submit_ack env eng (sp_execution_id sp) d \<and> brief d"
proof -
  obtain d eng where cr: "create (co_engine c) (sp_execution_id sp) (sp_epoch sp) (env_now env) = (d, eng)" by fastforce
  then have "brief d" using brief_operations(6) [of "co_engine c" "sp_execution_id sp" "sp_epoch sp" "env_now env"] by simp
  moreover have "brief d'" if "activate eng (sp_execution_id sp) (sp_epoch sp) = Inr (d', eng')" for d' eng'
    using brief_operations(8) [OF that] .
  ultimately show ?thesis using cr
    by (cases "activate eng (sp_execution_id sp) (sp_epoch sp)") (auto simp: submit_answer_def split: prod.splits)
qed

lemma dispatch_answer_short: "length (da_reason (dispatch_answer env c dp)) \<le> kMaxString"
proof (cases "dispatch (co_engine c) (dr_execution_id dp) (dr_worker_id dp) (dr_worker_boot_id dp) (dr_epoch dp)
    (env_attempt_draws env) (env_dispatch_draws env) DispatchTicket_init")
  case (Inr r)
  obtain d tk eng where "r = (d, tk, eng)" by (cases r)
  with Inr have "brief d" using brief_operations(9) by blast
  then have "length (Decision_to_string d) \<le> kMaxString" by (rule brief_reason)
  then show ?thesis using Inr \<open>r = (d, tk, eng)\<close> by (simp add: dispatch_answer_def kMaxString_def)
qed (simp add: dispatch_answer_def kMaxString_def)

lemma resume_answer_short: "length (da_reason (resume_answer env c rp)) \<le> kMaxString"
  by (simp add: resume_answer_def split_beta brief_reason brief_operations)

interpretation submits: request_reply SUBMIT pack_submit "\<lambda>_ _ _. True" unpack_submit_ack
    "\<lambda>env c r. with_state sa_state (submit_answer env c r)"
proof
  fix conn c r env c'
  assume *: "conn_open conn c" "handle_frame env conn SUBMIT (pack_submit r) c = Inr c'"
  then have "replies conn c c' = [\<lparr>frame_type = SUBMIT_ACK, frame_payload = pack_submit_ack (submit_answer env c r)\<rparr>]"
    by (auto simp: answer_eval submit_codec.unpack_pack handle_submit_def submit_answer_def split: sum.splits if_splits)
  moreover have short: "length (sa_reason (submit_answer env c r)) \<le> kMaxString"
    using submit_answer_ack [of env c r] ack_texts(1) brief_reason by metis
  moreover have "length (pack_submit_ack (submit_answer env c r)) \<le> kMaxPayload"
    using short by (simp add: pack_submit_ack_def put_string_def kMaxPayload_def kMaxString_def)
  ultimately show "\<exists>ack p. replies conn c c' = [\<lparr>frame_type = ack, frame_payload = p\<rparr>] \<and> length p \<le> kMaxPayload \<and>
      unpack_submit_ack p = with_state sa_state (submit_answer env c r)"
    using unpack_pack_submit_ack by blast
qed

lemma dispatch_ack_replied:
  assumes "replies conn c c' = [\<lparr>frame_type = ty, frame_payload = pack_dispatch_ack a\<rparr>]" "length (da_reason a) \<le> kMaxString"
  shows "\<exists>ack p. replies conn c c' = [\<lparr>frame_type = ack, frame_payload = p\<rparr>] \<and> length p \<le> kMaxPayload \<and> unpack_dispatch_ack p = Inr a"
  using assms dispatch_ack_codec.unpack_pack [OF assms(2)]
  by (simp add: pack_dispatch_ack_def put_string_def put_dispatch_ticket_def kMaxPayload_def kMaxString_def)

interpretation dispatches: request_reply DISPATCH pack_dispatch "\<lambda>conn c r. find_worker (dr_worker_id r) c \<noteq> conn"
    unpack_dispatch_ack "\<lambda>env c r. Inr (dispatch_answer env c r)"
proof
  fix conn c r env c'
  assume *: "find_worker (dr_worker_id r) c \<noteq> conn" "conn_open conn c" "handle_frame env conn DISPATCH (pack_dispatch r) c = Inr c'"
  then have "replies conn c c' = [\<lparr>frame_type = DISPATCH_ACK, frame_payload = pack_dispatch_ack (dispatch_answer env c r)\<rparr>]"
    by (auto simp: answer_eval dispatch_codec.unpack_pack handle_dispatch_def dispatch_answer_def split: sum.splits if_splits)
  then show "\<exists>ack p. replies conn c c' = [\<lparr>frame_type = ack, frame_payload = p\<rparr>] \<and> length p \<le> kMaxPayload \<and>
      unpack_dispatch_ack p = Inr (dispatch_answer env c r)"
    by (rule dispatch_ack_replied [OF _ dispatch_answer_short])
qed

interpretation resumes: request_reply RESUME pack_resume "\<lambda>conn c r. find_worker (rr_worker_id r) c \<noteq> conn"
    unpack_dispatch_ack "\<lambda>env c r. Inr (resume_answer env c r)"
proof
  fix conn c r env c'
  assume *: "find_worker (rr_worker_id r) c \<noteq> conn" "conn_open conn c" "handle_frame env conn RESUME (pack_resume r) c = Inr c'"
  then have "replies conn c c' = [\<lparr>frame_type = RESUME_ACK, frame_payload = pack_dispatch_ack (resume_answer env c r)\<rparr>]"
    by (auto simp: answer_eval resume_codec.unpack_pack handle_resume_def resume_answer_def split: if_splits)
  then show "\<exists>ack p. replies conn c c' = [\<lparr>frame_type = ack, frame_payload = p\<rparr>] \<and> length p \<le> kMaxPayload \<and>
      unpack_dispatch_ack p = Inr (resume_answer env c r)"
    by (rule dispatch_ack_replied [OF _ resume_answer_short])
qed

lemma committed_by_complete:
  assumes "code (fst (complete eng t now)) = ALLOW"
  shows "\<exists>r. find_record (snd (complete eng t now)) (ct_execution_id t) = Some r \<and> committed_digest r = Some (ct_result_digest t)"
proof (cases "find_record eng (ct_execution_id t)")
  case None
  then show ?thesis using assms by (simp add: complete_def on_record_def mk_decision_def)
next
  case (Some r)
  then have "code (fst (complete_rec (eng_epoch eng) now t r)) = ALLOW" using assms complete_on_record [OF Some] by simp
  then show ?thesis using snd_complete_rec [of "eng_epoch eng" now t r] complete_on_record [OF Some] by (simp add: code_complete_rec)
qed

interpretation reports: request_reply COMPLETE pack_complete "\<lambda>_ _ r. length (result_bytes r) \<le> kMaxVector" unpack_complete_ack
    "\<lambda>env c r. Inr (complete_answer env c (received_completion r))"
proof
  fix conn c r env c'
  assume *: "length (result_bytes r) \<le> kMaxVector" "conn_open conn c" "handle_frame env conn COMPLETE (pack_complete r) c = Inr c'"
  let ?r = "received_completion r" and ?a = "complete_answer env c (received_completion r)"
  have "ct_execution_id (with_digest (env_junk env) ?r) = ct_execution_id (completion_ticket ?r)" by (simp add: with_digest_def Let_def)
  then have "replies conn c c' = [\<lparr>frame_type = COMPLETE_ACK, frame_payload = pack_complete_ack ?a\<rparr>]"
    using * committed_by_complete [of "co_engine c" "with_digest (env_junk env) ?r" "env_now env"]
    by (auto simp: answer_eval unpack_pack_complete handle_complete_def complete_answer_def)
  moreover have short: "length (ca_reason ?a) \<le> kMaxString"
    by (simp add: complete_answer_def Let_def brief_reason brief_operations)
  then have "length (pack_complete_ack ?a) \<le> kMaxPayload"
    by (simp add: pack_complete_ack_def put_string_def kMaxPayload_def kMaxString_def put_digest_def)
  moreover have "\<not> ca_committed ?a \<longrightarrow> ca_committed_digest ?a = ResultDigest_nil"
    by (simp add: complete_answer_def Let_def)
  ultimately show "\<exists>ack p. replies conn c c' = [\<lparr>frame_type = ack, frame_payload = p\<rparr>] \<and> length p \<le> kMaxPayload \<and>
      unpack_complete_ack p = Inr ?a"
    using complete_ack_codec.unpack_pack short by blast
qed

text \<open>The requests that are answered by a bare decision, as far as it is transmitted.\<close>

lemma decision_replied:
  assumes "replies conn c c' = [\<lparr>frame_type = ty, frame_payload = pack_decision d\<rparr>]" "brief d"
  shows "\<exists>ack p. replies conn c c' = [\<lparr>frame_type = ack, frame_payload = p\<rparr>] \<and> length p \<le> kMaxPayload \<and> unpack_decision p = Inr (wire_decision d)"
proof -
  have short: "length (reason d) \<le> kMaxString" using brief_wire [OF assms(2)] by (simp add: wire_decision_def)
  then have "unpack_decision (pack_decision d) = Inr (wire_decision d)" using unpack_decision_pack [of d "[]"] by simp
  moreover have "length (pack_decision d) \<le> kMaxPayload"
    using short by (simp add: pack_decision_def put_string_def put_opt_def kMaxPayload_def kMaxString_def split: option.split)
  ultimately show ?thesis using assms(1) by simp
qed

lemma control_replied:
  assumes "conn_open conn c" "c' = handle_control env conn ty r c"
  shows "replies conn c c' = [\<lparr>frame_type = ty, frame_payload = pack_decision (fst r)\<rparr>]"
  using assms by (simp add: handle_control_def replies_def)

text \<open>A control request as it arrives.\<close>

abbreviation received_control :: "ControlRequest \<Rightarrow> ControlRequest" where
  "received_control req \<equiv> req\<lparr>req_execution_generation := Gen 0\<rparr>"

interpretation cancels: request_reply CANCEL pack_cancel "\<lambda>_ _ _. True"
    unpack_decision "\<lambda>_ c r. Inr (wire_decision (fst (cancel (co_engine c) (received_control (cancel_request r)))))"
  by standard (rule decision_replied [OF control_replied], auto simp: answer_eval unpack_pack_cancel brief_operations)

interpretation preempts: request_reply PREEMPT pack_preempt "\<lambda>_ _ _. True"
    unpack_decision "\<lambda>_ c r. Inr (wire_decision (fst (preempt (co_engine c) (received_control (cancel_request r)))))"
  by standard (rule decision_replied [OF control_replied], auto simp: answer_eval unpack_pack_cancel pack_preempt_def brief_operations)

interpretation ack_preempts: request_reply ACK_PREEMPT pack_ack_preempt "\<lambda>_ _ _. True"
    unpack_decision "\<lambda>_ c r. Inr (wire_decision (fst (acknowledge_preempt (co_engine c) (ap_execution_id r) (ap_epoch r))))"
  by standard (rule decision_replied [OF control_replied], auto simp: answer_eval ack_preempt_codec.unpack_pack brief_operations)

interpretation mark_resumables: request_reply MARK_RESUMABLE pack_mark_resumable "\<lambda>_ _ _. True"
    unpack_decision "\<lambda>_ c r. Inr (wire_decision (fst (mark_resumable (co_engine c) (mr_execution_id r) (mr_epoch r))))"
  by standard (rule decision_replied [OF control_replied], auto simp: answer_eval mark_resumable_codec.unpack_pack brief_operations)

interpretation queries: request_reply QUERY pack_query "\<lambda>_ _ _. True" unpack_query_response
    "\<lambda>env c r. with_state qr_state (query_response env (co_engine c) (qp_execution_id r))"
proof
  fix conn and c :: coordinator and r :: QueryPayload and env c'
  let ?a = "query_response env (co_engine c) (qp_execution_id r)"
  assume *: "conn_open conn c" "handle_frame env conn QUERY (pack_query r) c = Inr c'"
  then have "replies conn c c' = [\<lparr>frame_type = QUERY_RESPONSE, frame_payload = pack_query_response ?a\<rparr>]"
    by (auto simp: answer_eval query_codec.unpack_pack handle_query_def)
  moreover have "length (pack_query_response ?a) \<le> kMaxPayload"
    using ack_texts(2) [of env "co_engine c" "qp_execution_id r"]
    by (simp add: pack_query_response_def put_string_def put_opt_def kMaxPayload_def kMaxString_def split: option.split)
  ultimately show "\<exists>ack p. replies conn c c' = [\<lparr>frame_type = ack, frame_payload = p\<rparr>] \<and> length p \<le> kMaxPayload \<and>
      unpack_query_response p = with_state qr_state ?a"
    using unpack_pack_query_response ack_texts(2) by blast
qed

section \<open>One request\<close>

fun request_frame :: "request \<Rightarrow> DecodedFrame" where
  "request_frame (Submit ex e) = \<lparr>frame_type = SUBMIT, frame_payload = pack_submit \<lparr>sp_execution_id = ex, sp_epoch = e\<rparr>\<rparr>"
| "request_frame (Dispatch_to ex w b e) = \<lparr>frame_type = DISPATCH, frame_payload =
     pack_dispatch \<lparr>dr_execution_id = ex, dr_epoch = e, dr_worker_id = w, dr_worker_boot_id = b\<rparr>\<rparr>"
| "request_frame (Report ct result) = \<lparr>frame_type = COMPLETE, frame_payload = pack_complete \<lparr>completion_ticket = ct, result_bytes = result\<rparr>\<rparr>"
| "request_frame (Cancel_it req) = \<lparr>frame_type = CANCEL, frame_payload = pack_cancel \<lparr>cancel_request = req\<rparr>\<rparr>"
| "request_frame (Preempt_it req) = \<lparr>frame_type = PREEMPT, frame_payload = pack_preempt \<lparr>cancel_request = req\<rparr>\<rparr>"
| "request_frame (Ack_preempt ex e) = \<lparr>frame_type = ACK_PREEMPT, frame_payload = pack_ack_preempt \<lparr>ap_execution_id = ex, ap_epoch = e\<rparr>\<rparr>"
| "request_frame (Make_resumable ex e) = \<lparr>frame_type = MARK_RESUMABLE, frame_payload = pack_mark_resumable \<lparr>mr_execution_id = ex, mr_epoch = e\<rparr>\<rparr>"
| "request_frame (Resume_it rp) = \<lparr>frame_type = RESUME, frame_payload = pack_resume rp\<rparr>"
| "request_frame (Ask ex) = \<lparr>frame_type = QUERY, frame_payload = pack_query \<lparr>qp_execution_id = ex\<rparr>\<rparr>"

text \<open>
  The requests considered: the client does not dispatch to a worker on its own connection, whose
  messages it would take for answers, and a result is within the limit of the format.
\<close>

fun request_ok :: "u64 \<Rightarrow> coordinator \<Rightarrow> request \<Rightarrow> bool" where
  "request_ok conn c (Dispatch_to ex w b e) \<longleftrightarrow> find_worker w c \<noteq> conn"
| "request_ok conn c (Resume_it rp) \<longleftrightarrow> find_worker (rr_worker_id rp) c \<noteq> conn"
| "request_ok conn c (Report ct result) \<longleftrightarrow> length result \<le> kMaxVector"
| "request_ok conn c _ \<longleftrightarrow> True"

text \<open>The coordinator's answer to a request as it arrives.\<close>

fun answer :: "environment \<Rightarrow> coordinator \<Rightarrow> request \<Rightarrow> reply" where
  "answer env c (Submit ex e) = Submitted (submit_answer env c \<lparr>sp_execution_id = ex, sp_epoch = e\<rparr>)"
| "answer env c (Dispatch_to ex w b e) =
     Dispatched (dispatch_answer env c \<lparr>dr_execution_id = ex, dr_epoch = e, dr_worker_id = w, dr_worker_boot_id = b\<rparr>)"
| "answer env c (Report ct result) = 
     Reported (complete_answer env c (received_completion \<lparr>completion_ticket = ct, result_bytes = result\<rparr>))"
| "answer env c (Cancel_it req) = Decided (wire_decision (fst (cancel (co_engine c) (received_control req))))"
| "answer env c (Preempt_it req) = Decided (wire_decision (fst (preempt (co_engine c) (received_control req))))"
| "answer env c (Ack_preempt ex e) = Decided (wire_decision (fst (acknowledge_preempt (co_engine c) ex e)))"
| "answer env c (Make_resumable ex e) = Decided (wire_decision (fst (mark_resumable (co_engine c) ex e)))"
| "answer env c (Resume_it rp) = Dispatched (resume_answer env c rp)"
| "answer env c (Ask ex) = Asked (query_response env (co_engine c) ex)"

text \<open>
  What the call returns. When the answer carries the state of an execution that the coordinator does
  not know, its state byte is the uninitialised one, which the client refuses unless it happens to be
  a state.
\<close>

fun state_known :: "coordinator \<Rightarrow> request \<Rightarrow> bool" where
  "state_known c (Submit ex e) \<longleftrightarrow> find_record (co_engine c) ex \<noteq> None \<or> \<not> e < eng_epoch (co_engine c)"
| "state_known c (Ask ex) \<longleftrightarrow> find_record (co_engine c) ex \<noteq> None"
| "state_known c _ \<longleftrightarrow> True"

definition outcome :: "environment \<Rightarrow> coordinator \<Rightarrow> request \<Rightarrow> string + reply" where
  "outcome env c r =
     (if state_known c r \<or> valid_exec_state (env_uninit env) then Inr (answer env c r) else Inl ''invalid state enum'')"

lemma state_byte_valid [simp]: "valid_exec_state (ExecutionState_value s)"
  by (cases s) (simp_all add: valid_exec_state_def)

lemma ack_state_valid:
  "valid_exec_state (sa_state (submit_ack env eng i d)) \<longleftrightarrow> find_record eng i \<noteq> None \<or> valid_exec_state (env_uninit env)"
  "valid_exec_state (qr_state (query_response env eng i)) \<longleftrightarrow> find_record eng i \<noteq> None \<or> valid_exec_state (env_uninit env)"
  by (simp_all add: submit_ack_def query_response_def Let_def split: option.split)

lemma create_known:
  "create eng i e now = (d, eng') \<Longrightarrow> find_record eng' i \<noteq> None \<longleftrightarrow> find_record eng i \<noteq> None \<or> \<not> e < eng_epoch eng"
  by (auto simp: create_def Let_def mk_decision_def adopt_epoch_def split: if_splits)

lemma create_allowed: "create eng i e now = (d, eng') \<Longrightarrow> code d = ALLOW \<Longrightarrow> \<not> e < eng_epoch eng"
  by (auto simp: create_def mk_decision_def split: if_splits)

lemma activate_known: "activate eng i e = Inr (d, eng') \<Longrightarrow> find_record eng' i \<noteq> None"
  by (auto simp: activate_def require_def Let_def split: if_splits option.splits prod.splits)

lemma submit_state:
  "valid_exec_state (sa_state (submit_answer env c \<lparr>sp_execution_id = ex, sp_epoch = e\<rparr>)) \<longleftrightarrow>
     state_known c (Submit ex e) \<or> valid_exec_state (env_uninit env)"
proof -
  obtain d eng where cr: "create (co_engine c) ex e (env_now env) = (d, eng)" by fastforce
  show ?thesis
    using create_known [OF cr] create_allowed [OF cr] cr activate_known [of eng ex e]
    by (auto simp: submit_answer_def ack_state_valid split: sum.splits)
qed

lemma controller_call_answered:
  assumes "request_ok conn c r" "conn_open conn c"
    and "handle_frame env conn (frame_type (request_frame r)) (frame_payload (request_frame r)) c = Inr c'"
    and "channel (ctl_conn ctl) (length (frame_bytes (request_frame r)) + n) (concat (map frame_bytes (replies conn c c')) @ later)"
  shows "\<exists>ctl'. controller_call r ctl = Some (outcome env c r, ctl') \<and> channel (ctl_conn ctl') n later \<and>
    sent (ctl_conn ctl') = sent (ctl_conn ctl) @ frame_bytes (request_frame r) \<and> ctl_epoch ctl' = ctl_epoch ctl"
proof (cases r)
  case (Submit ex e)
  then show ?thesis using submits.call_answered [where conn = conn and c = c and env = env and c' = c' and r = "\<lparr>sp_execution_id = ex, sp_epoch = e\<rparr>"
      and ctl = ctl and n = n and later = later] assms
    by (auto simp: frame_bytes_def as_reply_def outcome_def controller_submit_def with_state_def submit_state)
next
  case (Dispatch_to ex w b e)
  then show ?thesis using dispatches.call_answered [where conn = conn and c = c and env = env and c' = c' and r = "\<lparr>dr_execution_id = ex, dr_epoch = e, dr_worker_id = w, dr_worker_boot_id = b\<rparr>"
      and ctl = ctl and n = n and later = later] assms
    by (auto simp: frame_bytes_def as_reply_def outcome_def controller_dispatch_def)
next
  case (Report ct result)
  then show ?thesis using reports.call_answered [where conn = conn and c = c and env = env and c' = c' and r = "\<lparr>completion_ticket = ct, result_bytes = result\<rparr>"
      and ctl = ctl and n = n and later = later] assms
    by (auto simp: frame_bytes_def as_reply_def outcome_def controller_complete_def)
next
  case (Cancel_it req)
  then show ?thesis using cancels.call_answered [where conn = conn and c = c and env = env and c' = c' and r = "\<lparr>cancel_request = req\<rparr>"
      and ctl = ctl and n = n and later = later] assms
    by (auto simp: frame_bytes_def as_reply_def outcome_def controller_cancel_def)
next
  case (Preempt_it req)
  then show ?thesis using preempts.call_answered [where conn = conn and c = c and env = env and c' = c' and r = "\<lparr>cancel_request = req\<rparr>"
      and ctl = ctl and n = n and later = later] assms
    by (auto simp: frame_bytes_def as_reply_def outcome_def controller_preempt_def)
next
  case (Ack_preempt ex e)
  then show ?thesis using ack_preempts.call_answered [where conn = conn and c = c and env = env and c' = c' and r = "\<lparr>ap_execution_id = ex, ap_epoch = e\<rparr>"
      and ctl = ctl and n = n and later = later] assms
    by (auto simp: frame_bytes_def as_reply_def outcome_def controller_ack_preempt_def)
next
  case (Make_resumable ex e)
  then show ?thesis using mark_resumables.call_answered [where conn = conn and c = c and env = env and c' = c' and r = "\<lparr>mr_execution_id = ex, mr_epoch = e\<rparr>"
      and ctl = ctl and n = n and later = later] assms
    by (auto simp: frame_bytes_def as_reply_def outcome_def controller_mark_resumable_def)
next
  case (Resume_it rp)
  then show ?thesis using resumes.call_answered [where conn = conn and c = c and env = env and c' = c' and r = "rp"
      and ctl = ctl and n = n and later = later] assms
    by (auto simp: frame_bytes_def as_reply_def outcome_def controller_resume_def)
next
  case (Ask ex)
  then show ?thesis using queries.call_answered [where conn = conn and c = c and env = env and c' = c' and r = "\<lparr>qp_execution_id = ex\<rparr>"
      and ctl = ctl and n = n and later = later] assms
    by (auto simp: frame_bytes_def as_reply_def outcome_def controller_query_def with_state_def ack_state_valid)
qed

section \<open>A session\<close>

fun controller_calls :: "request list \<Rightarrow> controller \<Rightarrow> ((string + reply) list \<times> controller) option" where
  "controller_calls [] c = Some ([], c)"
| "controller_calls (r # rs) c =
     (case controller_call r c of
        None \<Rightarrow> None
      | Some (a, c) \<Rightarrow> map_option (map_prod ((#) a) id) (controller_calls rs c))"

text \<open>
  The coordinator's side: it decides the requests of the client in order, and in between frames of
  other connections that send nothing to this one. What the calls return and the frames sent to the
  client are collected.
\<close>

inductive served :: "u64 \<Rightarrow> coordinator \<Rightarrow> request list \<Rightarrow> (string + reply) list \<Rightarrow> DecodedFrame list \<Rightarrow> coordinator \<Rightarrow> bool" for conn where
  served_nil: "served conn c [] [] [] c"
| served_request: "request_ok conn c r \<Longrightarrow> conn_open conn c \<Longrightarrow>
    handle_frame env conn (frame_type (request_frame r)) (frame_payload (request_frame r)) c = Inr c1 \<Longrightarrow>
    served conn c1 rs as fs c' \<Longrightarrow> served conn c (r # rs) (outcome env c r # as) (replies conn c c1 @ fs) c'"
| served_other: "decide_inbound env inb c = Inr c1 \<Longrightarrow> in_conn inb \<noteq> conn \<Longrightarrow> replies conn c c1 = [] \<Longrightarrow>
    served conn c1 rs as fs c' \<Longrightarrow> served conn c rs as fs c'"

lemma session_answered:
  assumes "served conn c rs as fs c'"
    and "channel (ctl_conn ctl) (length (concat (map (\<lambda>r. frame_bytes (request_frame r)) rs)) + n) (concat (map frame_bytes fs) @ later)"
  shows "\<exists>ctl'. controller_calls rs ctl = Some (as, ctl') \<and> channel (ctl_conn ctl') n later \<and>
    sent (ctl_conn ctl') = sent (ctl_conn ctl) @ concat (map (\<lambda>r. frame_bytes (request_frame r)) rs) \<and> ctl_epoch ctl' = ctl_epoch ctl"
  using assms
proof (induction arbitrary: ctl)
  case (served_request c r env c1 rs as fs c')
  have "channel (ctl_conn ctl) (length (frame_bytes (request_frame r)) + (length (concat (map (\<lambda>r. frame_bytes (request_frame r)) rs)) + n))
      (concat (map frame_bytes (replies conn c c1)) @ concat (map frame_bytes fs) @ later)"
    using served_request.prems by (simp add: add.assoc)
  from controller_call_answered [OF served_request.hyps(1,2,3) this] obtain ctl1 where
    c1: "controller_call r ctl = Some (outcome env c r, ctl1)"
      "channel (ctl_conn ctl1) (length (concat (map (\<lambda>r. frame_bytes (request_frame r)) rs)) + n) (concat (map frame_bytes fs) @ later)"
      "sent (ctl_conn ctl1) = sent (ctl_conn ctl) @ frame_bytes (request_frame r)" "ctl_epoch ctl1 = ctl_epoch ctl" by blast
  from served_request.IH [OF c1(2)] c1 show ?case by auto
qed auto

text \<open>The handshake: the client learns the epoch the coordinator was started with.\<close>

lemma hello_reply:
  assumes "conn_open conn c"
  shows "conn_open conn (handle_hello conn hp c)"
    "replies conn c (handle_hello conn hp c) = [\<lparr>frame_type = WELCOME, frame_payload = pack_welcome
      \<lparr>wp_epoch = co_epoch c, wp_coordinator_id = ''ExecutionFabric-coordinator'', wp_protocol_version = ucast kFrameVersion\<rparr>\<rparr>]"
proof -
  have e: "conn_open conn (c\<lparr>conns := AList.update conn e (conns c)\<rparr>) \<longleftrightarrow> ce_conn e" for e
    by (simp add: conn_open_def update_conv)
  obtain e0 where "map_of (conns c) conn = Some e0" "ce_conn e0" using assms by (auto simp: conn_open_def split: option.splits)
  then show "conn_open conn (handle_hello conn hp c)"
    "replies conn c (handle_hello conn hp c) = [\<lparr>frame_type = WELCOME, frame_payload = pack_welcome
      \<lparr>wp_epoch = co_epoch c, wp_coordinator_id = ''ExecutionFabric-coordinator'', wp_protocol_version = ucast kFrameVersion\<rparr>\<rparr>]"
    by (simp_all add: handle_hello_def replies_def Let_def e)
qed

lemma controller_connects:
  assumes "conn_open conn c" "c' = handle_hello conn controller_hello c"
    and "channel tc (length (encode_frame HELLO (pack_hello controller_hello)) + n) (concat (map frame_bytes (replies conn c c')) @ later)"
  shows "\<exists>ctl'. controller_connect (Inr tc) ctl = Some (Inr (), ctl') \<and> ctl_epoch ctl' = co_epoch c \<and> channel (ctl_conn ctl') n later \<and>
    sent (ctl_conn ctl') = sent tc @ encode_frame HELLO (pack_hello controller_hello)"
proof -
  let ?wp = "\<lparr>wp_epoch = co_epoch c, wp_coordinator_id = ''ExecutionFabric-coordinator'', wp_protocol_version = ucast kFrameVersion\<rparr>"
  have "replies conn c c' = [\<lparr>frame_type = WELCOME, frame_payload = pack_welcome ?wp\<rparr>]"
    using assms(2) hello_reply(2) [OF assms(1)] by simp
  then have "channel tc (length (encode_frame HELLO (pack_hello controller_hello)) + n) (encode_frame WELCOME (pack_welcome ?wp) @ later)"
    using assms(3) by (simp add: frame_bytes_def)
  moreover have "length (pack_welcome ?wp) \<le> kMaxPayload" by (simp add: pack_welcome_def put_string_def kMaxPayload_def)
  moreover have "unpack_welcome (pack_welcome ?wp) = Inr ?wp" by (rule welcome_codec.unpack_pack) (simp add: kMaxString_def)
  ultimately show ?thesis
    using send_then_receive [of tc HELLO "pack_hello controller_hello" n WELCOME "pack_welcome ?wp" later]
    by (fastforce simp: controller_connect_def Let_def)
qed

section \<open>Waiting for a state\<close>

text \<open>
  A success is the answer to the last query, in a wanted state. The loop ends at the latest when a
  reading of the clock reaches the limit, if there is a response for every query before.
\<close>

lemma wait_state_success:
  "wait_state ex want timeout ts c = Some (Some qr, c') \<Longrightarrow>
     list_ex (\<lambda>s. qr_state qr = ExecutionState_value s) want \<and> (\<exists>c0. controller_query ex c0 = Some (Inr qr, c'))"
proof (induction ts arbitrary: c)
  case (Cons t ts)
  then obtain a c1 where q: "controller_query ex c = Some (a, c1)" by (auto split: if_splits option.splits)
  show ?case
  proof (cases a)
    case (Inl e)
    then show ?thesis using Cons q by (simp split: if_splits)
  next
    case (Inr r)
    then show ?thesis using Cons q by (auto split: if_splits)
  qed
qed simp

lemma wait_state_returns:
  assumes "\<not> t < timeout" "length us \<le> length ps" "list_all (\<lambda>p. length p \<le> kMaxPayload) ps"
    and "channel (ctl_conn c) (length ps * length (encode_frame QUERY (pack_query \<lparr>qp_execution_id = ex\<rparr>)))
      (concat (map (encode_frame QUERY_RESPONSE) ps) @ later)"
  shows "wait_state ex want timeout (us @ t # vs) c \<noteq> None"
  using assms(2-4)
proof (induction us arbitrary: c ps)
  case Nil
  then show ?case using assms(1) by simp
next
  case (Cons u us)
  then obtain p ps' where ps: "ps = p # ps'" by (cases ps) auto
  let ?q = "encode_frame QUERY (pack_query \<lparr>qp_execution_id = ex\<rparr>)"
  have "channel (ctl_conn c) (length ?q + length ps' * length ?q)
      (encode_frame QUERY_RESPONSE p @ concat (map (encode_frame QUERY_RESPONSE) ps') @ later)"
    using Cons.prems(3) by (simp add: ps)
  from exchange_returns [OF this] obtain c1 where "controller_query ex c = Some (unpack_query_response p, c1)"
      "channel (ctl_conn c1) (length ps' * length ?q) (concat (map (encode_frame QUERY_RESPONSE) ps') @ later)"
    using Cons.prems(2) by (auto simp: ps controller_query_def)
  then show ?case using Cons.IH [of ps' c1] Cons.prems(1,2) by (simp add: ps split: sum.split)
qed

section \<open>Tickets of the harness\<close>

definition ticket_to_complete :: "u8 list \<Rightarrow> DispatchTicket \<Rightarrow> u8 list \<Rightarrow> CompletionTicket" where
  "ticket_to_complete junk dt result = completion_ticket_of dt (of_buffer junk result)"

end
