(* ===== verification/Cuda.thy ===== *)
theory Cuda
  imports Sha256 Binary Complex_Main
begin

text \<open>
  \<^verbatim>\<open>cuda/cuda_executor.cu\<close>: vector addition on the device, checked against the host. The device
  memory maps addresses to the arrays allocated there. What the runtime decides (the address or the
  failure of each allocation, the outcome of each call, the order of the threads, the contents of
  fresh memory, what an access outside the arrays does) is the record \<open>cuda_env\<close>. The code
  ignores the result of \<^verbatim>\<open>cudaFree\<close>: an array whose release fails stays allocated.

  Shown: the kernel computes every sum whatever the order of its threads, a call returns the bytes of
  these sums when the runtime calls succeed, and below 2^31 elements, where no thread leaves the
  arrays, the only memory changed after a call is that of the arrays whose release failed.
\<close>

section \<open>Single precision\<close>

text \<open>
  The floats of the program are finite, not negative and either 0 or at least 1/100, so a value is a
  rational number with at most 24 significant bits: no exponent limit is reached and no NaN arises.
\<close>

fun bit_count :: "nat \<Rightarrow> nat" where
  "bit_count n = (if n = 0 then 0 else Suc (bit_count (n div 2)))"

declare bit_count.simps [simp del]

text \<open>The exponent of the leading bit of a positive number.\<close>

definition f32_exponent :: "rat \<Rightarrow> int" where
  "f32_exponent q =
     (let (a, b) = quotient_of q; k = int (bit_count (nat a)) - int (bit_count (nat b))
      in if 2 powi k \<le> q then k else k - 1)"

definition round_half_even :: "rat \<Rightarrow> int" where
  "round_half_even x =
     (let f = \<lfloor>x\<rfloor>; d = x - of_int f in if d < 1 / 2 \<or> d = 1 / 2 \<and> even f then f else f + 1)"

definition f32_round :: "rat \<Rightarrow> rat" where
  "f32_round q =
     (if q = 0 then 0
      else let ulp = 2 powi (f32_exponent q - 23) in of_int (round_half_even (q / ulp)) * ulp)"

definition f32_div :: "rat \<Rightarrow> rat \<Rightarrow> rat" where
  "f32_div x y = f32_round (x / y)"

definition f32_add :: "rat \<Rightarrow> rat \<Rightarrow> rat" where
  "f32_add x y = f32_round (x + y)"

text \<open>The bytes of a float in memory: biased exponent and fraction, lowest byte first.\<close>

definition f32_bytes :: "rat \<Rightarrow> u8 list" where
  "f32_bytes q =
     put_u32 (if q = 0 then 0
       else let e = f32_exponent q in word_of_int ((e + 127) * 2 ^ 23 + (\<lfloor>q * 2 powi (23 - e)\<rfloor> - 2 ^ 23)))"

section \<open>The device\<close>

type_synonym device = "nat \<rightharpoonup> rat list"

record cuda_env =
  malloc_a :: "nat option"
  malloc_b :: "nat option"
  malloc_c :: "nat option"
  malloc_error :: "string option"
  copied_a :: bool
  copied_b :: bool
  launched :: bool
  synchronized :: bool
  copied_c :: bool
  freed_a :: bool
  freed_b :: bool
  freed_c :: bool
  thread_order :: "nat \<Rightarrow> (nat \<times> nat) list"
  fresh_cell :: "nat \<Rightarrow> rat"
  stray :: "u32 \<Rightarrow> nat \<Rightarrow> nat \<Rightarrow> rat \<Rightarrow> rat"

definition cudaMalloc :: "cuda_env \<Rightarrow> nat \<Rightarrow> nat \<Rightarrow> device \<Rightarrow> device" where
  "cudaMalloc env addr n dev = dev(addr \<mapsto> map (fresh_cell env) [0..<n])"

text \<open>A release that fails leaves the array allocated.\<close>

definition cudaFree :: "bool \<Rightarrow> nat \<Rightarrow> device \<Rightarrow> device" where
  "cudaFree ok addr dev = (if ok then dev(addr := None) else dev)"

text \<open>\<^verbatim>\<open>device_memory\<close>: the two outputs are assigned only when the query succeeds.\<close>

definition device_memory :: "(u64 \<times> u64) option \<Rightarrow> u64 \<times> u64 \<Rightarrow> bool \<times> u64 \<times> u64" where
  "device_memory info out = (case info of None \<Rightarrow> (False, out) | Some ft \<Rightarrow> (True, ft))"

section \<open>The kernel\<close>

text \<open>The cell of an array that a signed index selects, when the array has one.\<close>

definition device_cell :: "device \<Rightarrow> nat \<Rightarrow> u32 \<Rightarrow> rat option" where
  "device_cell dev addr i =
     (case dev addr of None \<Rightarrow> None
      | Some xs \<Rightarrow> if 0 \<le> sint i \<and> unat i < length xs then Some (xs ! unat i) else None)"

text \<open>An access outside the arrays may change any cell of any allocation.\<close>

definition stray_access :: "cuda_env \<Rightarrow> u32 \<Rightarrow> device \<Rightarrow> device" where
  "stray_access env i dev =
     (\<lambda>x. map_option (\<lambda>xs. map (\<lambda>k. stray env i x k (xs ! k)) [0..<length xs]) (dev x))"

text \<open>One thread: its index is an \<^verbatim>\<open>int\<close> computed in \<^verbatim>\<open>unsigned\<close> arithmetic.\<close>

definition vector_add :: "cuda_env \<Rightarrow> nat \<Rightarrow> nat \<Rightarrow> nat \<Rightarrow> u32 \<Rightarrow> u32 \<Rightarrow> nat \<times> nat \<Rightarrow> device \<Rightarrow> device" where
  "vector_add env da db dc n blockDim t dev =
     (let i = word_of_nat (fst t) * blockDim + word_of_nat (snd t) :: u32 in
      if sint i < sint n
      then (case (device_cell dev da i, device_cell dev db i, device_cell dev dc i) of
              (Some x, Some y, Some _) \<Rightarrow> dev(dc \<mapsto> (the (dev dc))[unat i := f32_add x y])
            | _ \<Rightarrow> stray_access env i dev)
      else dev)"

definition run_threads :: "cuda_env \<Rightarrow> nat \<Rightarrow> nat \<Rightarrow> nat \<Rightarrow> u32 \<Rightarrow> u32 \<Rightarrow> (nat \<times> nat) list \<Rightarrow> device \<Rightarrow> device" where
  "run_threads env da db dc n blockDim ts dev = fold (vector_add env da db dc n blockDim) ts dev"

section \<open>The executor\<close>

definition input_a :: "u32 \<Rightarrow> u32 \<Rightarrow> nat \<Rightarrow> rat" where
  "input_a seed base i =
     (let gi = base + word_of_nat i in f32_div (of_nat (unat ((seed + gi) mod 10007))) 100)"

definition input_b :: "u32 \<Rightarrow> u32 \<Rightarrow> nat \<Rightarrow> rat" where
  "input_b seed base i =
     (let gi = base + word_of_nat i in f32_div (of_nat (unat ((seed * 3 + gi * 7) mod 10007))) 100)"

text \<open>The steps between the allocations and the release, each only when all before it succeeded.\<close>

definition device_run :: "cuda_env \<Rightarrow> u32 \<Rightarrow> rat list \<Rightarrow> rat list \<Rightarrow> nat \<Rightarrow> nat \<Rightarrow> nat \<Rightarrow> device
    \<Rightarrow> (string + rat list) \<times> device" where
  "device_run env n a b da db dc dev =
     (case malloc_error env of
        Some e \<Rightarrow> (Inl (''cudaMalloc: '' @ e), dev)
      | None \<Rightarrow>
          if \<not> copied_a env then (Inl ''cudaMemcpy H2D a failed'', dev)
          else let dev = dev(da \<mapsto> a) in
          if \<not> copied_b env then (Inl ''cudaMemcpy H2D b failed'', dev)
          else let dev = dev(db \<mapsto> b) in
          if \<not> launched env then (Inl ''kernel launch failed'', dev)
          else let blocks = (n + 256 - 1) div 256 in
          let dev = run_threads env da db dc n 256 (thread_order env (unat blocks)) dev in
          if \<not> synchronized env then (Inl ''cudaDeviceSynchronize failed'', dev)
          else if \<not> copied_c env then (Inl ''cudaMemcpy D2H failed'', dev)
          else let c = the (dev dc) in
          (case find (\<lambda>i. c ! i \<noteq> f32_add (a ! i) (b ! i)) [0..<unat n] of
             Some i \<Rightarrow> (Inl (''CPU-reference mismatch at '' @ decimal i), dev)
           | None \<Rightarrow> (Inr c, dev)))"

definition run_vector_add :: "u8 list \<Rightarrow> cuda_env \<Rightarrow> u32 \<Rightarrow> u32 \<Rightarrow> u32 \<Rightarrow> device
    \<Rightarrow> (string + u8 list \<times> ResultDigest) \<times> device" where
  "run_vector_add junk env n seed base dev =
     (if n = 0 then (Inl ''n must be nonzero'', dev)
      else let a = map (input_a seed base) [0..<unat n]; b = map (input_b seed base) [0..<unat n] in
      (case malloc_a env of
         None \<Rightarrow> (Inl ''cudaMalloc a failed'', dev)
       | Some da \<Rightarrow>
           let dev = cudaMalloc env da (unat n) dev in
           (case malloc_b env of
              None \<Rightarrow> (Inl ''cudaMalloc b failed'', cudaFree (freed_a env) da dev)
            | Some db \<Rightarrow>
                let dev = cudaMalloc env db (unat n) dev in
                (case malloc_c env of
                   None \<Rightarrow> (Inl ''cudaMalloc c failed'', cudaFree (freed_b env) db (cudaFree (freed_a env) da dev))
                 | Some dc \<Rightarrow>
                     let (r, dev) = device_run env n a b da db dc (cudaMalloc env dc (unat n) dev);
                         dev = cudaFree (freed_c env) dc (cudaFree (freed_b env) db (cudaFree (freed_a env) da dev))
                     in (case r of
                           Inl err \<Rightarrow> (Inl err, dev)
                         | Inr c \<Rightarrow>
                             let out_bytes = concat (map f32_bytes c)
                             in (Inr (out_bytes, of_buffer junk out_bytes), dev))))))"

section \<open>The kernel adds, in every order of its threads\<close>

definition vector_sum :: "u32 \<Rightarrow> u32 \<Rightarrow> nat \<Rightarrow> rat" where
  "vector_sum seed base i = f32_add (input_a seed base i) (input_b seed base i)"

definition grid :: "nat \<Rightarrow> (nat \<times> nat) set" where
  "grid blocks = {..<blocks} \<times> {..<256}"

definition thread_index :: "nat \<times> nat \<Rightarrow> nat" where
  "thread_index t = fst t * 256 + snd t"

text \<open>The three arrays of a call on the device.\<close>

definition arrays_at :: "device \<Rightarrow> nat \<Rightarrow> nat \<Rightarrow> nat \<Rightarrow> rat list \<Rightarrow> rat list \<Rightarrow> rat list \<Rightarrow> bool" where
  "arrays_at dev da db dc a b c \<longleftrightarrow>
     dev da = Some a \<and> dev db = Some b \<and> dev dc = Some c \<and> dc \<noteq> da \<and> dc \<noteq> db \<and> length a = length c \<and> length b = length c"

lemma vector_add_thread:
  assumes "thread_index t < 2 ^ 31" "n < 2 ^ 31" "length c = n" "arrays_at dev da db dc a b c"
  shows "vector_add env da db dc (word_of_nat n) 256 t dev =
    dev(dc \<mapsto> if thread_index t < n then c[thread_index t := f32_add (a ! thread_index t) (b ! thread_index t)] else c)"
proof -
  have s: "sint (word_of_nat k :: u32) = int k" "unat (word_of_nat k :: u32) = k" if "k < 2 ^ 31" for k
    using that by (simp_all add: signed_of_nat signed_take_bit_int_eq_self_iff unat_of_nat take_bit_nat_eq_self)
  have "(word_of_nat (fst t) * 256 + word_of_nat (snd t) :: u32) = word_of_nat (thread_index t)"
    by (simp add: thread_index_def)
  then show ?thesis using s [OF assms(1)] s [OF assms(2)] assms(3,4)
    by (simp add: vector_add_def device_cell_def arrays_at_def fun_upd_idem Let_def)
qed

lemma run_threads_writes:
  assumes "n < 2 ^ 31" "\<forall>t \<in> set ts. thread_index t < 2 ^ 31" "length c = n" "arrays_at dev da db dc a b c"
  shows "run_threads env da db dc (word_of_nat n) 256 ts dev =
    dev(dc \<mapsto> map (\<lambda>i. if i \<in> thread_index ` set ts then f32_add (a ! i) (b ! i) else c ! i) [0..<n])"
  using assms(2-4)
proof (induction ts arbitrary: c dev)
  case Nil
  then show ?case by (simp add: run_threads_def arrays_at_def map_nth fun_upd_idem flip: Nil(2))
next
  case (Cons t ts)
  then have t: "thread_index t < 2 ^ 31" by simp
  define c1 where "c1 = (if thread_index t < n then c[thread_index t := f32_add (a ! thread_index t) (b ! thread_index t)] else c)"
  have c1: "length c1 = n" "arrays_at (dev(dc \<mapsto> c1)) da db dc a b c1" using Cons.prems(2,3) by (auto simp: arrays_at_def c1_def)
  have "\<forall>t \<in> set ts. thread_index t < 2 ^ 31" using Cons.prems(1) by simp
  from Cons.IH [OF this c1]
  have "run_threads env da db dc (word_of_nat n) 256 ts (dev(dc \<mapsto> c1)) =
      dev(dc \<mapsto> map (\<lambda>i. if i \<in> thread_index ` set ts then f32_add (a ! i) (b ! i) else c1 ! i) [0..<n])"
    unfolding fun_upd_upd .
  moreover have "map (\<lambda>i. if i \<in> thread_index ` set ts then f32_add (a ! i) (b ! i) else c1 ! i) [0..<n] =
      map (\<lambda>i. if i \<in> thread_index ` set (t # ts) then f32_add (a ! i) (b ! i) else c ! i) [0..<n]"
    using Cons.prems(2) by (auto simp: nth_list_update c1_def)
  ultimately show ?case
    using vector_add_thread [OF t assms(1) Cons.prems(2,3), of env] by (simp add: run_threads_def c1_def)
qed

lemma grid_index:
  assumes "n < 2 ^ 31" "t \<in> grid ((n + 255) div 256)"
  shows "thread_index t < 2 ^ 31"
proof -
  have "(n + 255) div 256 \<le> 2 ^ 23" using assms(1) by auto
  then show ?thesis using assms(2) by (auto simp: grid_def thread_index_def)
qed

lemma grid_covers: "i < n \<Longrightarrow> i \<in> thread_index ` grid ((n + 255) div 256)"
  by (rule image_eqI [of _ _ "(i div 256, i mod 256)"]) (auto simp: thread_index_def grid_def)

lemma kernel_adds:
  assumes "n < 2 ^ 31" "set ts = grid ((n + 255) div 256)" "length c = n" "arrays_at dev da db dc a b c"
  shows "run_threads env da db dc (word_of_nat n) 256 ts dev = dev(dc \<mapsto> map2 f32_add a b)"
proof -
  have "map (\<lambda>i. if i \<in> thread_index ` set ts then f32_add (a ! i) (b ! i) else c ! i) [0..<n] = map (\<lambda>i. f32_add (a ! i) (b ! i)) [0..<n]"
    using grid_covers [of _ n] assms(2) by simp
  also have "\<dots> = map2 f32_add a b"
    using assms(3,4) by (intro nth_equalityI) (auto simp: arrays_at_def)
  finally show ?thesis using run_threads_writes [OF assms(1) _ assms(3,4), of ts env] grid_index [OF assms(1)] assms(2) by simp
qed

text \<open>Whatever the accesses outside the arrays do, the allocations keep their sizes.\<close>

lemma run_threads_sizes: "map_option length (run_threads env da db dc n k ts dev x) = map_option length (dev x)"
proof -
  have step: "map_option length (vector_add env da db dc n k t dev x) = map_option length (dev x)" for t and dev :: device
    by (auto simp: vector_add_def stray_access_def device_cell_def Let_def option.map_comp comp_def option.map_ident
        split: option.splits if_splits)
  show ?thesis by (induction ts arbitrary: dev) (simp_all add: run_threads_def step)
qed

section \<open>What a call returns\<close>

definition vector_bytes :: "u32 \<Rightarrow> u32 \<Rightarrow> nat \<Rightarrow> u8 list" where
  "vector_bytes seed base n = concat (map (\<lambda>i. f32_bytes (vector_sum seed base i)) [0..<n])"

text \<open>
  The calls of a runtime before the releases succeed, and all threads of the grid run, each at least
  once; on a working runtime the releases succeed too.
\<close>

definition cuda_computes :: "cuda_env \<Rightarrow> bool" where
  "cuda_computes env \<longleftrightarrow>
     malloc_a env \<noteq> None \<and> malloc_b env \<noteq> None \<and> malloc_c env \<noteq> None \<and> malloc_error env = None \<and>
     copied_a env \<and> copied_b env \<and> launched env \<and> synchronized env \<and> copied_c env \<and>
     (\<forall>blocks. set (thread_order env blocks) = grid blocks)"

definition cuda_works :: "cuda_env \<Rightarrow> bool" where
  "cuda_works env \<longleftrightarrow> cuda_computes env \<and> freed_a env \<and> freed_b env \<and> freed_c env"

text \<open>The threads that run are some of those of the grid.\<close>

definition runs_grid :: "cuda_env \<Rightarrow> bool" where
  "runs_grid env \<longleftrightarrow> (\<forall>blocks. set (thread_order env blocks) \<subseteq> grid blocks)"

text \<open>The arrays a call allocates and fails to release.\<close>

definition leaked :: "cuda_env \<Rightarrow> nat set" where
  "leaked env =
     (case malloc_a env of None \<Rightarrow> {}
      | Some da \<Rightarrow> (if freed_a env then {} else {da}) \<union>
          (case malloc_b env of None \<Rightarrow> {}
           | Some db \<Rightarrow> (if freed_b env then {} else {db}) \<union>
               (case malloc_c env of Some dc \<Rightarrow> if freed_c env then {} else {dc} | None \<Rightarrow> {})))"

text \<open>Allocations are at addresses not in use.\<close>

definition fresh_addresses :: "cuda_env \<Rightarrow> device \<Rightarrow> bool" where
  "fresh_addresses env dev \<longleftrightarrow>
     (let addrs = List.map_filter (\<lambda>m. m env) [malloc_a, malloc_b, malloc_c]
      in distinct addrs \<and> list_all (\<lambda>a. dev a = None) addrs)"

lemma grid_blocks:
  assumes "unat n < 2 ^ 31"
  shows "unat ((n + 256 - 1) div 256 :: u32) = (unat n + 255) div 256"
proof -
  have "(n + 256 - 1) div 256 = (word_of_nat ((unat n + 255) div 256) :: u32)"
    using assms by (simp add: word_arith_nat_div unat_word_ariths add.commute [of 255])
  moreover have "(unat n + 255) div 256 < 2 ^ 32" using assms by simp
  ultimately show ?thesis by (simp add: unat_of_nat take_bit_nat_eq_self)
qed

text \<open>Below 2^31 elements a run writes its three arrays only, and keeps them allocated.\<close>

lemma device_run_memory:
  assumes "device_run env n a b da db dc dev = (r, dev')" "runs_grid env" "unat n < 2 ^ 31"
    and "distinct [da, db, dc]" "length a = unat n" "length b = unat n" "dev da \<noteq> None" "dev db \<noteq> None"
    and c: "dev dc = Some c" "length c = unat n"
  shows "x \<notin> {da, db, dc} \<Longrightarrow> dev' x = dev x" "x \<in> {da, db, dc} \<Longrightarrow> dev' x \<noteq> None"
proof -
  let ?ts = "thread_order env (unat ((n + 256 - 1) div 256))"
  let ?dev = "dev(da \<mapsto> a, db \<mapsto> b)"
  have "\<forall>t \<in> set ?ts. thread_index t < 2 ^ 31"
    using assms(2) grid_index [OF assms(3)] grid_blocks [OF assms(3)] by (auto simp: runs_grid_def)
  moreover have "arrays_at ?dev da db dc a b c" using assms(4-6) c by (simp add: arrays_at_def)
  ultimately obtain c' where t: "run_threads env da db dc n 256 ?ts ?dev = ?dev(dc \<mapsto> c')"
    using run_threads_writes [of "unat n" ?ts c ?dev da db dc a b env] assms(3) c(2) by simp
  show "x \<notin> {da, db, dc} \<Longrightarrow> dev' x = dev x"
    using assms(1) unfolding device_run_def Let_def t by (auto split: option.splits if_splits)
  show "x \<in> {da, db, dc} \<Longrightarrow> dev' x \<noteq> None"
    using assms(1,7,8) c unfolding device_run_def Let_def t by (auto split: option.splits if_splits)
qed

lemma fresh_first: "fresh_addresses env dev \<Longrightarrow> malloc_a env = Some da \<Longrightarrow> dev da = None"
  by (simp add: fresh_addresses_def map_filter_def Let_def split: option.splits)

lemma fresh_second:
  "fresh_addresses env dev \<Longrightarrow> malloc_a env = Some da \<Longrightarrow> malloc_b env = Some db \<Longrightarrow> dev db = None \<and> db \<noteq> da"
  by (auto simp: fresh_addresses_def map_filter_def Let_def split: option.splits)

lemma fresh_third:
  "fresh_addresses env dev \<Longrightarrow> malloc_a env = Some da \<Longrightarrow> malloc_b env = Some db \<Longrightarrow> malloc_c env = Some dc \<Longrightarrow>
    dev dc = None \<and> distinct [da, db, dc]"
  by (simp add: fresh_addresses_def map_filter_def Let_def)

lemma cuda_memory_after:
  assumes "fresh_addresses env dev" "runs_grid env" "unat n < 2 ^ 31"
  shows "{x. snd (run_vector_add junk env n seed base dev) x \<noteq> dev x} = (if n = 0 then {} else leaked env)"
proof (cases "n = 0 \<or> malloc_a env = None")
  case True
  then show ?thesis by (auto simp: run_vector_add_def Let_def leaked_def)
next
  case False
  then obtain da where a: "malloc_a env = Some da" "n \<noteq> 0" by auto
  note da = fresh_first [OF assms(1) a(1)]
  show ?thesis
  proof (cases "malloc_b env")
    case None
    then show ?thesis using a da by (auto simp: run_vector_add_def Let_def cudaMalloc_def cudaFree_def leaked_def)
  next
    case (Some db)
    note b = this and db = fresh_second [OF assms(1) a(1) Some]
    show ?thesis
    proof (cases "malloc_c env")
      case None
      then show ?thesis using a b da db by (auto simp: run_vector_add_def Let_def cudaMalloc_def cudaFree_def leaked_def)
    next
      case (Some dc)
      note dc = fresh_third [OF assms(1) a(1) b Some]
      let ?dev = "cudaMalloc env dc (unat n) (cudaMalloc env db (unat n) (cudaMalloc env da (unat n) dev))"
      obtain r dev' where r: "device_run env n (map (input_a seed base) [0..<unat n]) (map (input_b seed base) [0..<unat n]) da db dc ?dev
          = (r, dev')" by fastforce
      have m: "x \<notin> {da, db, dc} \<Longrightarrow> dev' x = dev x" "x \<in> {da, db, dc} \<Longrightarrow> dev' x \<noteq> None" for x
        using device_run_memory [OF r assms(2,3), of "map (fresh_cell env) [0..<unat n]" x] dc by (simp_all add: cudaMalloc_def)
      have "snd (run_vector_add junk env n seed base dev) =
          cudaFree (freed_c env) dc (cudaFree (freed_b env) db (cudaFree (freed_a env) da dev'))"
        using a b Some r by (cases r) (simp_all add: run_vector_add_def Let_def)
      then show ?thesis
        using m [of da] m [of db] m [of dc] m(1) da db dc a b Some
        by (auto simp: cudaFree_def leaked_def split: if_splits)
    qed
  qed
qed

lemma cuda_memory_kept:
  assumes "fresh_addresses env dev" "cuda_works env" "unat n < 2 ^ 31"
  shows "snd (run_vector_add junk env n seed base dev) = dev"
proof -
  have "runs_grid env" "leaked env = {}" using assms(2) by (auto simp: cuda_works_def cuda_computes_def runs_grid_def leaked_def split: option.split)
  then show ?thesis using cuda_memory_after [OF assms(1) _ assms(3), of junk seed base] by (auto split: if_splits)
qed

text \<open>Whatever the runtime does, an array that passes the comparison with the host holds the sums.\<close>

lemma device_run_sound:
  assumes "device_run env n a b da db dc dev = (Inr c, dev')" "dc \<noteq> da" "dc \<noteq> db" "dev dc = Some c0" "length c0 = unat n"
    and "length a = unat n" "length b = unat n"
  shows "c = map2 f32_add a b"
proof -
  let ?dev = "run_threads env da db dc n 256 (thread_order env (unat ((n + 256 - 1) div 256))) (dev(da \<mapsto> a, db \<mapsto> b))"
  have ok: "c = the (?dev dc)" "find (\<lambda>i. c ! i \<noteq> f32_add (a ! i) (b ! i)) [0..<unat n] = None"
    using assms(1) by (auto simp: device_run_def Let_def split: option.splits if_splits)
  have "map_option length (?dev dc) = Some (unat n)" using assms(2-5) by (simp add: run_threads_sizes)
  then have "length c = unat n" using ok(1) by auto
  then show ?thesis
    using ok(2) assms(6,7) by (intro nth_equalityI) (auto simp: find_None_iff)
qed

lemma vector_add_sound:
  assumes "fresh_addresses env dev" "fst (run_vector_add junk env n seed base dev) = Inr (bytes, dg)"
  shows "bytes = vector_bytes seed base (unat n) \<and> dg = of_buffer junk bytes"
proof -
  let ?a = "map (input_a seed base) [0..<unat n]" and ?b = "map (input_b seed base) [0..<unat n]"
  obtain da db dc where m: "malloc_a env = Some da" "malloc_b env = Some db" "malloc_c env = Some dc"
    using assms(2) by (auto simp: run_vector_add_def Let_def split: if_splits option.splits)
  let ?dev = "cudaMalloc env dc (unat n) (cudaMalloc env db (unat n) (cudaMalloc env da (unat n) dev))"
  obtain c dev' where r: "device_run env n ?a ?b da db dc ?dev = (Inr c, dev')" "bytes = concat (map f32_bytes c)" "dg = of_buffer junk bytes"
    using assms(2) m by (auto simp: run_vector_add_def Let_def split_beta split: if_splits sum.splits)
      (metis prod.collapse)
  have "c = map2 f32_add ?a ?b"
    by (rule device_run_sound [OF r(1), of "map (fresh_cell env) [0..<unat n]"])
      (use fresh_third [OF assms(1) m] in \<open>simp_all add: cudaMalloc_def\<close>)
  also have "\<dots> = map (vector_sum seed base) [0..<unat n]"
    by (intro nth_equalityI) (simp_all add: vector_sum_def)
  finally show ?thesis using r(2,3) by (simp add: vector_bytes_def comp_def)
qed

lemma device_run_adds:
  assumes "cuda_computes env" "unat n < 2 ^ 31" "distinct [da, db, dc]"
    and "length a = unat n" "length b = unat n" "dev dc = Some c" "length c = unat n"
  shows "fst (device_run env n a b da db dc dev) = Inr (map2 f32_add a b)"
proof -
  let ?dev = "dev(da \<mapsto> a, db \<mapsto> b)" and ?ts = "thread_order env ((unat n + 255) div 256)"
  have "set ?ts = grid ((unat n + 255) div 256)" using assms(1) by (simp add: cuda_computes_def)
  moreover have "arrays_at ?dev da db dc a b c" using assms(3-7) by (simp add: arrays_at_def)
  ultimately have k: "run_threads env da db dc n 256 ?ts ?dev = ?dev(dc \<mapsto> map2 f32_add a b)"
    using kernel_adds [of "unat n" ?ts c ?dev da db dc a b env] assms(2,7) by simp
  have "find (\<lambda>i. map2 f32_add a b ! i \<noteq> f32_add (a ! i) (b ! i)) [0..<unat n] = None"
    using assms(4,5) by (simp add: find_None_iff)
  then show ?thesis using assms(1) k grid_blocks [OF assms(2)] by (simp add: device_run_def cuda_computes_def Let_def)
qed

lemma vector_add_computes:
  assumes "cuda_computes env" "fresh_addresses env dev" "0 < n" "unat n < 2 ^ 31"
  shows "fst (run_vector_add junk env n seed base dev) =
    Inr (vector_bytes seed base (unat n), of_buffer junk (vector_bytes seed base (unat n)))"
proof -
  let ?a = "map (input_a seed base) [0..<unat n]" and ?b = "map (input_b seed base) [0..<unat n]"
  obtain da db dc where m: "malloc_a env = Some da" "malloc_b env = Some db" "malloc_c env = Some dc"
    using assms(1) by (auto simp: cuda_computes_def)
  note d = conjunct2 [OF fresh_third [OF assms(2) m]]
  let ?dev = "cudaMalloc env dc (unat n) (cudaMalloc env db (unat n) (cudaMalloc env da (unat n) dev))"
  have "fst (device_run env n ?a ?b da db dc ?dev) = Inr (map2 f32_add ?a ?b)"
    by (rule device_run_adds [OF assms(1,4) d, of _ _ _ "map (fresh_cell env) [0..<unat n]"]) (simp_all add: cudaMalloc_def)
  moreover have "map2 f32_add ?a ?b = map (vector_sum seed base) [0..<unat n]"
    by (intro nth_equalityI) (simp_all add: vector_sum_def)
  ultimately show ?thesis
    using m assms(3) by (simp add: run_vector_add_def Let_def split_beta vector_bytes_def comp_def)
qed

lemma vector_add_returns:
  assumes "cuda_works env" "fresh_addresses env dev" "0 < n" "unat n < 2 ^ 31"
  shows "run_vector_add junk env n seed base dev =
    (Inr (vector_bytes seed base (unat n), of_buffer junk (vector_bytes seed base (unat n))), dev)"
  using vector_add_computes [OF _ assms(2-4), of junk seed base] cuda_memory_kept [OF assms(2,1,4), of junk seed base] assms(1)
  by (metis cuda_works_def prod.collapse)

section \<open>Partitions\<close>

lemma vector_sum_shift: "vector_sum seed (base + word_of_nat m) i = vector_sum seed base (m + i)"
  by (simp add: vector_sum_def input_a_def input_b_def add.assoc)

lemma vector_bytes_append:
  "vector_bytes seed base (m + k) = vector_bytes seed base m @ vector_bytes seed (base + word_of_nat m) k"
proof -
  have "[0..<m + k] = [0..<m] @ map ((+) m) [0..<k]"
    by (intro nth_equalityI) (auto simp: nth_append)
  then show ?thesis by (simp add: vector_bytes_def vector_sum_shift comp_def)
qed

end
