(* ===== verification/Scenarios.thy ===== *)
theory Scenarios
  imports Cuda Engine_Facts
begin

text \<open>
  \<^verbatim>\<open>cuda/cuda_proof.cpp\<close>: five scenarios that drive one engine with results computed on the
  device, each a sequence of checked calls. Random identities, the clock, the uninitialised buffer of
  the hash and the CUDA runtime are arguments; an exception of the engine ends the program: \<open>Inl\<close>.
  A dereference of \<^verbatim>\<open>eng.find(ex)\<close> is \<open>found\<close>. The messages printed are not modelled.

  The opening of a scenario and each later call are evaluated once, on symbolic identities; a
  scenario is then decided by rewriting, and \<open>scenario_outcome\<close> lets the five be put in sequence.
\<close>

section \<open>Checked calls\<close>

record proof_state =
  pf_engine :: engine
  pf_device :: device
  checks :: nat
  failures :: nat

definition found :: "engine \<Rightarrow> ExecutionId \<Rightarrow> ExecutionRecord" where
  "found eng ex = the (find_record eng ex)"

definition CU_CHECK :: "(engine \<Rightarrow> bool) \<Rightarrow> proof_state \<Rightarrow> proof_state" where
  "CU_CHECK cond s =
     s\<lparr>checks := checks s + 1, failures := (if cond (pf_engine s) then failures s else failures s + 1)\<rparr>"

text \<open>\<^verbatim>\<open>CU_CHECK(eng.op(...).code == want, ...)\<close>\<close>

definition expect :: "DecisionCode \<Rightarrow> (engine \<Rightarrow> Decision \<times> engine) \<Rightarrow> proof_state \<Rightarrow> proof_state" where
  "expect want op s =
     (case op (pf_engine s) of (d, eng) \<Rightarrow> CU_CHECK (\<lambda>_. code d = want) (s\<lparr>pf_engine := eng\<rparr>))"

text \<open>\<^verbatim>\<open>start\<close> and \<^verbatim>\<open>finish\<close> copy the fields of the dispatch ticket.\<close>

definition cuda_start :: "DispatchTicket \<Rightarrow> StartTicket" where
  "cuda_start d = start_ticket_of d"

definition cuda_finish :: "u8 list \<Rightarrow> DispatchTicket \<Rightarrow> u8 list \<Rightarrow> CompletionTicket" where
  "cuda_finish junk d result = completion_ticket_of d (of_buffer junk result)"

text \<open>The kernel call of a scenario: on failure the outputs keep their initial values.\<close>

definition gpu :: "u8 list \<Rightarrow> cuda_env \<Rightarrow> u32 \<Rightarrow> u32 \<Rightarrow> u32 \<Rightarrow> proof_state \<Rightarrow> (u8 list \<times> ResultDigest) \<times> proof_state" where
  "gpu junk env n seed base s =
     (case run_vector_add junk env n seed base (pf_device s) of
        (Inl _, dev) \<Rightarrow> (([], ResultDigest_nil), CU_CHECK (\<lambda>_. False) (s\<lparr>pf_device := dev\<rparr>))
      | (Inr r, dev) \<Rightarrow> (r, CU_CHECK (\<lambda>_. True) (s\<lparr>pf_device := dev\<rparr>)))"

section \<open>The scenarios of the CUDA proof\<close>

text \<open>What one scenario draws: its execution, the attempts and dispatches, and two readings of the clock.\<close>

record scenario_input =
  id_ex :: draws
  id_a1 :: draws
  id_d1 :: draws
  id_a2 :: draws
  id_d2 :: draws
  t_create :: string
  t_commit :: string

abbreviation scenario_id :: "scenario_input \<Rightarrow> ExecutionId" where
  "scenario_id ins \<equiv> id_random (id_ex ins)"

text \<open>\<^verbatim>\<open>dispatch\<close> into a fresh ticket, with its check.\<close>

definition expect_dispatch :: "ExecutionId \<Rightarrow> WorkerId \<Rightarrow> WorkerBootId \<Rightarrow> draws \<Rightarrow> draws \<Rightarrow> proof_state
    \<Rightarrow> (DispatchTicket \<times> proof_state) result" where
  "expect_dispatch ex w b ra rb s =
     (case dispatch (pf_engine s) ex w b (Gen 1) ra rb DispatchTicket_init of
        Inl x \<Rightarrow> Inl x
      | Inr (d, tk, eng) \<Rightarrow> Inr (tk, expect ALLOW (\<lambda>_. (d, eng)) s))"

text \<open>The common opening: create, activate, dispatch to the first worker and start.\<close>

definition opened :: "WorkerId \<Rightarrow> WorkerBootId \<Rightarrow> scenario_input \<Rightarrow> proof_state \<Rightarrow> (DispatchTicket \<times> proof_state) result" where
  "opened w b ins s =
     (let ex = scenario_id ins;
          s = expect ALLOW (\<lambda>eng. create eng ex (Gen 1) (t_create ins)) s
      in case activate (pf_engine s) ex (Gen 1) of
           Inl x \<Rightarrow> Inl x
         | Inr r \<Rightarrow>
             (case expect_dispatch ex w b (id_a1 ins) (id_d1 ins) (expect ALLOW (\<lambda>_. r) s) of
                Inl x \<Rightarrow> Inl x
              | Inr (tk, s) \<Rightarrow> Inr (tk, expect ALLOW (\<lambda>eng. mark_running eng (cuda_start tk)) s)))"

text \<open>A: a completion commits, and its replay is recognised.\<close>

definition scenario_a :: "u8 list \<Rightarrow> cuda_env \<Rightarrow> WorkerId \<Rightarrow> WorkerBootId \<Rightarrow> scenario_input \<Rightarrow> proof_state \<Rightarrow> proof_state result" where
  "scenario_a junk env w b ins s =
     (case opened w b ins s of
        Inl x \<Rightarrow> Inl x
      | Inr (d, s) \<Rightarrow>
          let ex = scenario_id ins;
              ((res, dg), s) = gpu junk env (2 ^ 20) 42 0 s;
              s = CU_CHECK (\<lambda>_. res \<noteq> []) s;
              ct = cuda_finish junk d res;
              s = CU_CHECK (\<lambda>_. ct_result_digest ct = dg) s;
              s = expect ALLOW (\<lambda>eng. complete eng ct (t_commit ins)) s;
              s = CU_CHECK (\<lambda>eng. state (found eng ex) = COMMITTED) s;
              s = CU_CHECK (\<lambda>eng. committed_digest (found eng ex) \<noteq> None) s;
              s = expect REJECT_ALREADY_COMMITTED (\<lambda>eng. complete eng ct (t_commit ins)) s
          in Inr s)"

text \<open>B: a retry supersedes the first attempt, whose completion comes too late.\<close>

definition scenario_b :: "u8 list \<Rightarrow> cuda_env \<Rightarrow> cuda_env \<Rightarrow> WorkerId \<Rightarrow> WorkerBootId \<Rightarrow> WorkerId \<Rightarrow> WorkerBootId
    \<Rightarrow> scenario_input \<Rightarrow> proof_state \<Rightarrow> proof_state result" where
  "scenario_b junk envA envB w1 b1 w2 b2 ins s =
     (case opened w1 b1 ins s of
        Inl x \<Rightarrow> Inl x
      | Inr (a1, s) \<Rightarrow>
          let ex = scenario_id ins;
              ((resA, dgA), s) = gpu junk envA (2 ^ 20) 7 0 s
          in (case expect_dispatch ex w2 b2 (id_a2 ins) (id_d2 ins) s of
                Inl x \<Rightarrow> Inl x
              | Inr (a2, s) \<Rightarrow>
                  let s = expect ALLOW (\<lambda>eng. mark_running eng (cuda_start a2)) s;
                      ((resB, dgB), s) = gpu junk envB (2 ^ 20) 99 0 s;
                      s = expect ALLOW (\<lambda>eng. complete eng (cuda_finish junk a2 resB) (t_commit ins)) s;
                      s = CU_CHECK (\<lambda>eng. state (found eng ex) = COMMITTED) s;
                      s = expect REJECT_STALE_ATTEMPT (\<lambda>eng. complete eng (cuda_finish junk a1 resA) (t_commit ins)) s;
                      s = CU_CHECK (\<lambda>eng. the (committed_digest (found eng ex)) = dgB) s
                  in Inr s))"

definition ControlRequest_init :: ControlRequest where
  "ControlRequest_init =
     \<lparr>req_execution_id = id_nil, req_execution_generation = Gen 0, req_epoch = Gen 0, authority_generation = Gen 0,
      req_cancellation_generation = Gen 0, req_preemption_generation = Gen 0, req_resume_generation = Gen 0\<rparr>"

text \<open>A control request that holds the current ownership generation.\<close>

definition owner_request :: "ExecutionId \<Rightarrow> engine \<Rightarrow> ControlRequest" where
  "owner_request ex eng =
     ControlRequest_init\<lparr>req_execution_id := ex, req_epoch := Gen 1, authority_generation := ownership_generation (found eng ex)\<rparr>"

text \<open>C: the completion that arrives before the cancellation is terminal wins.\<close>

definition scenario_c :: "u8 list \<Rightarrow> cuda_env \<Rightarrow> WorkerId \<Rightarrow> WorkerBootId \<Rightarrow> scenario_input \<Rightarrow> proof_state \<Rightarrow> proof_state result" where
  "scenario_c junk env w b ins s =
     (case opened w b ins s of
        Inl x \<Rightarrow> Inl x
      | Inr (d, s) \<Rightarrow>
          let ex = scenario_id ins;
              ((res, dg), s) = gpu junk env (2 ^ 20) 5 0 s;
              s = expect ALLOW (\<lambda>eng. cancel eng (owner_request ex eng)) s;
              s = CU_CHECK (\<lambda>eng. state (found eng ex) = CANCELLATION_REQUESTED) s;
              s = expect ALLOW (\<lambda>eng. complete eng (cuda_finish junk d res) (t_commit ins)) s;
              s = CU_CHECK (\<lambda>eng. state (found eng ex) = COMMITTED) s;
              s = expect REJECT_ALREADY_COMMITTED (\<lambda>eng. complete eng (cuda_finish junk d res) (t_commit ins)) s
          in Inr s)"

text \<open>D: preempted after the first half, resumed for the second, and the halves make up the whole.\<close>

definition scenario_d :: "u8 list \<Rightarrow> cuda_env \<Rightarrow> cuda_env \<Rightarrow> cuda_env \<Rightarrow> WorkerId \<Rightarrow> WorkerBootId \<Rightarrow> WorkerId \<Rightarrow> WorkerBootId
    \<Rightarrow> scenario_input \<Rightarrow> proof_state \<Rightarrow> proof_state result" where
  "scenario_d junk env1 env2 env3 w1 b1 w2 b2 ins s =
     (case opened w1 b1 ins s of
        Inl x \<Rightarrow> Inl x
      | Inr (d1, s) \<Rightarrow>
          let HALF = 2 ^ 19; TOTAL = HALF * 2;
              ex = scenario_id ins;
              ((p1, dg1), s) = gpu junk env1 HALF 11 0 s;
              s = expect ALLOW (\<lambda>eng. preempt eng (owner_request ex eng)) s;
              s = expect ALLOW (\<lambda>eng. acknowledge_preempt eng ex (Gen 1)) s;
              s = expect ALLOW (\<lambda>eng. mark_resumable eng ex (Gen 1)) s;
              rg = gen_next (resume_generation (found (pf_engine s) ex));
              (d, d2, eng) = resume (pf_engine s) ex w2 b2 (Gen 1) rg (id_a2 ins) (id_d2 ins) DispatchTicket_init;
              s = expect RESUME_ALLOWED (\<lambda>_. (d, eng)) s;
              s = expect ALLOW (\<lambda>eng. mark_running eng (cuda_start d2)) s;
              ((p2, dg2), s) = gpu junk env2 HALF 11 HALF s;
              combined = p1 @ p2;
              s = CU_CHECK (\<lambda>_. dg1 = of_buffer junk p1) s;
              ((full, full_dg), s) = gpu junk env3 TOTAL 11 0 s;
              s = CU_CHECK (\<lambda>_. combined = full) s;
              s = expect REJECT_STALE_ATTEMPT (\<lambda>eng. complete eng (cuda_finish junk d1 p1) (t_commit ins)) s;
              s = expect ALLOW (\<lambda>eng. complete eng (cuda_finish junk d2 combined) (t_commit ins)) s;
              s = CU_CHECK (\<lambda>eng. state (found eng ex) = COMMITTED) s
          in Inr s)"

text \<open>E: a completion whose acknowledgement was lost is retried, and a conflicting one refused.\<close>

definition scenario_e :: "u8 list \<Rightarrow> cuda_env \<Rightarrow> cuda_env \<Rightarrow> WorkerId \<Rightarrow> WorkerBootId \<Rightarrow> scenario_input \<Rightarrow> proof_state
    \<Rightarrow> proof_state result" where
  "scenario_e junk env env2 w b ins s =
     (case opened w b ins s of
        Inl x \<Rightarrow> Inl x
      | Inr (d, s) \<Rightarrow>
          let ex = scenario_id ins;
              ((res, dg), s) = gpu junk env (2 ^ 20) 21 0 s;
              s = expect ALLOW (\<lambda>eng. complete eng (cuda_finish junk d res) (t_commit ins)) s;
              s = expect REJECT_ALREADY_COMMITTED (\<lambda>eng. complete eng (cuda_finish junk d res) (t_commit ins)) s;
              s = expect REJECT_ALREADY_COMMITTED (\<lambda>eng. complete eng (cuda_finish junk d res) (t_commit ins)) s;
              s = CU_CHECK (\<lambda>eng. state (found eng ex) = COMMITTED) s;
              ((other, og), s) = gpu junk env2 (2 ^ 20) 999 0 s;
              s = expect REJECT_CONFLICTING_COMPLETION (\<lambda>eng. complete eng (cuda_finish junk d other) (t_commit ins)) s
          in Inr s)"

text \<open>
  \<^verbatim>\<open>main\<close>: \<open>mem 0\<close> and \<open>mem 1\<close> are the two answers of the runtime about the free and
  the total memory, which nothing relates to the allocations of this program, \<open>env k\<close> the runtime during the
  \<open>k\<close>-th kernel call and \<open>ins k\<close> what the \<open>k\<close>-th scenario draws. The result is the exit status.
\<close>

definition memory_delta :: "u64 \<Rightarrow> u64 \<Rightarrow> u64" where
  "memory_delta free0 free1 = (if free0 > free1 then free0 - free1 else free1 - free0)"

fun run_scenarios :: "(proof_state \<Rightarrow> proof_state result) list \<Rightarrow> proof_state \<Rightarrow> proof_state result" where
  "run_scenarios [] s = Inr s"
| "run_scenarios (f # fs) s = (case f s of Inl x \<Rightarrow> Inl x | Inr s \<Rightarrow> run_scenarios fs s)"

definition cuda_main :: "u8 list \<Rightarrow> (nat \<Rightarrow> (u64 \<times> u64) option) \<Rightarrow> (nat \<Rightarrow> cuda_env) \<Rightarrow> draws \<Rightarrow> draws \<Rightarrow> draws \<Rightarrow> draws
    \<Rightarrow> (nat \<Rightarrow> scenario_input) \<Rightarrow> device \<Rightarrow> int result" where
  "cuda_main junk mem env rw1 rb1 rw2 rb2 ins dev =
     (let w1 = id_random rw1; b1 = id_random rb1; w2 = id_random rw2; b2 = id_random rb2;
          s = \<lparr>pf_engine = ExecutionEngine (Gen 1), pf_device = dev, checks = 0, failures = 0\<rparr>;
          (ok, free0, total0) = device_memory (mem 0) (0, 0)
      in case run_scenarios
           [scenario_a junk (env 0) w1 b1 (ins 0),
            scenario_b junk (env 1) (env 2) w1 b1 w2 b2 (ins 1),
            scenario_c junk (env 3) w1 b1 (ins 2),
            scenario_d junk (env 4) (env 5) (env 6) w1 b1 w2 b2 (ins 3),
            scenario_e junk (env 7) (env 8) w1 b1 (ins 4)] (CU_CHECK (\<lambda>_. ok) s) of
           Inl x \<Rightarrow> Inl x
         | Inr s \<Rightarrow>
             let (ok, free1, total1) = device_memory (mem 1) (0, 0);
                 s = CU_CHECK (\<lambda>_. ok) s;
                 s = CU_CHECK (\<lambda>_. memory_delta free0 free1 < push_bit 20 8) s
             in Inr (if failures s = 0 then 0 else 1))"

section \<open>The opening\<close>

definition first_ticket :: "WorkerId \<Rightarrow> WorkerBootId \<Rightarrow> scenario_input \<Rightarrow> DispatchTicket" where
  "first_ticket w b ins =
     \<lparr>dt_execution_id = scenario_id ins, dt_execution_generation = Gen 1,
      dt_attempt_id = id_random (id_a1 ins), dt_attempt_generation = Gen 1, dt_worker_id = w, dt_worker_boot_id = b,
      dt_epoch = Gen 1, dt_dispatch_id = id_random (id_d1 ins), dt_dispatch_generation = Gen 1,
      dt_ownership_generation = Gen 2, dt_fence_generation = Gen 2\<rparr>"

definition first_running :: "WorkerId \<Rightarrow> WorkerBootId \<Rightarrow> scenario_input \<Rightarrow> ExecutionRecord" where
  "first_running w b ins =
     (created_record (scenario_id ins) (Gen 1) (t_create ins))
       \<lparr>state := ExecutionState.RUNNING, ownership_generation := Gen 2, fence_generation := Gen 2,
        current_attempt_id := Some (id_random (id_a1 ins)), current_attempt_generation := Some (Gen 1),
        owner_worker := Some w, owner_worker_boot := Some b,
        attempts := [AttemptRecord_init
          \<lparr>at_id := id_random (id_a1 ins), at_generation := Gen 1, at_worker_id := w, at_worker_boot_id := b,
           at_dispatch_id := id_random (id_d1 ins), at_dispatch_generation := Gen 1,
           at_ownership_generation := Gen 2, at_fence_generation := Gen 2,
           execution_state_at_dispatch := READY, at_state := AttemptState.RUNNING\<rparr>]\<rparr>"

lemma store_store [simp]: "store_record i a (store_record i b eng) = store_record i a eng"
  by (simp add: store_record_def)

lemma gen_next_small: "gen_next (Gen 0) = Gen 1" "gen_next (Gen 1) = Gen 2" "gen_next (Gen 2) = Gen 3"
  by code_simp+

lemmas engine_eval =
  create_def adopt_epoch_def activate_def require_def activate_rec_def created_record_def transition_def
  dispatch_def dispatch_rec_def dispatch_refusal_def ExecutionRecord_init_def AttemptRecord_init_def mk_decision_def
  mark_running_def on_record_def mark_running_rec_def validate_start_def start_ticket_of_def issue_ticket_def
  install_attempt_def new_attempt_def supersede_current_def start_attempt_def transition_attempt_def
  gen_next_small split_beta Let_def

lemma opened_running:
  assumes "find_record (pf_engine s) (scenario_id ins) = None" "eng_epoch (pf_engine s) = Gen 1"
  shows "opened w b ins s =
    Inr (first_ticket w b ins,
         s\<lparr>pf_engine := store_record (scenario_id ins) (first_running w b ins) (pf_engine s), checks := checks s + 4\<rparr>)"
  using assms
  by (simp add: opened_def expect_dispatch_def expect_def CU_CHECK_def cuda_start_def first_ticket_def first_running_def engine_eval)

lemma gpu_works:
  assumes "cuda_works env" "fresh_addresses env (pf_device s)" "0 < n" "unat n < 2 ^ 31"
  shows "gpu junk env n seed base s =
    ((vector_bytes seed base (unat n), of_buffer junk (vector_bytes seed base (unat n))), s\<lparr>checks := checks s + 1\<rparr>)"
  using vector_add_returns [OF assms] by (simp add: gpu_def CU_CHECK_def)

lemma length_vector_bytes [simp]: "length (vector_bytes seed base n) = 4 * n"
  by (simp add: vector_bytes_def length_concat f32_bytes_def comp_def sum_list_triv)

lemma vector_bytes_Nil [simp]: "vector_bytes seed base n = [] \<longleftrightarrow> n = 0"
  using length_vector_bytes [of seed base n] by (metis length_0_conv mult_eq_0_iff zero_neq_numeral)

section \<open>Completions of a scenario\<close>

text \<open>The verdict on a ticket does not depend on the digest it carries, nor on a commit.\<close>

definition ticket_code :: "CoordinatorEpoch \<Rightarrow> ExecutionRecord \<Rightarrow> DispatchTicket \<Rightarrow> DecisionCode" where
  "ticket_code ep r tk = code (validate_ticket ep r (completion_ticket_of tk ResultDigest_nil))"

definition commit_record :: "AttemptId \<Rightarrow> ResultDigest \<Rightarrow> string \<Rightarrow> ExecutionRecord \<Rightarrow> ExecutionRecord" where
  "commit_record a dg now r =
     r\<lparr>attempts := complete_attempt a dg (attempts r), committed_digest := Some dg,
       commit_generation := gen_next (commit_generation r), committed_at := now, state := COMMITTED\<rparr>"

lemma commit_record_simps [simp]:
  "state (commit_record a dg now r) = COMMITTED" "committed_digest (commit_record a dg now r) = Some dg"
  by (simp_all add: commit_record_def)

lemma validate_code: "code (validate_ticket ep r (completion_ticket_of tk dg)) = ticket_code ep r tk"
  by (simp add: ticket_code_def validate_ticket_def completion_ticket_of_def)

lemma complete_attempt_ids:
  "list_ex (\<lambda>x. at_id x = i \<and> at_dispatch_id x \<noteq> j) (complete_attempt a dg ats) =
   list_ex (\<lambda>x. at_id x = i \<and> at_dispatch_id x \<noteq> j) ats"
  by (induction ats) (auto simp: complete_attempt_def transition_attempt_def)

lemma ticket_code_commit [simp]: "ticket_code ep (commit_record a dg now r) tk = ticket_code ep r tk"
  by (simp add: ticket_code_def validate_ticket_def commit_record_def complete_attempt_ids cong: if_cong)

lemma completion_ticket_fields [simp]:
  "ct_execution_id (completion_ticket_of tk dg) = dt_execution_id tk" "has_result (completion_ticket_of tk dg)"
  "ct_result_digest (completion_ticket_of tk dg) = dg" "ct_attempt_id (completion_ticket_of tk dg) = dt_attempt_id tk"
  by (simp_all add: completion_ticket_of_def)

lemma complete_current:
  assumes r: "find_record eng (dt_execution_id tk) = Some r" "ticket_code (eng_epoch eng) r tk = ALLOW"
    "state r = ExecutionState.RUNNING \<or> state r = CANCELLATION_REQUESTED"
  shows "code (fst (complete eng (completion_ticket_of tk dg) now)) =
      (if ResultDigest_is_nil dg then REJECT_INSUFFICIENT_AUTHORITY else ALLOW)"
    "snd (complete eng (completion_ticket_of tk dg) now) =
      (if ResultDigest_is_nil dg then eng
       else store_record (dt_execution_id tk) (commit_record (dt_attempt_id tk) dg now r) eng)"
proof -
  let ?t = "completion_ticket_of tk dg"
  have op: "complete eng ?t now = (fst (complete_rec (eng_epoch eng) now ?t r), store_record (dt_execution_id tk) (snd (complete_rec (eng_epoch eng) now ?t r)) eng)"
    using complete_on_record [of eng ?t r now] r(1) by simp
  have adm: "completion_admitted (eng_epoch eng) ?t r \<longleftrightarrow> \<not> ResultDigest_is_nil dg"
    using r(2,3) by (auto simp: completion_admitted_def validate_code is_terminal_iff)
  have ok: "ExecutionStateMachine_from (state r) ExecutionState.COMPLETED" using r(3) by auto
  have "ResultDigest_is_nil dg \<Longrightarrow> code (fst (complete_rec (eng_epoch eng) now ?t r)) = REJECT_INSUFFICIENT_AUTHORITY"
    using r(2,3) by (auto simp: complete_rec_def validate_code is_terminal_iff Let_def)
  then show "code (fst (complete eng ?t now)) = (if ResultDigest_is_nil dg then REJECT_INSUFFICIENT_AUTHORITY else ALLOW)"
    using code_complete_rec [of "eng_epoch eng" now ?t r] adm ok by (simp add: op)
  show "snd (complete eng ?t now) =
      (if ResultDigest_is_nil dg then eng
       else store_record (dt_execution_id tk) (commit_record (dt_attempt_id tk) dg now r) eng)"
    using snd_complete_rec [of "eng_epoch eng" now ?t r] adm ok store_same [OF r(1)] by (simp add: op commit_record_def)
qed

lemma complete_recommitted:
  assumes "find_record eng (dt_execution_id tk) = Some r" "ticket_code (eng_epoch eng) r tk = ALLOW" "state r = COMMITTED"
  shows "code (fst (complete eng (completion_ticket_of tk dg) now)) =
      (if committed_digest r = Some dg then REJECT_ALREADY_COMMITTED else REJECT_CONFLICTING_COMPLETION)"
    "snd (complete eng (completion_ticket_of tk dg) now) = eng"
  using assms by (simp_all add: complete_def on_record_def complete_rec_def validate_code Let_def store_same)

lemma complete_refused:
  assumes "find_record eng (dt_execution_id tk) = Some r" "ticket_code (eng_epoch eng) r tk \<noteq> ALLOW"
  shows "code (fst (complete eng (completion_ticket_of tk dg) now)) = ticket_code (eng_epoch eng) r tk"
    "snd (complete eng (completion_ticket_of tk dg) now) = eng"
  using assms by (simp_all add: complete_def on_record_def complete_rec_def validate_code Let_def store_same)

section \<open>Outcomes\<close>

text \<open>What a scenario needs: the executions still to come are not known to the engine.\<close>

definition ready :: "device \<Rightarrow> ExecutionId set \<Rightarrow> proof_state \<Rightarrow> bool" where
  "ready dev I s \<longleftrightarrow> pf_device s = dev \<and> eng_epoch (pf_engine s) = Gen 1 \<and> (\<forall>i \<in> I. find_record (pf_engine s) i = None)"

text \<open>
  What it does: it ends, concerns its own execution only, leaves the device memory as it was, and
  all its checks pass exactly when \<open>ok\<close>.
\<close>

definition scenario_outcome :: "device \<Rightarrow> scenario_input \<Rightarrow> bool \<Rightarrow> (proof_state \<Rightarrow> proof_state result) \<Rightarrow> bool" where
  "scenario_outcome dev ins ok run \<longleftrightarrow>
     (\<forall>I s. ready dev (insert (scenario_id ins) I) s \<and> scenario_id ins \<notin> I \<longrightarrow>
        (\<exists>s' n. run s = Inr s' \<and> ready dev I s' \<and> failures s' = failures s + n \<and> (n = 0 \<longleftrightarrow> ok)))"

definition scenario_local :: "scenario_input \<Rightarrow> proof_state \<Rightarrow> proof_state \<Rightarrow> bool" where
  "scenario_local ins s s' \<longleftrightarrow>
     pf_device s' = pf_device s \<and> eng_epoch (pf_engine s') = eng_epoch (pf_engine s) \<and>
     (\<forall>j. j \<noteq> scenario_id ins \<longrightarrow> find_record (pf_engine s') j = find_record (pf_engine s) j)"

lemma scenario_outcomeI:
  assumes "\<And>s. pf_device s = dev \<Longrightarrow> eng_epoch (pf_engine s) = Gen 1 \<Longrightarrow> find_record (pf_engine s) (scenario_id ins) = None \<Longrightarrow>
    \<exists>s' n. run s = Inr s' \<and> scenario_local ins s s' \<and> failures s' = failures s + n \<and> (n = 0 \<longleftrightarrow> ok)"
  shows "scenario_outcome dev ins ok run"
  unfolding scenario_outcome_def
proof (intro allI impI)
  fix I s
  assume s: "ready dev (insert (scenario_id ins) I) s \<and> scenario_id ins \<notin> I"
  then obtain s' n where "run s = Inr s'" "scenario_local ins s s'" "failures s' = failures s + n" "n = 0 \<longleftrightarrow> ok"
    using assms [of s] by (auto simp: ready_def)
  moreover from this(2) s have "ready dev I s'" unfolding ready_def scenario_local_def by (metis insert_iff)
  ultimately show "\<exists>s' n. run s = Inr s' \<and> ready dev I s' \<and> failures s' = failures s + n \<and> (n = 0 \<longleftrightarrow> ok)" by blast
qed

lemma run_scenarios_outcome:
  assumes "list_all (\<lambda>(run, ins, ok). scenario_outcome dev ins ok run) ss"
    and "distinct (map (\<lambda>(run, ins, ok). scenario_id ins) ss)" "ready dev (set (map (\<lambda>(run, ins, ok). scenario_id ins) ss)) s"
  shows "\<exists>s' n. run_scenarios (map fst ss) s = Inr s' \<and> pf_device s' = dev \<and> failures s' = failures s + n \<and>
    (n = 0 \<longleftrightarrow> list_all (\<lambda>(run, ins, ok). ok) ss)"
  using assms
proof (induction ss arbitrary: s)
  case Nil
  then show ?case by (simp add: ready_def)
next
  case (Cons x ss)
  obtain run ins ok where x: "x = (run, ins, ok)" by (cases x) auto
  let ?I = "set (map (\<lambda>(run, ins, ok). scenario_id ins) ss)"
  have "scenario_outcome dev ins ok run" "ready dev (insert (scenario_id ins) ?I) s" "scenario_id ins \<notin> ?I"
    using Cons.prems by (simp_all add: x)
  then obtain s1 n where s1: "run s = Inr s1" "ready dev ?I s1" "failures s1 = failures s + n" "n = 0 \<longleftrightarrow> ok"
    unfolding scenario_outcome_def by blast
  obtain s' n' where s': "run_scenarios (map fst ss) s1 = Inr s'" "pf_device s' = dev" "failures s' = failures s1 + n'"
      "n' = 0 \<longleftrightarrow> list_all (\<lambda>(run, ins, ok). ok) ss"
    using Cons.IH [OF _ _ s1(2)] Cons.prems(1,2) by auto
  then show ?case using s1 by (simp add: x)
qed

abbreviation vector_digest :: "u8 list \<Rightarrow> u32 \<Rightarrow> ResultDigest" where
  "vector_digest junk seed \<equiv> of_buffer junk (vector_bytes seed 0 (2 ^ 20))"

lemma first_facts [simp]:
  "dt_execution_id (first_ticket w b ins) = scenario_id ins" "state (first_running w b ins) = ExecutionState.RUNNING"
  "committed_digest (first_running w b ins) = None" "ownership_generation (first_running w b ins) = Gen 2"
  "\<not> id_is_nil w \<Longrightarrow> \<not> id_is_nil b \<Longrightarrow> ticket_code (Gen 1) (first_running w b ins) (first_ticket w b ins) = ALLOW"
  by (simp_all add: first_ticket_def first_running_def ticket_code_def validate_ticket_def completion_ticket_of_def
      created_record_def ExecutionRecord_init_def AttemptRecord_init_def mk_decision_def gen_is_set_def)

lemma expect_eq:
  "expect want op s =
     s\<lparr>pf_engine := snd (op (pf_engine s)), checks := checks s + 1,
       failures := failures s + (if code (fst (op (pf_engine s))) = want then 0 else 1)\<rparr>"
  by (simp add: expect_def CU_CHECK_def split_beta)

lemma check_eq:
  "CU_CHECK cond s = s\<lparr>checks := checks s + 1, failures := failures s + (if cond (pf_engine s) then 0 else 1)\<rparr>"
  by (simp add: CU_CHECK_def)

lemmas scenario_eval = cuda_start_def expect_eq check_eq cuda_finish_def found_def complete_current complete_recommitted complete_refused
  opened_running gpu_works scenario_local_def

lemma scenario_a_outcome:
  assumes "cuda_works env" "fresh_addresses env dev" "\<not> id_is_nil w" "\<not> id_is_nil b"
  shows "scenario_outcome dev ins (\<not> ResultDigest_is_nil (vector_digest junk 42)) (scenario_a junk env w b ins)"
  using assms unfolding scenario_a_def Let_def
  by (intro scenario_outcomeI, cases "ResultDigest_is_nil (vector_digest junk 42)") (simp_all add: scenario_eval)

text \<open>The second attempt, after a retry or a resume.\<close>

definition second_ticket :: "WorkerId \<Rightarrow> WorkerBootId \<Rightarrow> scenario_input \<Rightarrow> DispatchTicket" where
  "second_ticket w b ins =
     (first_ticket w b ins)
       \<lparr>dt_attempt_id := id_random (id_a2 ins), dt_attempt_generation := Gen 2, dt_dispatch_id := id_random (id_d2 ins),
        dt_ownership_generation := Gen 3, dt_fence_generation := Gen 3\<rparr>"

text \<open>Its record: execution state, state of the second attempt, state at its dispatch, and the two counters a resume moves.\<close>

definition second_record :: "ExecutionState \<Rightarrow> AttemptState \<Rightarrow> ExecutionState \<Rightarrow> PreemptionGeneration \<Rightarrow> ResumeGeneration
    \<Rightarrow> WorkerId \<Rightarrow> WorkerBootId \<Rightarrow> WorkerId \<Rightarrow> WorkerBootId \<Rightarrow> scenario_input \<Rightarrow> ExecutionRecord" where
  "second_record es as st pg rg w1 b1 w2 b2 ins =
     (first_running w1 b1 ins)
       \<lparr>state := es, preemption_generation := pg, resume_generation := rg,
        ownership_generation := Gen 3, fence_generation := Gen 3, current_attempt_id := Some (id_random (id_a2 ins)),
        current_attempt_generation := Some (Gen 2), owner_worker := Some w2, owner_worker_boot := Some b2,
        attempts := map (\<lambda>x. x\<lparr>at_state := AttemptState.SUPERSEDED\<rparr>) (attempts (first_running w1 b1 ins)) @ [AttemptRecord_init
          \<lparr>at_id := id_random (id_a2 ins), at_generation := Gen 2, at_worker_id := w2, at_worker_boot_id := b2,
           at_dispatch_id := id_random (id_d2 ins), at_dispatch_generation := Gen 1,
           at_ownership_generation := Gen 3, at_fence_generation := Gen 3,
           execution_state_at_dispatch := st, at_state := as\<rparr>]\<rparr>"

lemmas record_values = second_ticket_def second_record_def first_ticket_def first_running_def
  created_record_def ExecutionRecord_init_def AttemptRecord_init_def mk_decision_def gen_is_set_def

lemma second_facts [simp]:
  "dt_execution_id (second_ticket w b ins) = scenario_id ins" "state (second_record es as st pg rg w1 b1 w b ins) = es"
  "committed_digest (second_record es as st pg rg w1 b1 w b ins) = None"
  "\<not> id_is_nil w1 \<Longrightarrow> \<not> id_is_nil b1 \<Longrightarrow>
     ticket_code (Gen 1) (second_record es as st pg rg w1 b1 w b ins) (first_ticket w1 b1 ins) = REJECT_STALE_ATTEMPT"
  "\<not> id_is_nil w \<Longrightarrow> \<not> id_is_nil b \<Longrightarrow> (id_random (id_a1 ins) :: AttemptId) \<noteq> id_random (id_a2 ins) \<Longrightarrow>
     ticket_code (Gen 1) (second_record es as st pg rg w1 b1 w b ins) (second_ticket w b ins) = ALLOW"
  by (simp_all add: record_values ticket_code_def validate_ticket_def completion_ticket_of_def)

lemma retry_dispatched:
  assumes "find_record eng (scenario_id ins) = Some (first_running w1 b1 ins)" "eng_epoch eng = Gen 1"
  shows "\<exists>d. dispatch eng (scenario_id ins) w2 b2 (Gen 1) (id_a2 ins) (id_d2 ins) DispatchTicket_init =
      Inr (d, second_ticket w2 b2 ins, store_record (scenario_id ins)
        (second_record ExecutionState.DISPATCHED AttemptState.DISPATCHED ExecutionState.RUNNING (Gen 0) (Gen 0) w1 b1 w2 b2 ins) eng) \<and>
    code d = ALLOW"
proof -
  let ?r = "first_running w1 b1 ins"
  have "snd (dispatch_rec (Gen 1) w2 b2 (id_a2 ins) (id_d2 ins) DispatchTicket_init ?r) = (second_ticket w2 b2 ins,
      second_record ExecutionState.DISPATCHED AttemptState.DISPATCHED ExecutionState.RUNNING (Gen 0) (Gen 0) w1 b1 w2 b2 ins)"
    "code (fst (dispatch_rec (Gen 1) w2 b2 (id_a2 ins) (id_d2 ins) DispatchTicket_init ?r)) = ALLOW"
    by (simp_all add: dispatch_rec_def dispatch_refusal_def supersede_current_def supersede_attempt_def new_attempt_def install_attempt_def
        issue_ticket_def transition_def AttemptStateMachine_is_terminal_def gen_next_small Let_def record_values)
  moreover have "coordinator_epoch ?r = Gen 1" by (simp add: record_values)
  ultimately show ?thesis using assms by (simp add: dispatch_def require_def adopt_epoch_def Let_def split_beta)
qed

lemma second_started:
  assumes "find_record eng (scenario_id ins) = Some (second_record es AttemptState.DISPATCHED st pg rg w1 b1 w2 b2 ins)" "eng_epoch eng = Gen 1"
    and "es = ExecutionState.DISPATCHED \<or> es = RESUMING" "(id_random (id_a1 ins) :: AttemptId) \<noteq> id_random (id_a2 ins)"
  shows "code (fst (mark_running eng (start_ticket_of (second_ticket w2 b2 ins)))) = ALLOW"
    "snd (mark_running eng (start_ticket_of (second_ticket w2 b2 ins))) = store_record (scenario_id ins)
      (second_record ExecutionState.RUNNING AttemptState.RUNNING st pg rg w1 b1 w2 b2 ins) eng"
proof -
  let ?r = "second_record es AttemptState.DISPATCHED st pg rg w1 b1 w2 b2 ins" and ?t = "start_ticket_of (second_ticket w2 b2 ins)"
  have "code (fst (mark_running_rec (Gen 1) ?t ?r)) = ALLOW"
    "snd (mark_running_rec (Gen 1) ?t ?r) = second_record ExecutionState.RUNNING AttemptState.RUNNING st pg rg w1 b1 w2 b2 ins"
    using assms(3,4) by (auto simp: mark_running_rec_def validate_start_def start_ticket_of_def start_attempt_def transition_attempt_def
        transition_def Let_def record_values)
  moreover have "st_execution_id ?t = scenario_id ins" by (simp add: start_ticket_of_def)
  ultimately show "code (fst (mark_running eng ?t)) = ALLOW"
    "snd (mark_running eng ?t) = store_record (scenario_id ins)
      (second_record ExecutionState.RUNNING AttemptState.RUNNING st pg rg w1 b1 w2 b2 ins) eng"
    using assms(1,2) by (simp_all add: mark_running_def on_record_def split_beta)
qed

lemma scenario_b_outcome:
  assumes "cuda_works env1" "cuda_works env2" "fresh_addresses env1 dev" "fresh_addresses env2 dev" 
    and "\<not> id_is_nil w1" "\<not> id_is_nil b1" "\<not> id_is_nil w2" "\<not> id_is_nil b2"
    and new: "(id_random (id_a1 ins) :: AttemptId) \<noteq> id_random (id_a2 ins)"
  shows "scenario_outcome dev ins (\<not> ResultDigest_is_nil (vector_digest junk 99)) (scenario_b junk env1 env2 w1 b1 w2 b2 ins)"
proof (rule scenario_outcomeI)
  fix s :: proof_state
  assume s: "pf_device s = dev" "eng_epoch (pf_engine s) = Gen 1" "find_record (pf_engine s) (scenario_id ins) = None"
  let ?eng = "store_record (scenario_id ins) (first_running w1 b1 ins) (pf_engine s)"
  obtain d where d: "dispatch ?eng (scenario_id ins) w2 b2 (Gen 1) (id_a2 ins) (id_d2 ins) DispatchTicket_init =
      Inr (d, second_ticket w2 b2 ins, store_record (scenario_id ins)
        (second_record ExecutionState.DISPATCHED AttemptState.DISPATCHED ExecutionState.RUNNING (Gen 0) (Gen 0) w1 b1 w2 b2 ins) ?eng)" "code d = ALLOW"
    using retry_dispatched [of ?eng ins w1 b1 w2 b2] s(2) by auto
  show "\<exists>s' n. scenario_b junk env1 env2 w1 b1 w2 b2 ins s = Inr s' \<and> scenario_local ins s s' \<and> failures s' = failures s + n \<and>
      (n = 0 \<longleftrightarrow> \<not> ResultDigest_is_nil (vector_digest junk 99))"
    using assms s d unfolding scenario_b_def Let_def
    by (cases "ResultDigest_is_nil (vector_digest junk 99)") (simp_all add: scenario_eval expect_dispatch_def second_started)
qed

lemma scenario_e_outcome:
  assumes "cuda_works env1" "cuda_works env2" "fresh_addresses env1 dev" "fresh_addresses env2 dev" "\<not> id_is_nil w" "\<not> id_is_nil b"
  shows "scenario_outcome dev ins (\<not> ResultDigest_is_nil (vector_digest junk 21) \<and> vector_digest junk 999 \<noteq> vector_digest junk 21) (scenario_e junk env1 env2 w b ins)"
  using assms unfolding scenario_e_def Let_def
  by (intro scenario_outcomeI, cases "ResultDigest_is_nil (vector_digest junk 21)") (auto simp add: scenario_eval)

lemma cancel_requested:
  assumes "find_record eng (scenario_id ins) = Some (first_running w b ins)" "eng_epoch eng = Gen 1"
  shows "code (fst (cancel eng (owner_request (scenario_id ins) eng))) = ALLOW"
    "snd (cancel eng (owner_request (scenario_id ins) eng)) = store_record (scenario_id ins)
       ((first_running w b ins)\<lparr>cancellation_generation := Gen 1, state := CANCELLATION_REQUESTED\<rparr>) eng"
  using assms by (simp_all add: cancel_def on_record_def cancel_rec_def owner_request_def ControlRequest_init_def found_def transition_def
      is_terminal_iff gen_next_small Let_def record_values)

lemma ticket_code_update [simp]: "ticket_code ep (r\<lparr>cancellation_generation := c, state := st\<rparr>) tk = ticket_code ep r tk"
  by (simp add: ticket_code_def validate_ticket_def)

lemma scenario_c_outcome:
  assumes "cuda_works env" "fresh_addresses env dev" "\<not> id_is_nil w" "\<not> id_is_nil b"
  shows "scenario_outcome dev ins (\<not> ResultDigest_is_nil (vector_digest junk 5)) (scenario_c junk env w b ins)"
  using assms unfolding scenario_c_def Let_def
  by (intro scenario_outcomeI, cases "ResultDigest_is_nil (vector_digest junk 5)") (simp_all add: scenario_eval cancel_requested)

definition first_preempted :: "ExecutionState \<Rightarrow> AttemptState \<Rightarrow> WorkerId \<Rightarrow> WorkerBootId \<Rightarrow> scenario_input \<Rightarrow> ExecutionRecord" where
  "first_preempted es as w b ins =
     (first_running w b ins)\<lparr>state := es, preemption_generation := Gen 1,
        attempts := map (\<lambda>x. x\<lparr>at_state := as\<rparr>) (attempts (first_running w b ins))\<rparr>"

lemma preempt_cycle:
  assumes "eng_epoch eng = Gen 1"
  shows "find_record eng (scenario_id ins) = Some (first_running w b ins) \<Longrightarrow>
      code (fst (preempt eng (owner_request (scenario_id ins) eng))) = ALLOW \<and>
      snd (preempt eng (owner_request (scenario_id ins) eng)) =
        store_record (scenario_id ins) (first_preempted PREEMPTION_REQUESTED AttemptState.RUNNING w b ins) eng"
    "find_record eng (scenario_id ins) = Some (first_preempted PREEMPTION_REQUESTED AttemptState.RUNNING w b ins) \<Longrightarrow>
      code (fst (acknowledge_preempt eng (scenario_id ins) (Gen 1))) = ALLOW \<and>
      snd (acknowledge_preempt eng (scenario_id ins) (Gen 1)) =
        store_record (scenario_id ins) (first_preempted ExecutionState.PREEMPTED AttemptState.PREEMPTED w b ins) eng"
    "find_record eng (scenario_id ins) = Some (first_preempted ExecutionState.PREEMPTED AttemptState.PREEMPTED w b ins) \<Longrightarrow>
      code (fst (mark_resumable eng (scenario_id ins) (Gen 1))) = ALLOW \<and>
      snd (mark_resumable eng (scenario_id ins) (Gen 1)) =
        store_record (scenario_id ins) (first_preempted RESUMABLE AttemptState.PREEMPTED w b ins) eng"
  using assms by (simp_all add: preempt_def acknowledge_preempt_def mark_resumable_def on_record_def preempt_rec_def
      acknowledge_preempt_rec_def mark_resumable_rec_def mark_current_def transition_attempt_def AttemptStateMachine_is_terminal_def
      owner_request_def ControlRequest_init_def found_def transition_def is_terminal_iff gen_next_small Let_def record_values first_preempted_def)

lemma resumed:
  assumes "find_record eng (scenario_id ins) = Some (first_preempted RESUMABLE AttemptState.PREEMPTED w1 b1 ins)" "eng_epoch eng = Gen 1"
  shows "\<exists>d. resume eng (scenario_id ins) w2 b2 (Gen 1) (gen_next (resume_generation (found eng (scenario_id ins))))
      (id_a2 ins) (id_d2 ins) DispatchTicket_init = (d, second_ticket w2 b2 ins, store_record (scenario_id ins)
        (second_record RESUMING AttemptState.DISPATCHED RESUMABLE (Gen 1) (Gen 1) w1 b1 w2 b2 ins) eng) \<and> code d = RESUME_ALLOWED"
  using assms by (simp add: resume_def resume_rec_def supersede_preempted_def transition_attempt_def new_attempt_def install_attempt_def
      issue_ticket_def transition_def found_def gen_next_small Let_def record_values first_preempted_def)

lemma scenario_d_outcome:
  assumes "cuda_works env1" "cuda_works env2" "cuda_works env3"
    and "fresh_addresses env1 dev" "fresh_addresses env2 dev" "fresh_addresses env3 dev"
    and "\<not> id_is_nil w1" "\<not> id_is_nil b1" "\<not> id_is_nil w2" "\<not> id_is_nil b2"
    and new: "(id_random (id_a1 ins) :: AttemptId) \<noteq> id_random (id_a2 ins)"
  shows "scenario_outcome dev ins (\<not> ResultDigest_is_nil (vector_digest junk 11)) (scenario_d junk env1 env2 env3 w1 b1 w2 b2 ins)"
proof (rule scenario_outcomeI)
  fix s :: proof_state
  assume s: "pf_device s = dev" "eng_epoch (pf_engine s) = Gen 1" "find_record (pf_engine s) (scenario_id ins) = None"
  let ?eng = "store_record (scenario_id ins) (first_preempted RESUMABLE AttemptState.PREEMPTED w1 b1 ins) (pf_engine s)"
  obtain d where d: "resume ?eng (scenario_id ins) w2 b2 (Gen 1) (gen_next (resume_generation (found ?eng (scenario_id ins))))
      (id_a2 ins) (id_d2 ins) DispatchTicket_init = (d, second_ticket w2 b2 ins, store_record (scenario_id ins)
        (second_record RESUMING AttemptState.DISPATCHED RESUMABLE (Gen 1) (Gen 1) w1 b1 w2 b2 ins) ?eng)" "code d = RESUME_ALLOWED"
    using resumed [of ?eng ins w1 b1 w2 b2] s(2) by auto
  have halves: "vector_bytes 11 0 (2 ^ 20) = vector_bytes 11 0 (2 ^ 19) @ vector_bytes 11 (2 ^ 19) (2 ^ 19)"
    using vector_bytes_append [of 11 0 "2 ^ 19" "2 ^ 19"] by simp
  show "\<exists>s' n. scenario_d junk env1 env2 env3 w1 b1 w2 b2 ins s = Inr s' \<and> scenario_local ins s s' \<and> failures s' = failures s + n \<and>
      (n = 0 \<longleftrightarrow> \<not> ResultDigest_is_nil (vector_digest junk 11))"
    using assms s d halves unfolding scenario_d_def Let_def
    by (cases "ResultDigest_is_nil (vector_digest junk 11)") (simp_all add: scenario_eval second_started preempt_cycle)
qed

section \<open>The whole program\<close>

definition cuda_digests_ok :: "u8 list \<Rightarrow> bool" where
  "cuda_digests_ok junk \<longleftrightarrow>
     list_all (\<lambda>seed. \<not> ResultDigest_is_nil (vector_digest junk seed)) [42, 99, 5, 11, 21] \<and>
     vector_digest junk 999 \<noteq> vector_digest junk 21"

text \<open>Both readings succeed, and their free bytes differ by less than 8 MiB.\<close>

definition readings_agree :: "(u64 \<times> u64) option \<Rightarrow> (u64 \<times> u64) option \<Rightarrow> bool" where
  "readings_agree m0 m1 \<longleftrightarrow>
     (case (m0, m1) of (Some (free0, _), Some (free1, _)) \<Rightarrow> \<bar>uint free0 - uint free1\<bar> < 8 * 2 ^ 20 | _ \<Rightarrow> False)"

lemma memory_delta_less: "memory_delta a b < push_bit 20 8 \<longleftrightarrow> \<bar>uint a - uint b\<bar> < 8 * 2 ^ 20"
proof -
  have "uint (push_bit 20 8 :: u64) = 8 * 2 ^ 20" by code_simp
  moreover have "uint (x - y) = uint x - uint y" if "y \<le> x" for x y :: u64
    using that by (simp add: uint_minus_simple_alt)
  ultimately show ?thesis by (auto simp: memory_delta_def word_less_def word_le_def)
qed

lemma cuda_main_exit:
  assumes env: "\<And>k. cuda_works (env k)" "\<And>k. fresh_addresses (env k) dev" 
    and ids: "distinct (map (\<lambda>k. scenario_id (ins k)) [0, 1, 2, 3, 4])"
    and new: "(id_random (id_a1 (ins 1)) :: AttemptId) \<noteq> id_random (id_a2 (ins 1))"
      "(id_random (id_a1 (ins 3)) :: AttemptId) \<noteq> id_random (id_a2 (ins 3))"
  shows "cuda_main junk mem env rw1 rb1 rw2 rb2 ins dev = Inr (if cuda_digests_ok junk \<and> readings_agree (mem 0) (mem 1) then 0 else 1)"
proof -
  let ?w1 = "id_random rw1 :: WorkerId" and ?b1 = "id_random rb1 :: WorkerBootId"
  let ?w2 = "id_random rw2 :: WorkerId" and ?b2 = "id_random rb2 :: WorkerBootId"
  let ?m0 = "mem 0 \<noteq> None"
  let ?s = "CU_CHECK (\<lambda>_. ?m0) \<lparr>pf_engine = ExecutionEngine (Gen 1), pf_device = dev, checks = 0, failures = 0\<rparr>"
  let ?ok = "\<lambda>seed. \<not> ResultDigest_is_nil (vector_digest junk seed)"
  let ?ss = "[(scenario_a junk (env 0) ?w1 ?b1 (ins 0), ins 0, ?ok 42),
     (scenario_b junk (env 1) (env 2) ?w1 ?b1 ?w2 ?b2 (ins 1), ins 1, ?ok 99),
     (scenario_c junk (env 3) ?w1 ?b1 (ins 2), ins 2, ?ok 5),
     (scenario_d junk (env 4) (env 5) (env 6) ?w1 ?b1 ?w2 ?b2 (ins 3), ins 3, ?ok 11),
     (scenario_e junk (env 7) (env 8) ?w1 ?b1 (ins 4), ins 4, ?ok 21 \<and> vector_digest junk 999 \<noteq> vector_digest junk 21)]"
  have "list_all (\<lambda>(run, ins, ok). scenario_outcome dev ins ok run) ?ss"
    using scenario_a_outcome [of "env 0" dev ?w1 ?b1 "ins 0" junk] scenario_b_outcome [of "env 1" "env 2" dev ?w1 ?b1 ?w2 ?b2 "ins 1" junk]
      scenario_c_outcome [of "env 3" dev ?w1 ?b1 "ins 2" junk] scenario_d_outcome [of "env 4" "env 5" "env 6" dev ?w1 ?b1 ?w2 ?b2 "ins 3" junk]
      scenario_e_outcome [of "env 7" "env 8" dev ?w1 ?b1 "ins 4" junk] env new by simp
  moreover have "distinct (map (\<lambda>(run, ins, ok). scenario_id ins) ?ss)" using ids by simp
  moreover have "ready dev (set (map (\<lambda>(run, ins, ok). scenario_id ins) ?ss)) ?s"
    by (simp add: ready_def CU_CHECK_def ExecutionEngine_def find_record_def)
  ultimately obtain s n where s: "run_scenarios (map fst ?ss) ?s = Inr s" "pf_device s = dev" "failures s = failures ?s + n"
      "n = 0 \<longleftrightarrow> list_all (\<lambda>(run, ins, ok). ok) ?ss"
    using run_scenarios_outcome by blast
  have oks: "n = 0 \<longleftrightarrow> cuda_digests_ok junk" using s(4) by (simp add: cuda_digests_ok_def)
  have "cuda_main junk mem env rw1 rb1 rw2 rb2 ins dev = Inr (if failures s = 0 \<and> readings_agree (mem 0) (mem 1) then 0 else 1)"
    using s(1,3) unfolding cuda_main_def Let_def
    by (auto simp: device_memory_def readings_agree_def CU_CHECK_def memory_delta_less [simplified] del: run_scenarios.simps split: option.splits)
  moreover have "failures s = 0 \<longleftrightarrow> cuda_digests_ok junk" if "readings_agree (mem 0) (mem 1)"
    using s(3) oks that by (auto simp: CU_CHECK_def readings_agree_def split: option.splits)
  ultimately show ?thesis by auto
qed

end
