(* ===== verification/Examples.thy ===== *)
theory Examples
  imports Scenarios Programs
begin

text \<open>
  The example programs: \<^verbatim>\<open>consumer/main.cpp\<close>, \<^verbatim>\<open>examples/basic_authority.cpp\<close> and
  \<^verbatim>\<open>examples/protocol_demo.cpp\<close>, with what they print. Random draws, the clock and the
  uninitialised buffer of the hash are arguments. The lemmas say how each program ends.
\<close>

section \<open>The downstream consumer\<close>

text \<open>\<^verbatim>\<open>ResultDigest::of\<close> on the bytes of a literal.\<close>

definition digest_of_literal :: "u8 list \<Rightarrow> string \<Rightarrow> ResultDigest" where
  "digest_of_literal junk p = of_buffer junk (map char_byte p)"

definition consumer_main :: "u8 list \<Rightarrow> draws \<Rightarrow> draws \<Rightarrow> scenario_input \<Rightarrow> (int \<times> string) result" where
  "consumer_main junk rw rb ins =
     (let w = id_random rw; b = id_random rb; ex = scenario_id ins;
          (d, eng) = create (ExecutionEngine (Gen 1)) ex (Gen 1) (t_create ins)
      in if code d \<noteq> ALLOW then Inr (1, [])
         else case activate eng ex (Gen 1) of
           Inl x \<Rightarrow> Inl x
         | Inr (d, eng) \<Rightarrow>
             if code d \<noteq> ALLOW then Inr (1, [])
             else (case dispatch eng ex w b (Gen 1) (id_a1 ins) (id_d1 ins) DispatchTicket_init of
               Inl x \<Rightarrow> Inl x
             | Inr (d, tk, eng) \<Rightarrow>
                 if code d \<noteq> ALLOW then Inr (1, [])
                 else let (_, eng) = mark_running eng (start_ticket_of tk);
                          (dec, eng) = complete eng (completion_ticket_of tk (digest_of_literal junk ''downstream-result'')) (t_commit ins);
                          st = state (found eng ex)
                      in Inr (if code dec = ALLOW \<and> st = COMMITTED then 0 else 1,
                              ''downstream consumer: complete -> '' @ DecisionCode_to_string (code dec)
                              @ '', state='' @ ExecutionState_to_string st @ newline)))"

section \<open>The authority example\<close>

text \<open>\<^verbatim>\<open>printf("  %-28s => %s\n", ...)\<close>\<close>

definition pr :: "string \<Rightarrow> Decision \<Rightarrow> string" where
  "pr what d = ''  '' @ what @ replicate (28 - length what) CHR 0x20 @ '' => '' @ Decision_to_string d @ newline"

definition demo_start :: "DispatchTicket \<Rightarrow> StartTicket" where
  "demo_start d = start_ticket_of d"

definition demo_complete :: "u8 list \<Rightarrow> DispatchTicket \<Rightarrow> string \<Rightarrow> CompletionTicket" where
  "demo_complete junk d payload = completion_ticket_of d (digest_of_literal junk payload)"

text \<open>The engine calls of the program, in order, with the ticket of the dispatch and the final engine.\<close>

definition authority_calls :: "u8 list \<Rightarrow> draws \<Rightarrow> draws \<Rightarrow> draws \<Rightarrow> scenario_input
    \<Rightarrow> (Decision list \<times> DispatchTicket \<times> engine) result" where
  "authority_calls junk rw rb rb2 ins =
     (let w = id_random rw; b = id_random rb; ex = scenario_id ins;
          (d1, eng) = create (ExecutionEngine (Gen 1)) ex (Gen 1) (t_create ins)
      in case activate eng ex (Gen 1) of
           Inl x \<Rightarrow> Inl x
         | Inr (d2, eng) \<Rightarrow>
             (case dispatch eng ex w b (Gen 1) (id_a1 ins) (id_d1 ins) DispatchTicket_init of
                Inl x \<Rightarrow> Inl x
              | Inr (d3, tk, eng) \<Rightarrow>
                  let (d4, eng) = mark_running eng (demo_start tk);
                      (d5, eng) = complete eng (demo_complete junk tk ''authoritative-result'') (t_commit ins);
                      d6 = mk_decision ALLOW (ExecutionState_to_string (state (found eng ex)));
                      (d7, eng) = complete eng (demo_complete junk tk ''authoritative-result'') (t_commit ins);
                      (d8, eng) = complete eng (demo_complete junk tk ''different-result'') (t_commit ins);
                      (d9, eng) = complete eng ((demo_complete junk tk ''late'')\<lparr>ct_worker_boot_id := id_random rb2\<rparr>) (t_commit ins)
                  in Inr ([d1, d2, d3, d4, d5, d6, d7, d8, d9], tk, eng)))"

definition basic_authority :: "u8 list \<Rightarrow> draws \<Rightarrow> draws \<Rightarrow> draws \<Rightarrow> scenario_input \<Rightarrow> (int \<times> string) result" where
  "basic_authority junk rw rb rb2 ins =
     (case authority_calls junk rw rb rb2 ins of
        Inl x \<Rightarrow> Inl x
      | Inr (ds, tk, eng) \<Rightarrow>
          let rec = found eng (scenario_id ins) in
          Inr (0,
            ''Execution Fabric '' @ [CHR 0xE2, CHR 0x80, CHR 0x94] @ '' authority lifecycle example'' @ newline @ newline
            @ pr ''create'' (ds ! 0) @ pr ''activate'' (ds ! 1) @ pr ''dispatch(worker A)'' (ds ! 2)
            @ ''  attempt generation = '' @ std_to_string (gen_value (dt_attempt_generation tk)) @ newline
            @ ''  ownership gen      = '' @ std_to_string (gen_value (dt_ownership_generation tk)) @ newline
            @ pr ''mark_running'' (ds ! 3) @ pr ''complete'' (ds ! 4) @ pr ''state'' (ds ! 5)
            @ pr ''duplicate complete'' (ds ! 6) @ pr ''conflicting result'' (ds ! 7) @ pr ''stale boot complete'' (ds ! 8)
            @ newline @ ''Final state: '' @ ExecutionState_to_string (state rec) @ newline
            @ (case committed_digest rec of
                 None \<Rightarrow> []
               | Some dg \<Rightarrow> ''Committed digest: '' @ ResultDigest_to_hex dg @ newline)
            @ ''Commit generation: '' @ std_to_string (gen_value (commit_generation rec))
            @ ''  (exactly-once logical commit)'' @ newline))"

section \<open>The protocol example\<close>

definition demo_payload :: "draws \<Rightarrow> draws \<Rightarrow> draws \<Rightarrow> draws \<Rightarrow> WorkerDispatchPayload" where
  "demo_payload r1 r2 r3 r4 =
     \<lparr>wd_ticket = DispatchTicket_init
        \<lparr>dt_execution_id := id_random r1, dt_attempt_id := id_random r2, dt_worker_id := id_random r3,
         dt_worker_boot_id := id_random r4, dt_epoch := Gen 1, dt_attempt_generation := Gen 3,
         dt_ownership_generation := Gen 7, dt_fence_generation := Gen 9\<rparr>,
      work_bytes = 4096, work_seed = 12345\<rparr>"

definition protocol_demo :: "draws \<Rightarrow> draws \<Rightarrow> draws \<Rightarrow> draws \<Rightarrow> int \<times> string" where
  "protocol_demo r1 r2 r3 r4 =
     (let payload = demo_payload r1 r2 r3 r4;
          bytes = pack_worker_dispatch payload;
          frame = encode_frame WORKER_DISPATCH bytes;
          out = ''Frame bytes: '' @ decimal (length frame) @ '' (header '' @ decimal kFrameHeaderLen
                @ '' + payload '' @ decimal (length bytes) @ '')'' @ newline
      in case decode_frame frame of
           Inl err \<Rightarrow> (1, out @ ''decode failed: '' @ err @ newline)
         | Inr (decoded, consumed) \<Rightarrow>
             let out = out @ ''Decoded type: '' @ MsgType_to_string (frame_type decoded)
                       @ '', consumed '' @ decimal consumed @ newline
             in case unpack_worker_dispatch (frame_payload decoded) of
                  Inl err \<Rightarrow> (1, out @ ''unpack failed: '' @ err @ newline)
                | Inr back \<Rightarrow>
                    let ok = dt_attempt_id (wd_ticket back) = dt_attempt_id (wd_ticket payload) \<and>
                             dt_attempt_generation (wd_ticket back) = dt_attempt_generation (wd_ticket payload) \<and>
                             work_seed back = work_seed payload \<and>
                             dt_fence_generation (wd_ticket back) = dt_fence_generation (wd_ticket payload);
                        out = out @ ''Round-trip identical: '' @ (if ok then ''yes'' else ''no'') @ newline
                    in if \<not> ok then (1, out)
                       else case decode_frame (frame[18 := frame ! 18 XOR 1]) of
                         Inl err \<Rightarrow> (0, out @ ''Corruption detected: '' @ err @ newline @ ''OK'' @ newline)
                       | Inr _ \<Rightarrow> (1, out @ ''UNEXPECTED: corruption not detected'' @ newline))"

section \<open>Outcomes\<close>

lemma fresh_calls:
  "create (ExecutionEngine (Gen 1)) (scenario_id ins) (Gen 1) (t_create ins) =
     ((mk_decision ALLOW ''execution created'')\<lparr>d_execution_id := Some (scenario_id ins), d_coordinator_epoch := Some (Gen 1)\<rparr>,
      store_record (scenario_id ins) (created_record (scenario_id ins) (Gen 1) (t_create ins)) (ExecutionEngine (Gen 1)))"
  by (simp add: create_def adopt_epoch_def ExecutionEngine_def find_record_def Let_def)

lemma opened_calls:
  assumes "find_record eng (scenario_id ins) = Some (created_record (scenario_id ins) (Gen 1) (t_create ins))" "eng_epoch eng = Gen 1"
  shows "\<exists>d2 d3 d4 eng2 eng3. activate eng (scenario_id ins) (Gen 1) = Inr (d2, eng2) \<and> code d2 = ALLOW \<and>
    dispatch eng2 (scenario_id ins) w b (Gen 1) (id_a1 ins) (id_d1 ins) DispatchTicket_init = Inr (d3, first_ticket w b ins, eng3) \<and> code d3 = ALLOW \<and>
    mark_running eng3 (start_ticket_of (first_ticket w b ins)) = (d4, store_record (scenario_id ins) (first_running w b ins) eng) \<and> code d4 = ALLOW"
  using assms by (simp add: first_ticket_def first_running_def engine_eval)

lemma consumer_exit:
  "\<exists>out. consumer_main junk rw rb ins =
     Inr (if ResultDigest_is_nil (digest_of_literal junk ''downstream-result'') then 1 else 0, out)"
proof -
  let ?w = "id_random rw :: WorkerId" and ?b = "id_random rb :: WorkerBootId"
  let ?eng = "store_record (scenario_id ins) (created_record (scenario_id ins) (Gen 1) (t_create ins)) (ExecutionEngine (Gen 1))"
  have "eng_epoch ?eng = Gen 1" by (simp add: ExecutionEngine_def)
  then obtain d2 d3 d4 eng2 eng3 where o: "activate ?eng (scenario_id ins) (Gen 1) = Inr (d2, eng2)" "code d2 = ALLOW"
    "dispatch eng2 (scenario_id ins) ?w ?b (Gen 1) (id_a1 ins) (id_d1 ins) DispatchTicket_init = Inr (d3, first_ticket ?w ?b ins, eng3)" "code d3 = ALLOW"
    "mark_running eng3 (start_ticket_of (first_ticket ?w ?b ins)) = (d4, store_record (scenario_id ins) (first_running ?w ?b ins) ?eng)"
    using opened_calls [of ?eng ins ?w ?b] by auto
  have e: "eng_epoch (ExecutionEngine (Gen 1)) = Gen 1" by (simp add: ExecutionEngine_def)
  show ?thesis
    unfolding consumer_main_def Let_def fresh_calls using o e
    by (cases "ResultDigest_is_nil (digest_of_literal junk ''downstream-result'')")
      (simp_all add: split_beta found_def complete_current mk_decision_def)
qed

lemma complete_stale_boot:
  assumes "find_record eng (dt_execution_id tk) = Some r" "ticket_code (eng_epoch eng) r tk = ALLOW"
    and "boot \<noteq> dt_worker_boot_id tk" "\<not> id_is_nil boot"
  shows "code (fst (complete eng ((completion_ticket_of tk dg)\<lparr>ct_worker_boot_id := boot\<rparr>) now)) = REJECT_STALE_BOOT"
    "snd (complete eng ((completion_ticket_of tk dg)\<lparr>ct_worker_boot_id := boot\<rparr>) now) = eng"
proof -
  have "code (validate_ticket (eng_epoch eng) r ((completion_ticket_of tk dg)\<lparr>ct_worker_boot_id := boot\<rparr>)) = REJECT_STALE_BOOT"
    using assms(2-4) by (auto simp: ticket_code_def validate_ticket_def completion_ticket_of_def mk_decision_def split: if_splits dest: sym)
  then show "code (fst (complete eng ((completion_ticket_of tk dg)\<lparr>ct_worker_boot_id := boot\<rparr>) now)) = REJECT_STALE_BOOT"
    "snd (complete eng ((completion_ticket_of tk dg)\<lparr>ct_worker_boot_id := boot\<rparr>) now) = eng"
    using assms(1) by (simp_all add: complete_def on_record_def complete_rec_def Let_def store_same)
qed

lemma authority_decisions:
  assumes "(id_random rb2 :: WorkerBootId) \<noteq> id_random rb" "\<not> ResultDigest_is_nil (digest_of_literal junk ''authoritative-result'')"
  shows "\<exists>ds tk eng r. authority_calls junk rw rb rb2 ins = Inr (ds, tk, eng) \<and> find_record eng (scenario_id ins) = Some r \<and>
    (let a = digest_of_literal junk ''authoritative-result''; b = digest_of_literal junk ''different-result'' in
       map code ds = [ALLOW, ALLOW, ALLOW, ALLOW, ALLOW, ALLOW, REJECT_ALREADY_COMMITTED,
         if b = a then REJECT_ALREADY_COMMITTED else REJECT_CONFLICTING_COMPLETION, REJECT_STALE_BOOT] \<and>
       state r = COMMITTED \<and> committed_digest r = Some a \<and> commit_generation r = Gen 1)"
proof -
  let ?w = "id_random rw :: WorkerId" and ?b = "id_random rb :: WorkerBootId"
  let ?eng = "store_record (scenario_id ins) (created_record (scenario_id ins) (Gen 1) (t_create ins)) (ExecutionEngine (Gen 1))"
  have e: "eng_epoch (ExecutionEngine (Gen 1)) = Gen 1" "eng_epoch ?eng = Gen 1" by (simp_all add: ExecutionEngine_def)
  then obtain d2 d3 d4 eng2 eng3 where o: "activate ?eng (scenario_id ins) (Gen 1) = Inr (d2, eng2)" "code d2 = ALLOW"
    "dispatch eng2 (scenario_id ins) ?w ?b (Gen 1) (id_a1 ins) (id_d1 ins) DispatchTicket_init = Inr (d3, first_ticket ?w ?b ins, eng3)" "code d3 = ALLOW"
    "mark_running eng3 (start_ticket_of (first_ticket ?w ?b ins)) = (d4, store_record (scenario_id ins) (first_running ?w ?b ins) ?eng)" "code d4 = ALLOW"
    using opened_calls [of ?eng ins ?w ?b] by auto
  have c: "commit_generation (commit_record a dg now (first_running ?w ?b ins)) = Gen 1" "dt_worker_boot_id (first_ticket ?w ?b ins) = ?b" for a dg now by (simp_all add: record_values commit_record_def gen_next_small)
  show ?thesis
    unfolding authority_calls_def Let_def fresh_calls demo_start_def demo_complete_def using o e c assms
    by (simp add: split_beta found_def complete_current complete_recommitted complete_stale_boot mk_decision_def gen_next_small)
qed

lemma pack_worker_dispatch_length [simp]: "length (pack_worker_dispatch p) = 136"
  by (simp add: pack_worker_dispatch_def put_dispatch_ticket_def)

lemma protocol_demo_output:
  "protocol_demo r1 r2 r3 r4 =
     (0, ''Frame bytes: 154 (header 18 + payload 136)'' @ newline @ ''Decoded type: WORKER_DISPATCH, consumed 154'' @ newline
         @ ''Round-trip identical: yes'' @ newline @ ''Corruption detected: frame checksum mismatch'' @ newline @ ''OK'' @ newline)"
proof -
  let ?p = "pack_worker_dispatch (demo_payload r1 r2 r3 r4)" and ?f = "encode_frame WORKER_DISPATCH (pack_worker_dispatch (demo_payload r1 r2 r3 r4))"
  have len: "length ?p \<le> kMaxPayload" by (simp add: kMaxPayload_def)
  have "decode_frame ?f = Inr (\<lparr>frame_type = WORKER_DISPATCH, frame_payload = ?p\<rparr>, 154)"
    using decode_encode_frame [OF len, of WORKER_DISPATCH "[]"] by (simp add: kFrameHeaderLen_def)
  moreover have "decode_frame (?f[18 := ?f ! 18 XOR 1]) = Inl ''frame checksum mismatch''"
  proof -
    have "bit (?p ! 0 XOR 1) 0 \<noteq> bit (?p ! 0) 0" by (simp add: bit_simps)
    then have "?p ! 0 XOR 1 \<noteq> ?p ! 0" by metis
    then have "crc64 (?p[0 := ?p ! 0 XOR 1]) \<noteq> crc64 ?p" by (intro crc64_single_byte) simp_all
    then show ?thesis using len
      by (simp add: encode_frame_def list_update_append nth_append decode_frame_header unat_payload_length)
  qed
  moreover have "decimal 154 = ''154''" "decimal 136 = ''136''" "decimal 18 = ''18''" by code_simp+
  ultimately show ?thesis by (simp add: protocol_demo_def worker_dispatch_codec.unpack_pack kFrameHeaderLen_def)
qed

end
