(* ===== verification/Process.thy ===== *)
theory Process
  imports Main
begin

text \<open>
  \<^verbatim>\<open>proof/process.cpp\<close>, the POSIX branch: child processes of the proof harness. The process
  table of the system holds the children that run and those that have ended and were not waited for.
  The result of \<^verbatim>\<open>fork\<close> is an argument; a wait for a child that still runs blocks: \<open>None\<close>.
\<close>

datatype proc_status = Running | Zombie int

type_synonym proc_table = "int \<rightharpoonup> proc_status"

record child_process =
  pid :: int

definition Process :: child_process where
  "Process = \<lparr>pid = - 1\<rparr>"

text \<open>What the child does after the fork (its \<^verbatim>\<open>execv\<close>, or exit 127) happens in the child.\<close>

definition spawn :: "int option \<Rightarrow> child_process \<times> proc_table \<Rightarrow> bool \<times> child_process \<times> proc_table" where
  "spawn forked = (\<lambda>(p, os).
     case forked of
       None \<Rightarrow> (False, p\<lparr>pid := - 1\<rparr>, os)
     | Some k \<Rightarrow> (k > 0, p\<lparr>pid := k\<rparr>, os(k \<mapsto> Running)))"

text \<open>\<^verbatim>\<open>::kill(pid, SIGKILL)\<close>: a running child ends with raw status 9; other targets are left alone.\<close>

definition kill_child :: "child_process \<times> proc_table \<Rightarrow> child_process \<times> proc_table" where
  "kill_child = (\<lambda>(p, os). (p, if pid p > 0 \<and> os (pid p) = Some Running then os(pid p \<mapsto> Zombie 9) else os))"

text \<open>\<^verbatim>\<open>::kill(pid, 0)\<close> succeeds as long as the process is in the table.\<close>

definition alive :: "child_process \<times> proc_table \<Rightarrow> bool" where
  "alive = (\<lambda>(p, os). pid p > 0 \<and> os (pid p) \<noteq> None)"

text \<open>The status is returned as \<^verbatim>\<open>waitpid\<close> stores it, 0 when there is no such child.\<close>

definition wait_child :: "child_process \<times> proc_table \<Rightarrow> (int \<times> child_process \<times> proc_table) option" where
  "wait_child = (\<lambda>(p, os).
     if pid p \<le> 0 then Some (- 1, p, os)
     else case os (pid p) of
       Some Running \<Rightarrow> None
     | Some (Zombie status) \<Rightarrow> Some (status, p\<lparr>pid := - 1\<rparr>, os(pid p := None))
     | None \<Rightarrow> Some (0, p\<lparr>pid := - 1\<rparr>, os))"

text \<open>\<^verbatim>\<open>find_free_port\<close> has no implementation in this branch.\<close>

definition find_free_port :: "nat \<Rightarrow> bool \<times> nat" where
  "find_free_port port = (False, port)"

section \<open>Ending a child\<close>

text \<open>A killed child still counts as alive; only waiting for it removes it, and gives the signal, not an exit code.\<close>

lemma killed_child:
  assumes "spawn (Some k) (p, os) = (True, s)"
  shows "alive s" "alive (kill_child s)" "kill_child (kill_child s) = kill_child s" "wait_child s = None"
    "wait_child (kill_child s) = Some (9, p\<lparr>pid := - 1\<rparr>, os(k := None))"
  using assms by (auto simp: spawn_def alive_def kill_child_def wait_child_def)

end
