(* ===== verification/Client_Properties.thy ===== *)
theory Client_Properties
  imports System_Properties Controller Examples Process
begin

text \<open>
  The properties of the programs around the coordinator: the controller client, the CUDA executor and
  its proof program.
\<close>

section \<open>The controller client\<close>

text \<open>C16: A client's session over a connection that neither fails nor ends, with requests that do not dispatch to
  the client itself and whose results are within the limit of the format. After the handshake the
  client knows the epoch of the coordinator, and its calls return, in order, the coordinator's answers
  to its requests: the engine's decisions, tickets and records at the moment each request is decided,
  whatever frames of other connections are decided in between and however the bytes are split on the
  way. Nothing is left unread. Requests are decided as they arrive: a control request without its
  execution generation, a completion without an unannounced digest. The one exception to the answers:
  a query about an execution that the coordinator does not know, or a submission of one under an old
  epoch, returns an error unless the uninitialised state byte of the answer happens to be a state.\<close>
theorem controller_session:
  assumes "conn_open conn c"
    and "served conn (handle_hello conn controller_hello c) rs outs fs c'"
    and "channel tc (length (encode_frame HELLO (pack_hello controller_hello)) + length (concat (map (\<lambda>r. frame_bytes (request_frame r)) rs)))
      (concat (map frame_bytes (replies conn c (handle_hello conn controller_hello c) @ fs)))"
  shows "\<exists>ctl1 ctl2. controller_connect (Inr tc) ctl = Some (Inr (), ctl1) \<and> ctl_epoch ctl1 = co_epoch c \<and>
    controller_calls rs ctl1 = Some (outs, ctl2) \<and> ctl_epoch ctl2 = co_epoch c \<and>
    stream_bytes (incoming (ctl_conn ctl2)) = []"
proof -
  obtain ctl1 where c1: "controller_connect (Inr tc) ctl = Some (Inr (), ctl1)" "ctl_epoch ctl1 = co_epoch c"
    "channel (ctl_conn ctl1) (length (concat (map (\<lambda>r. frame_bytes (request_frame r)) rs)) + 0) (concat (map frame_bytes fs) @ [])"
    using controller_connects [OF assms(1) refl, of tc _ "concat (map frame_bytes fs)" ctl] assms(3) by auto
  from session_answered [OF assms(2) c1(3)] c1 show ?thesis by (auto simp: channel_def)
qed

definition ex_served_coordinator :: coordinator where
  "ex_served_coordinator = (ex_coordinator ex_running)\<lparr>conns := (2, ConnEntry\<lparr>ce_conn := True\<rparr>) # conns (ex_coordinator ex_running)\<rparr>"

definition ex_cancel :: ControlRequest where
  "ex_cancel = ControlRequest_init\<lparr>req_execution_id := ex_exec, req_epoch := Gen 1, authority_generation := Gen 2\<rparr>"

definition ex_asked :: coordinator where
  "ex_asked = handle_query ex_env 2 \<lparr>qp_execution_id = ex_exec\<rparr> (handle_hello 2 controller_hello ex_served_coordinator)"

definition ex_cancelled :: coordinator where
  "ex_cancelled = handle_control ex_env 2 CANCEL_ACK (cancel (co_engine ex_asked) ex_cancel) ex_asked"

lemma ex_served:
  "conn_open 2 ex_served_coordinator"
  "served 2 (handle_hello 2 controller_hello ex_served_coordinator) [Ask ex_exec, Cancel_it ex_cancel]
     [Inr (Asked (query_response ex_env (ex_engine ex_running) ex_exec)), Inr (Decided (wire_decision (fst (cancel (ex_engine ex_running) ex_cancel))))]
     (replies 2 (handle_hello 2 controller_hello ex_served_coordinator) ex_asked @ replies 2 ex_asked ex_cancelled @ []) ex_cancelled"
proof -
  let ?h = "handle_hello 2 controller_hello ex_served_coordinator"
  show "conn_open 2 ex_served_coordinator" by (simp add: conn_open_def ex_served_coordinator_def)
  have eng: "co_engine ?h = ex_engine ex_running" "co_engine ex_asked = ex_engine ex_running"
    by (simp_all add: ex_asked_def engine_handlers ex_served_coordinator_def)
  have con: "conn_open 2 ?h" by (rule hello_reply) (simp add: conn_open_def ex_served_coordinator_def)
  then have con': "conn_open 2 ex_asked" by (simp add: ex_asked_def handle_query_def)
  have h1: "handle_frame ex_env 2 QUERY (pack_query \<lparr>qp_execution_id = ex_exec\<rparr>) ?h = Inr ex_asked"
    by (simp add: handle_frame_def on_payload_def query_codec.unpack_pack ex_asked_def)
  have gen: "received_control ex_cancel = ex_cancel" by (simp add: ex_cancel_def ControlRequest_init_def)
  then have h2: "handle_frame ex_env 2 CANCEL (pack_cancel \<lparr>cancel_request = ex_cancel\<rparr>) ex_asked = Inr ex_cancelled"
    by (simp add: handle_frame_def on_payload_def unpack_pack_cancel ex_cancelled_def)
  have fits: "valid_exec_state (env_uninit ex_env)" by (simp add: ex_env_def valid_exec_state_def)
  have s2: "served 2 ex_asked [Cancel_it ex_cancel] [outcome ex_env ex_asked (Cancel_it ex_cancel)] (replies 2 ex_asked ex_cancelled @ []) ex_cancelled"
    by (rule served_request [OF _ con' _ served_nil]) (simp_all add: h2)
  have "served 2 ?h [Ask ex_exec, Cancel_it ex_cancel]
     [outcome ex_env ?h (Ask ex_exec), outcome ex_env ex_asked (Cancel_it ex_cancel)]
     (replies 2 ?h ex_asked @ replies 2 ex_asked ex_cancelled @ []) ex_cancelled"
    by (rule served_request [OF _ con _ s2]) (simp_all add: h1)
  then show "served 2 ?h [Ask ex_exec, Cancel_it ex_cancel]
     [Inr (Asked (query_response ex_env (ex_engine ex_running) ex_exec)), Inr (Decided (wire_decision (fst (cancel (ex_engine ex_running) ex_cancel))))]
     (replies 2 ?h ex_asked @ replies 2 ex_asked ex_cancelled @ []) ex_cancelled"
    by (simp add: eng outcome_def fits gen)
qed

definition ex_channel :: "nat \<Rightarrow> u8 list \<Rightarrow> tcp_connection" where
  "ex_channel n bs = \<lparr>fd_open = True, incoming = [Received bs], send_results = replicate n (Sent 1), sent = []\<rparr>"

theorem controller_session_witness:
  "\<exists>tc ctl1 ctl2. controller_connect (Inr tc) \<lparr>ctl_conn = tc, ctl_epoch = Gen 0\<rparr> = Some (Inr (), ctl1) \<and> ctl_epoch ctl1 = Gen 1 \<and>
    controller_calls [Ask ex_exec, Cancel_it ex_cancel] ctl1 =
      Some ([Inr (Asked (query_response ex_env (ex_engine ex_running) ex_exec)),
             Inr (Decided (wire_decision (fst (cancel (ex_engine ex_running) ex_cancel))))], ctl2)"
proof -
  let ?c = "ex_served_coordinator" and ?rs = "[Ask ex_exec, Cancel_it ex_cancel]"
  let ?h = "handle_hello 2 controller_hello ?c"
  let ?n = "length (encode_frame HELLO (pack_hello controller_hello)) + length (concat (map (\<lambda>r. frame_bytes (request_frame r)) ?rs))"
  let ?bs = "concat (map frame_bytes (replies 2 ?c ?h @ replies 2 ?h ex_asked @ replies 2 ex_asked ex_cancelled @ []))"
  have "replies 2 ?c ?h \<noteq> []"
    using hello_reply(2) [OF ex_served(1)] by simp
  then have "?bs \<noteq> []" by simp
  then have ch: "channel (ex_channel ?n ?bs) ?n ?bs" by (simp add: channel_def ex_channel_def send_replicate)
  have "co_epoch ?c = Gen 1"
    by (simp add: ex_served_coordinator_def ex_coordinator_def coordinator_start_def Coordinator_def load_def read_all_def Let_def)
  then show ?thesis using controller_session [OF ex_served ch, of "\<lparr>ctl_conn = ex_channel ?n ?bs, ctl_epoch = Gen 0\<rparr>"] by auto
qed

section \<open>The CUDA executor\<close>


definition ex_cuda :: cuda_env where
  "ex_cuda = \<lparr>malloc_a = Some 1, malloc_b = Some 2, malloc_c = Some 3, malloc_error = None, copied_a = True, copied_b = True,
     launched = True, synchronized = True, copied_c = True,
     freed_a = True, freed_b = True, freed_c = True,
     thread_order = (\<lambda>blocks. List.product (rev [0..<blocks]) [0..<256]), fresh_cell = (\<lambda>_. 0), stray = (\<lambda>i x k q. 0)\<rparr>"

lemma ex_cuda_works: "cuda_works ex_cuda" "fresh_addresses ex_cuda Map.empty"
  by (auto simp: cuda_works_def cuda_computes_def ex_cuda_def grid_def fresh_addresses_def map_filter_def Let_def)




section \<open>The CUDA proof\<close>

text \<open>C39: The CUDA proof program passes. On a working runtime with unused addresses, whatever identities are drawn as
  long as they differ, all checks of the five scenarios hold (commit and replay, stale completion after
  a retry, cancellation race, preemption and resume with the halves making up the whole, lost
  acknowledgement) exactly when the digests of the committed results are not all zeros and the
  conflicting result of the last scenario has another digest. The exit status is 0 exactly when
  moreover both readings of the free device memory, which are the runtime's and not derived from the
  allocations of the program, succeed and differ by less than 8 MiB.\<close>
theorem cuda_proof_exit:
  assumes "\<forall>k. cuda_works (env k)" "\<forall>k. fresh_addresses (env k) dev"
    and "distinct (map (\<lambda>k. scenario_id (ins k)) [0, 1, 2, 3, 4])"
    and "(id_random (id_a1 (ins 1)) :: AttemptId) \<noteq> id_random (id_a2 (ins 1))"
    and "(id_random (id_a1 (ins 3)) :: AttemptId) \<noteq> id_random (id_a2 (ins 3))"
  shows "cuda_main junk mem env rw1 rb1 rw2 rb2 ins dev =
    Inr (if cuda_digests_ok junk \<and>
            (case (mem 0, mem 1) of
               (Some (free0, _), Some (free1, _)) \<Rightarrow> \<bar>uint free0 - uint free1\<bar> < 8 * 2 ^ 20
             | _ \<Rightarrow> False)
         then 0 else 1)"
  unfolding readings_agree_def [symmetric] using assms by (intro cuda_main_exit) auto

definition ex_inputs :: "nat \<Rightarrow> scenario_input" where
  "ex_inputs k = \<lparr>id_ex = (word_of_nat k, 1), id_a1 = (0, 2), id_d1 = (0, 3), id_a2 = (1, 4), id_d2 = (1, 5), t_create = ''t0'', t_commit = ''t1''\<rparr>"

lemma cuda_proof_example:
  "distinct (map (\<lambda>k. scenario_id (ex_inputs k)) [0, 1, 2, 3, 4])"
  "(id_random (id_a1 (ex_inputs 1)) :: AttemptId) \<noteq> id_random (id_a2 (ex_inputs 1))"
  "(id_random (id_a1 (ex_inputs 3)) :: AttemptId) \<noteq> id_random (id_a2 (ex_inputs 3))"
  by code_simp+

theorem cuda_proof_exit_witness:
  "cuda_main (replicate 64 0) (\<lambda>k. Some (if k = 0 then 2 ^ 30 else 2 ^ 30 - 2 ^ 22, 2 ^ 31)) (\<lambda>_. ex_cuda) (1, 1) (2, 2) (3, 3) (4, 4) ex_inputs Map.empty =
     Inr (if cuda_digests_ok (replicate 64 0) then 0 else 1) \<and>
   cuda_main (replicate 64 0) (\<lambda>k. Some (if k = 0 then 2 ^ 30 else 2 ^ 29, 2 ^ 31)) (\<lambda>_. ex_cuda) (1, 1) (2, 2) (3, 3) (4, 4) ex_inputs Map.empty = Inr 1"
proof -
  have env: "\<forall>k :: nat. cuda_works ex_cuda" "\<forall>k :: nat. fresh_addresses ex_cuda Map.empty" by (simp_all add: ex_cuda_works)
  show ?thesis unfolding cuda_proof_exit [OF env cuda_proof_example] by simp
qed

end
