(* ===== verification/Spec2Isabelle.thy ===== *)
theory Spec2Isabelle
  imports System_Properties Engine_Properties Client_Properties
begin

text \<open>
  \<^bold>\<open>Execution Fabric: a verified model.\<close>

  The program decides who may run an execution and whose result counts. A \<^emph>\<open>coordinator\<close>
  process keeps one record per execution in an \<^emph>\<open>authority engine\<close>, writes all records to a
  snapshot file, and talks to clients and \<^emph>\<open>workers\<close> over TCP. A dispatch creates an attempt,
  fences the earlier ones, and hands the worker a ticket; the completion that comes back commits the execution
  when its ticket still names the attempt that holds authority. Worker loss, cancellation, preemption and resume,
  supersession and coordinator restarts move authority or end the execution.

  \<^bold>\<open>Theories and the sources they model\<close> (paths under \<^verbatim>\<open>src/\<close>; the
  public headers are in \<^verbatim>\<open>include/execution_fabric/\<close>):

    \<^item> \<open>Prelude\<close>: types of machine words and arrays, lists and maps, and the locales of step relations
      (runs, invariants, preorders) that the state machines are instances of.
    \<^item> \<open>Identity\<close>: \<^verbatim>\<open>identity.hpp/.cpp\<close> (UUIDs and typed identities) and
      \<^verbatim>\<open>generation.hpp\<close> (saturating 64-bit counters). \<open>States\<close>:
      \<^verbatim>\<open>state.hpp/.cpp\<close> and \<^verbatim>\<open>state_machine.hpp\<close>, both transition
      tables. \<open>Decision\<close>: \<^verbatim>\<open>decision.hpp/.cpp\<close>,
      \<^verbatim>\<open>digest.hpp/.cpp\<close>, \<^verbatim>\<open>record.hpp\<close>,
      \<^verbatim>\<open>authority.hpp\<close>.
    \<^item> \<open>Engine\<close>: \<^verbatim>\<open>engine.hpp/.cpp\<close>. An operation \<open>f\<close> is
      \<open>f_rec\<close> on the record, lifted to the engine, in the order of the code, with every rejection as a
      decision and \<open>std::out_of_range\<close> as \<open>Inl\<close>. \<open>Engine_Runs\<close>: events, runs
      and reachable engines. \<open>Engine_Invariants\<close>: well-formedness and what never goes back.
      \<open>Authority\<close>: the ledger, the abstract specification of who holds authority, and the simulation.
      \<open>Engine_Facts\<close>: the lemmas on single operations. \<open>Property_Test\<close>: the invariants that
      \<^verbatim>\<open>tests/property_test.cpp\<close> checks at random.
    \<^item> \<open>Binary\<close>: \<^verbatim>\<open>binary.hpp\<close>. \<open>Crc64\<close>:
      \<^verbatim>\<open>checksum.hpp/.cpp\<close>. \<open>Persistence\<close>: the record format and the cross-field
      validation of \<^verbatim>\<open>src/persistence.cpp\<close>. \<open>Snapshot\<close>: its file format, save and
      load, on a file system that maps paths to bytes, whose states during a save are recorded.
      \<open>Recovery\<close>: which engine records a load accepts.
    \<^item> \<open>Sha256\<close>: \<^verbatim>\<open>sha256.hpp\<close>. \<open>Protocol\<close>: the messages of
      \<^verbatim>\<open>protocol/protocol.hpp/.cpp\<close>. \<open>Frames\<close>: its frames.
      \<open>Transport\<close>: the send and receive loops of \<^verbatim>\<open>protocol/transport.cpp\<close>.
      \<open>Sockets\<close>: its socket objects over the open descriptors of the process.
    \<^item> \<open>Coordinator\<close>: \<^verbatim>\<open>coordinator/coordinator.hpp/.cpp\<close>, one definition per
      message handler and one step per atomic action of its threads. \<open>Durability\<close>: the coordinator over
      several lives of its process. \<open>Worker\<close>: \<^verbatim>\<open>worker/worker.hpp/.cpp\<close>.
      \<open>Programs\<close>: \<^verbatim>\<open>coordinator_main.cpp\<close>,
      \<^verbatim>\<open>worker_main.cpp\<close> and \<^verbatim>\<open>tools/ef_inspect.cpp\<close>.
    \<^item> \<open>Replies\<close>: the texts of decisions are short. \<open>Controller\<close>: the client of
      \<^verbatim>\<open>proof/proof_harness.cpp\<close> and its waiting loop. \<open>Process\<close>:
      \<^verbatim>\<open>proof/process.hpp/.cpp\<close>, child processes over a process table. \<open>Cuda\<close>:
      \<^verbatim>\<open>cuda/cuda_executor.cu\<close>, the kernel thread by thread on the device memory, and single
      precision on rational numbers. \<open>Scenarios\<close>: \<^verbatim>\<open>cuda/cuda_proof.cpp\<close>.
      \<open>Examples\<close>: \<^verbatim>\<open>consumer/main.cpp\<close> and \<^verbatim>\<open>examples/\<close>.
    \<^item> \<open>Engine_Properties\<close>, \<open>Store_Properties\<close>, \<open>Wire_Properties\<close>,
      \<open>System_Properties\<close>, \<open>Client_Properties\<close>: the properties, each with a worked instance
      where it has hypotheses.

  \<^bold>\<open>How state and effects are modelled.\<close> Records and tickets have the fields of the structs.
  The engine and the table of connections are association lists whose order stands for the iteration order of the
  hash map. Clock, random draws, the outcomes of file operations and of CUDA calls, the order of device threads,
  what an access outside the device arrays does, what a socket delivers, and the content of uninitialised memory
  are arguments of the definitions. A theorem holds for all of them unless it says otherwise: the properties of
  storage name the outcomes they exclude, and the session of a client says what an uninitialised state byte does.
  A call that blocks forever is \<open>None\<close>; an escaping exception is \<open>Inl\<close>.

  \<^bold>\<open>What is shown.\<close>

    \<^item> Authority: a completion is allowed exactly when its ticket names the holder; a fenced ticket never commits; at
      most one commit, with the provenance of its digest; terminal records never change; generations, epochs and
      histories never go back; every operation refines the ledger; the outcome of dispatch, loss, cancel, supersede
      and preemption on every branch.
    \<^item> Storage: records and snapshots within the range of the format are read back as written, unless bytes are lost
      when the file is closed, which the code does not notice; a changed byte is detected; what every state of a save
      leaves on the disk; which engine records the decoder accepts, and which it does not.
    \<^item> Wire: frames are read back as written, and messages but for a few named fields; the receive loops return the
      frames in order however the stream is cut; the size of what is read is bounded; the readers of enumerations
      accept their bytes and no others; generations do not wrap; what the digest code computes.
    \<^item> System: every interleaving of the coordinator's threads keeps the engine's invariants; a commit that was saved
      is final over every further run with deaths and restarts, under explicit conditions on records and storage; a
      dispatch is carried out by the worker's loop and its reports, decided among other turns, commit the result; a
      worker answers a stream of frames exactly and returns; descriptors neither leak nor are shared; the inspection
      tool prints what was saved.
    \<^item> Clients: the calls of a controller return the answers of the coordinator in order, whatever else is decided in
      between; the CUDA executor reports success only with the right sums, in every order of its threads, and leaves
      on the device what it failed to release and nothing else (for fewer than 2^31 elements); the CUDA proof ends
      with status 0, up to digests that no theorem here excludes being zero or equal and two readings of the free
      memory. The examples are evaluated in \<open>Examples\<close>.
    \<^item> Defects: some properties state behaviour the code does not mean to have, for instance the dispatch that is
      rejected after it moved authority, the snapshot that cannot be loaded after an early cancellation, the exception
      for an unknown execution, and the digest that is not SHA-256.

  \<^bold>\<open>Interfaces.\<close> The step relations of engine and coordinator are interpretations of
  \<open>step_preorder\<close>, those of the runs with crashes and of the socket objects of
  \<open>step_invariant\<close>, both transition tables of \<open>guarded_lifecycle\<close>, the fields of the
  binary formats of \<open>codec\<close> and \<open>field_codec\<close>, the messages of
  \<open>message_codec\<close>, the file store of \<open>persistence_store\<close>, which loads what it saved, and
  each pair of a request and its handler of \<open>request_reply\<close>, from which the client's calls get their
  answers.

  \<^bold>\<open>Termination.\<close> No fuel is used in the model of the program. The receive loop ends because
  each turn consumes an event of the finite stream given as argument; a stream that ends before the loop is
  satisfied is a call that blocks. The worker's loop ends because each turn takes at least one frame off that
  stream. \<open>recv_frames\<close> takes the number of frames to receive. The decision loop of the coordinator
  has no exit in the code and is a step relation. The waiting loop of the controller takes the readings of its
  clock and ends at the first one past its time limit.

  \<^bold>\<open>Crashes.\<close> A process dies between two steps of its threads, or in any state that the file
  system passes through during a save. \<open>save_crash_leaves_no_torn_file\<close> says what these states hold:
  between remove and rename the snapshot is missing, so \<open>commit_survives_restarts\<close> excludes a death
  in this window, along with lost bytes at the close, a rename that fails, records outside the range of the format
  and an unreadable file, after which the next process can start empty. The death of the machine is not
  modelled: the code never asks the system to write its buffers to the disk.

  \<^bold>\<open>Not modelled.\<close> The Windows branches of sockets and file replacement; whether a send by the
  coordinator reaches its peer (the code ignores it); signal handling and the wait loop of the coordinator
  program; \<^verbatim>\<open>request_stop\<close> of the worker, which nothing calls; closing a descriptor that
  stays open; the enumeration \<^verbatim>\<open>OwnershipRole\<close>, which no code uses; the CUDA runtime,
  whose results are arguments, and the lines the CUDA proof prints; the scripts in \<^verbatim>\<open>main\<close>
  of the proof harness, which run real processes against the clock; the Windows branches of
  \<^verbatim>\<open>process.cpp\<close>; benchmarks and tests, which are clients.
\<close>

end
